(* ===== verification/Prelude.thy ===== *)
theory Prelude
  imports Main "HOL-Library.Word" "HOL-Library.List_Lexorder" "HOL-Library.Char_ord"
    "HOL-Library.Sublist"
begin

text \<open>
  Shared vocabulary of the development: the machine integers of the Rust sources as words, the
  parts of Rust's standard library the bot uses on numbers, strings and byte slices, and the
  named collections of facts the component theories hand to the simplifier.

  \<^item> \<open>u8\<close>, \<open>u32\<close>, \<open>u64\<close>, \<open>u128\<close>, \<open>i64\<close> are words; \<open>+\<close> and \<open>-\<close> wrap, as they do in the
    release profile of \<open>Cargo.toml\<close> (no overflow checks there). \<open>usize\<close> values that are lengths
    or indices of a \<open>Vec\<close> are \<open>nat\<close>.
  \<^item> \<open>String\<close> is a list of bytes (\<open>char\<close>), compared byte-wise as Rust does.
  \<^item> \<open>panic = "abort"\<close> in the release profile: a panicking thread ends the process, so a lock is
    never seen poisoned and the \<open>else\<close> branches of \<open>let Ok(g) = lock.read()\<close> never run.
\<close>

unbundle bit_operations_syntax

named_theorems byte_simps \<open>lengths and reads of byte slices\<close>
named_theorems hm_simps \<open>lookups in updated hash maps\<close>
named_theorems hm_intros \<open>well-formedness of updated hash maps\<close>

type_synonym u8 = "8 word"
type_synonym u16 = "16 word"
type_synonym u32 = "32 word"
type_synonym u64 = "64 word"
type_synonym u128 = "128 word"
type_synonym i64 = "64 word"
type_synonym bytes = "u8 list"

section \<open>Arithmetic of the standard library\<close>

definition saturating_add :: "u64 \<Rightarrow> u64 \<Rightarrow> u64" where
  "saturating_add a b = (if unat a + unat b < 2 ^ 64 then a + b else 18446744073709551615)"

definition saturating_sub :: "u64 \<Rightarrow> u64 \<Rightarrow> u64" where
  "saturating_sub a b = (if b \<le> a then a - b else 0)"

lemma unat_saturating_add: "unat (saturating_add a b) = min (unat a + unat b) (2 ^ 64 - 1)"
proof (cases "unat a + unat b < 2 ^ 64")
  case True
  then show ?thesis by (simp add: saturating_add_def unat_word_ariths)
next
  case False
  then show ?thesis by (simp add: saturating_add_def)
qed

lemma unat_saturating_sub: "unat (saturating_sub a b) = unat a - unat b"
  by (simp add: saturating_sub_def unat_sub word_le_nat_alt)

lemma saturating_add_mono: "a \<le> a' \<Longrightarrow> saturating_add a b \<le> saturating_add a' b"
  by (simp add: word_le_nat_alt unat_saturating_add)

lemma unat_add_no_wrap:
  "unat (a :: 'a::len word) + unat b < 2 ^ LENGTH('a) \<Longrightarrow> unat (a + b) = unat a + unat b"
  by (simp add: unat_word_ariths)

lemma sint_small: "unat (w :: i64) < 2 ^ 63 \<Longrightarrow> sint w = int (unat w)"
proof -
  assume "unat w < 2 ^ 63"
  then have "int (unat w) < int (2 ^ 63)" by (simp only: of_nat_less_iff)
  then have u: "uint w < 2 ^ 63" by simp
  have "0 \<le> uint w" by simp
  moreover have "- (2 ^ 63) \<le> (0 :: int)" by simp
  ultimately have l: "- (2 ^ 63) \<le> uint w" by (rule order_trans [rotated])
  have "sint w = signed_take_bit 63 (uint w)" by (simp add: sint_uint)
  also have "\<dots> = uint w" by (rule signed_take_bit_int_eq_self [OF l u])
  finally show ?thesis by simp
qed

section \<open>Decimal text\<close>

text \<open>\<open>to_string\<close> of an unsigned integer.\<close>

fun dec_of_nat :: "nat \<Rightarrow> string" where
  "dec_of_nat n =
     (let d = [char_of (48 + n mod 10)] in if n < 10 then d else dec_of_nat (n div 10) @ d)"

declare dec_of_nat.simps [simp del]

definition is_digit :: "char \<Rightarrow> bool" where
  "is_digit c \<longleftrightarrow> 48 \<le> (of_char c :: nat) \<and> (of_char c :: nat) \<le> 57"

definition digit_val :: "char \<Rightarrow> nat" where
  "digit_val c = of_char c - 48"

definition digits_val :: "string \<Rightarrow> nat" where
  "digits_val s = foldl (\<lambda>v c. 10 * v + digit_val c) 0 s"

text \<open>
  \<open>str::parse\<close> for an unsigned type with values below \<open>bound\<close>: one optional plus sign, then one
  or more digits whose value fits; everything else is an error (\<open>None\<close>).
\<close>

definition parse_uint :: "nat \<Rightarrow> string \<Rightarrow> nat option" where
  "parse_uint bound s =
     (let ds = (case s of c # cs \<Rightarrow> if c = CHR ''+'' then cs else s | [] \<Rightarrow> []) in
      if ds = [] \<or> \<not> list_all is_digit ds then None
      else if digits_val ds < bound then Some (digits_val ds) else None)"

definition parse_u64 :: "string \<Rightarrow> u64 option" where
  "parse_u64 s = map_option of_nat (parse_uint (2 ^ 64) s)"

definition parse_u128 :: "string \<Rightarrow> u128 option" where
  "parse_u128 s = map_option of_nat (parse_uint (2 ^ 128) s)"

definition string_of_u64 :: "u64 \<Rightarrow> string" where
  "string_of_u64 w = dec_of_nat (unat w)"

definition string_of_u128 :: "u128 \<Rightarrow> string" where
  "string_of_u128 w = dec_of_nat (unat w)"

lemma digits_val_append: "digits_val (s @ [c]) = 10 * digits_val s + digit_val c"
  by (simp add: digits_val_def)

lemma digit_char [simp]:
  "d < 10 \<Longrightarrow> is_digit (char_of (48 + d))" "d < 10 \<Longrightarrow> digit_val (char_of (48 + d)) = d"
  by (simp_all add: is_digit_def digit_val_def of_char_of)

lemma dec_of_nat_not_Nil: "dec_of_nat n \<noteq> []"
  by (subst dec_of_nat.simps) (simp add: Let_def)

lemma dec_of_nat_digits: "list_all is_digit (dec_of_nat n)"
proof (induction n rule: dec_of_nat.induct)
  case (1 n)
  then show ?case by (subst dec_of_nat.simps) (simp add: Let_def)
qed

lemma digits_val_dec_of_nat: "digits_val (dec_of_nat n) = n"
proof (induction n rule: dec_of_nat.induct)
  case (1 n)
  show ?case
  proof (cases "n < 10")
    case True
    then show ?thesis by (subst dec_of_nat.simps) (simp add: digits_val_def)
  next
    case False
    with 1 have "digits_val (dec_of_nat (n div 10)) = n div 10" by simp
    with False show ?thesis
      by (subst dec_of_nat.simps) (simp add: Let_def digits_val_append)
  qed
qed

lemma dec_of_nat_inject: "dec_of_nat m = dec_of_nat n \<longleftrightarrow> m = n"
  by (metis digits_val_dec_of_nat)

lemma dec_of_nat_no_plus: "dec_of_nat n = c # cs \<Longrightarrow> c \<noteq> CHR ''+''"
  using dec_of_nat_digits [of n] by (auto simp: is_digit_def)

lemma parse_dec_of_nat: "n < b \<Longrightarrow> parse_uint b (dec_of_nat n) = Some n"
  using dec_of_nat_no_plus [of n] dec_of_nat_digits [of n] dec_of_nat_not_Nil [of n]
    digits_val_dec_of_nat [of n]
  by (cases "dec_of_nat n") (simp_all add: parse_uint_def)

lemma unat_bound: "unat (w :: 'a::len word) < 2 ^ LENGTH('a)"
  by (rule unsigned_less)

lemma unat_u64_bound: "unat (w :: u64) < 18446744073709551616"
  using unat_bound [of w] by simp

lemma unat_u128_bound: "unat (w :: u128) < 340282366920938463463374607431768211456"
  using unat_bound [of w] by simp

lemma parse_u64_string_of [simp]: "parse_u64 (string_of_u64 w) = Some w"
  by (simp add: unat_u64_bound parse_u64_def string_of_u64_def parse_dec_of_nat)

lemma parse_u128_string_of [simp]: "parse_u128 (string_of_u128 w) = Some w"
  by (simp add: unat_u128_bound parse_u128_def string_of_u128_def parse_dec_of_nat)

section \<open>Sorting and removing duplicates\<close>

text \<open>\<open>sort\<close> followed by \<open>dedup\<close>.\<close>

lemma strict_remdups_adj: "sorted xs \<Longrightarrow> sorted_wrt (<) (remdups_adj xs)" for xs :: "'a::linorder list"
  by (induction xs rule: remdups_adj.induct) (auto simp: less_le)

end
