(* ===== verification/Json.thy ===== *)
theory Json
  imports Prelude
begin

text \<open>
  \<open>serde_json::Value\<close> as the bot reads it. A number is carried as the text its \<open>to_string\<close>
  prints, the only thing the sources ever ask of one. An object is the list of its entries in
  iteration order; \<open>serde_json\<close> keeps one entry per key, which the theorems that need it state
  as \<open>distinct (map fst fields)\<close>.
\<close>

datatype json =
    JNull
  | JBool bool
  | JNumber string
  | JString string
  | JArray "json list"
  | JObject "(string \<times> json) list"

type_synonym jobject = "(string \<times> json) list"

fun as_array :: "json \<Rightarrow> json list option" where
  "as_array (JArray xs) = Some xs"
| "as_array _ = None"

fun as_object :: "json \<Rightarrow> jobject option" where
  "as_object (JObject fs) = Some fs"
| "as_object _ = None"

fun as_str :: "json \<Rightarrow> string option" where
  "as_str (JString s) = Some s"
| "as_str _ = None"

text \<open>\<open>Value::get\<close> with a string index: only objects have members.\<close>

fun json_get :: "json \<Rightarrow> string \<Rightarrow> json option" where
  "json_get (JObject fs) k = map_of fs k"
| "json_get _ k = None"

text \<open>\<open>hop.get("swapInfo").and_then(|s| s.as_object())\<close>, the first thing every reader of a hop does.\<close>

definition swap_info :: "json \<Rightarrow> jobject option" where
  "swap_info hop = Option.bind (json_get hop ''swapInfo'') as_object"

text \<open>\<open>si.get(key).and_then(|v| v.as_str())\<close>.\<close>

definition str_field :: "jobject \<Rightarrow> string \<Rightarrow> string option" where
  "str_field si k = Option.bind (map_of si k) as_str"

lemma as_array_Some [simp]: "as_array j = Some xs \<longleftrightarrow> j = JArray xs"
  by (cases j) auto

lemma as_array_None: "as_array j = None \<longleftrightarrow> (\<nexists>xs. j = JArray xs)"
  by (cases j) auto

lemma as_object_Some [simp]: "as_object j = Some fs \<longleftrightarrow> j = JObject fs"
  by (cases j) auto

lemma as_str_Some [simp]: "as_str j = Some s \<longleftrightarrow> j = JString s"
  by (cases j) auto

lemma json_get_Some: "json_get j k = Some v \<longleftrightarrow> (\<exists>fs. j = JObject fs \<and> map_of fs k = Some v)"
  by (cases j) auto

lemma swap_info_Some: "swap_info hop = Some si \<longleftrightarrow> json_get hop ''swapInfo'' = Some (JObject si)"
  by (auto simp: swap_info_def bind_eq_Some_conv)

lemma swap_info_hop [simp]: "swap_info (JObject [(''swapInfo'', JObject si)]) = Some si"
  by (simp add: swap_info_def)

end
