(* ===== verification/Hash_Map.thy ===== *)
theory Hash_Map
  imports Prelude "HOL-Library.AList"
begin

text \<open>
  \<open>std::collections::HashMap\<close> as the bot uses it. A map is the list of its entries in some
  iteration order, at most one per key; the operations are the standard library's. The
  interface \<open>hash_map\<close> states the laws the client code relies on (what a lookup returns after an
  update, how the size moves); \<open>hm\<close> interprets it on the operations the model calls.
\<close>

type_synonym ('k, 'v) hmap = "('k \<times> 'v) list"

definition hm_wf :: "('k, 'v) hmap \<Rightarrow> bool" where
  "hm_wf m \<longleftrightarrow> distinct (map fst m)"

definition hm_get :: "('k, 'v) hmap \<Rightarrow> 'k \<Rightarrow> 'v option" where
  "hm_get m k = map_of m k"

definition hm_contains :: "('k, 'v) hmap \<Rightarrow> 'k \<Rightarrow> bool" where
  "hm_contains m k \<longleftrightarrow> map_of m k \<noteq> None"

definition hm_insert :: "'k \<Rightarrow> 'v \<Rightarrow> ('k, 'v) hmap \<Rightarrow> ('k, 'v) hmap" where
  "hm_insert k v m = AList.update k v m"

definition hm_remove :: "'k \<Rightarrow> ('k, 'v) hmap \<Rightarrow> ('k, 'v) hmap" where
  "hm_remove k m = AList.delete k m"

text \<open>Writing through \<open>get_mut(k)\<close>, and \<open>entry(k).or_insert(v)\<close>.\<close>

definition hm_modify :: "'k \<Rightarrow> ('v \<Rightarrow> 'v) \<Rightarrow> ('k, 'v) hmap \<Rightarrow> ('k, 'v) hmap" where
  "hm_modify k f m = map (\<lambda>(k', v). (k', if k' = k then f v else v)) m"

definition hm_or_insert :: "'k \<Rightarrow> 'v \<Rightarrow> ('k, 'v) hmap \<Rightarrow> ('k, 'v) hmap" where
  "hm_or_insert k v m = (case hm_get m k of None \<Rightarrow> hm_insert k v m | Some _ \<Rightarrow> m)"

definition hm_len :: "('k, 'v) hmap \<Rightarrow> nat" where
  "hm_len m = length m"

definition hm_values :: "('k, 'v) hmap \<Rightarrow> 'v list" where
  "hm_values m = map snd m"

section \<open>The interface\<close>

locale hash_map =
  fixes wf :: "'m \<Rightarrow> bool"
    and get :: "'m \<Rightarrow> 'k \<Rightarrow> 'v option"
    and ins :: "'k \<Rightarrow> 'v \<Rightarrow> 'm \<Rightarrow> 'm"
    and rem :: "'k \<Rightarrow> 'm \<Rightarrow> 'm"
    and modify :: "'k \<Rightarrow> ('v \<Rightarrow> 'v) \<Rightarrow> 'm \<Rightarrow> 'm"
    and len :: "'m \<Rightarrow> nat"
  assumes get_ins: "get (ins k v m) = (get m)(k \<mapsto> v)"
    and get_rem: "get (rem k m) = (get m)(k := None)"
    and get_modify: "get (modify k f m) = (get m)(k := map_option f (get m k))"
    and wf_ins: "wf m \<Longrightarrow> wf (ins k v m)"
    and wf_rem: "wf m \<Longrightarrow> wf (rem k m)"
    and wf_modify: "wf m \<Longrightarrow> wf (modify k f m)"
    and finite_keys: "finite (dom (get m))"
    and len_card: "wf m \<Longrightarrow> len m = card (dom (get m))"
begin

lemma len_ins: "wf m \<Longrightarrow> len (ins k v m) = (if get m k = None then Suc (len m) else len m)"
  by (auto simp: len_card wf_ins get_ins finite_keys card_insert_if domIff)

lemma len_rem: "wf m \<Longrightarrow> len (rem k m) = (if get m k = None then len m else len m - 1)"
  by (auto simp: len_card wf_rem get_rem finite_keys domIff)

lemma len_modify: "wf m \<Longrightarrow> len (modify k f m) = len m"
proof -
  assume "wf m"
  moreover have "dom (get (modify k f m)) = dom (get m)"
    by (auto simp: get_modify split: if_splits)
  ultimately show ?thesis by (simp add: len_card wf_modify)
qed

lemma wf_fold_ins: "wf m \<Longrightarrow> wf (foldl (\<lambda>m (k, v). if get m k = None then ins k v m else m) m kvs)"
  by (induction kvs arbitrary: m) (auto simp: wf_ins)

text \<open>Filling a map with \<open>or_insert\<close>: the first entry of each key wins, existing keys stay.\<close>

lemma get_fold_or_insert:
  "get (foldl (\<lambda>m (k, v). if get m k = None then ins k v m else m) m kvs) k =
     (case get m k of Some v \<Rightarrow> Some v | None \<Rightarrow> map_of kvs k)"
proof (induction kvs arbitrary: m)
  case (Cons kv kvs)
  obtain a b where kv: "kv = (a, b)" by force
  let ?m = "if get m a = None then ins a b m else m"
  have "get ?m k = (case get m k of Some v \<Rightarrow> Some v | None \<Rightarrow> if k = a then Some b else None)"
    by (auto simp: get_ins split: option.split)
  with Cons.IH [of ?m] kv show ?case
    by (auto split: option.splits)
qed (simp split: option.split)

end

lemma finite_dom_hm_get [simp]: "finite (dom (hm_get m))"
  unfolding hm_get_def by (rule finite_dom_map_of)

interpretation hm: hash_map hm_wf hm_get hm_insert hm_remove hm_modify hm_len
proof
  fix m :: "('k, 'v) hmap" and k :: 'k and v :: 'v and f :: "'v \<Rightarrow> 'v"
  show "hm_get (hm_insert k v m) = (hm_get m)(k \<mapsto> v)"
    by (simp add: hm_get_def [abs_def] hm_insert_def update_conv')
  show "hm_get (hm_remove k m) = (hm_get m)(k := None)"
    by (simp add: hm_get_def [abs_def] hm_remove_def delete_conv')
  show "hm_get (hm_modify k f m) = (hm_get m)(k := map_option f (hm_get m k))"
    by (induction m) (auto simp: hm_get_def [abs_def] hm_modify_def fun_eq_iff)
  show "hm_wf m \<Longrightarrow> hm_wf (hm_insert k v m)"
    by (simp add: hm_wf_def hm_insert_def distinct_update)
  show "hm_wf m \<Longrightarrow> hm_wf (hm_remove k m)"
    by (simp add: hm_wf_def hm_remove_def distinct_delete)
  show "hm_wf m \<Longrightarrow> hm_wf (hm_modify k f m)"
    by (simp add: hm_wf_def hm_modify_def case_prod_unfold comp_def)
  show "finite (dom (hm_get m))" by simp
  show "hm_wf m \<Longrightarrow> hm_len m = card (dom (hm_get m))"
    by (metis distinct_card dom_map_of_conv_image_fst hm_get_def hm_len_def hm_wf_def
        length_map set_map ext)
qed

lemma hm_get_empty [simp, hm_simps]: "hm_get [] k = None"
  by (simp add: hm_get_def)

lemma hm_wf_empty [simp, hm_intros]: "hm_wf []"
  by (simp add: hm_wf_def)

lemma hm_contains_iff [simp, hm_simps]: "hm_contains m k \<longleftrightarrow> hm_get m k \<noteq> None"
  by (simp add: hm_contains_def hm_get_def)

lemma hm_get_or_insert [hm_simps]:
  "hm_get (hm_or_insert k v m) = (case hm_get m k of None \<Rightarrow> (hm_get m)(k \<mapsto> v) | Some _ \<Rightarrow> hm_get m)"
  by (simp add: hm_or_insert_def hm.get_ins split: option.split)

lemma hm_wf_or_insert [hm_intros]: "hm_wf m \<Longrightarrow> hm_wf (hm_or_insert k v m)"
  by (simp add: hm_or_insert_def hm.wf_ins split: option.split)

lemma hm_get_Some_in_set: "hm_get m k = Some v \<Longrightarrow> (k, v) \<in> set m"
  by (simp add: hm_get_def map_of_SomeD)

lemma hm_get_iff_in_set: "hm_wf m \<Longrightarrow> hm_get m k = Some v \<longleftrightarrow> (k, v) \<in> set m"
  by (auto simp: hm_get_def hm_wf_def dest: map_of_SomeD)

lemmas hm_updates [hm_simps] = hm.get_ins hm.get_rem hm.get_modify
lemmas hm_wf_updates [hm_intros] = hm.wf_ins hm.wf_rem hm.wf_modify

end
