(* ===== verification/Metis_Client.thy ===== *)
theory Metis_Client
  imports Json Hash_Map
begin

text \<open>
  \<open>src/metis.rs\<close>: the client of the Metis routing engine. The data types of the quote and
  swap-instruction exchange, the URL and body of each request, the classification of replies and
  \<open>merge_quotes\<close>, which joins the two legs of a round trip into one circular quote.
  The HTTP client (\<open>reqwest\<close>) and \<open>serde\<close>'s decoding of a body are parameters: a request is
  answered by a send error or by a status, its success flag, the body text and the decoded body.
\<close>

record quote_response =
  input_mint :: string
  in_amount :: string
  output_mint :: string
  out_amount :: string
  other_amount_threshold :: string
  swap_mode :: string
  price_impact_pct :: string
  route_plan :: json
  context_slot :: "u64 option"
  instruction_version :: "string option"
  extra :: jobject

record account_meta_data =
  am_pubkey :: string
  am_is_signer :: bool
  am_is_writable :: bool

record instruction_data =
  ix_program_id :: string
  ix_accounts :: "account_meta_data list"
  ix_data :: string

record swap_instructions_response =
  compute_budget_instructions :: "instruction_data list"
  setup_instructions :: "instruction_data list"
  swap_instruction :: instruction_data
  cleanup_instruction :: "instruction_data option"
  address_lookup_table_addresses :: "string list"

record swap_instructions_request =
  user_public_key :: string
  quote_response_value :: json
  wrap_and_unwrap_sol :: bool
  use_shared_accounts :: bool
  dynamic_compute_unit_limit :: bool
  skip_user_accounts_rpc_calls :: bool
  as_legacy_transaction :: bool

datatype swap_ix_error = Timeout | Http u16 | Network | Parse

datatype http_send_error = Send_timeout | Send_failed

record 'a http_response =
  rsp_status :: u16
  rsp_is_success :: bool
  rsp_text :: string
  rsp_json :: "'a option"

datatype quote_error = Quote_send_failed | Quote_status u16 string | Quote_bad_json

datatype merge_error = Quote1_not_array | Quote2_not_array

record metis_client =
  base_url :: string

section \<open>Requests\<close>

definition trim_end_slashes :: "string \<Rightarrow> string" where
  "trim_end_slashes s = rev (dropWhile (\<lambda>c. c = CHR ''/'') (rev s))"

definition metis_new :: "string \<Rightarrow> metis_client" where
  "metis_new url = \<lparr>base_url = trim_end_slashes url\<rparr>"

definition quote_url :: "metis_client \<Rightarrow> string \<Rightarrow> string \<Rightarrow> u64 \<Rightarrow> bool \<Rightarrow> string" where
  "quote_url c inp outp amount only_direct =
     base_url c @ ''/quote?inputMint='' @ inp @ ''&outputMint='' @ outp
     @ ''&amount='' @ string_of_u64 amount
     @ ''&slippageBps=0'' @ ''&maxAccounts=50'' @ ''&swapMode=ExactIn'' @ ''&forJitoBundle=true''
     @ ''&instructionVersion=V2''
     @ (if only_direct then ''&onlyDirectRoutes=true'' else ''&restrictIntermediateTokens=true'')"

definition get_quote ::
    "(string \<Rightarrow> http_send_error + quote_response http_response) \<Rightarrow> metis_client \<Rightarrow>
     string \<Rightarrow> string \<Rightarrow> u64 \<Rightarrow> bool \<Rightarrow> quote_error + quote_response" where
  "get_quote http c inp outp amount only_direct =
     (case http (quote_url c inp outp amount only_direct) of
        Inl _ \<Rightarrow> Inl Quote_send_failed
      | Inr resp \<Rightarrow>
          if \<not> rsp_is_success resp then Inl (Quote_status (rsp_status resp) (rsp_text resp))
          else (case rsp_json resp of None \<Rightarrow> Inl Quote_bad_json | Some q \<Rightarrow> Inr q))"

section \<open>Merging the two legs\<close>

definition merge_quotes ::
    "quote_response \<Rightarrow> quote_response \<Rightarrow> u64 \<Rightarrow> merge_error + quote_response" where
  "merge_quotes q1 q2 min_acceptable_out =
     (case as_array (route_plan q1) of
        None \<Rightarrow> Inl Quote1_not_array
      | Some plan1 \<Rightarrow>
          (case as_array (route_plan q2) of
             None \<Rightarrow> Inl Quote2_not_array
           | Some plan2 \<Rightarrow>
               Inr \<lparr>input_mint = input_mint q1,
                    in_amount = in_amount q1,
                    output_mint = output_mint q2,
                    out_amount = string_of_u64 min_acceptable_out,
                    other_amount_threshold = string_of_u64 min_acceptable_out,
                    swap_mode = swap_mode q1,
                    price_impact_pct = ''0'',
                    route_plan = JArray (plan1 @ plan2),
                    context_slot = context_slot q2,
                    instruction_version = instruction_version q1,
                    extra = extra q1\<rparr>))"

section \<open>Swap instructions\<close>

text \<open>The derived \<open>Serialize\<close> of a quote: camel-case names, then the flattened extra fields.\<close>

definition json_opt :: "('a \<Rightarrow> json) \<Rightarrow> 'a option \<Rightarrow> json" where
  "json_opt f v = (case v of None \<Rightarrow> JNull | Some x \<Rightarrow> f x)"

definition quote_to_json :: "quote_response \<Rightarrow> json" where
  "quote_to_json q = JObject (foldl (\<lambda>m (k, v). hm_insert k v m)
     [(''inputMint'', JString (input_mint q)), (''inAmount'', JString (in_amount q)),
      (''outputMint'', JString (output_mint q)), (''outAmount'', JString (out_amount q)),
      (''otherAmountThreshold'', JString (other_amount_threshold q)),
      (''swapMode'', JString (swap_mode q)), (''priceImpactPct'', JString (price_impact_pct q)),
      (''routePlan'', route_plan q),
      (''contextSlot'', json_opt (\<lambda>s. JNumber (string_of_u64 s)) (context_slot q)),
      (''instructionVersion'', json_opt JString (instruction_version q))] (extra q))"

definition swap_request :: "string \<Rightarrow> quote_response \<Rightarrow> swap_instructions_request" where
  "swap_request user q =
     \<lparr>user_public_key = user, quote_response_value = quote_to_json q,
      wrap_and_unwrap_sol = False, use_shared_accounts = False,
      dynamic_compute_unit_limit = False, skip_user_accounts_rpc_calls = True,
      as_legacy_transaction = False\<rparr>"

definition get_swap_instructions ::
    "(string \<Rightarrow> swap_instructions_request \<Rightarrow>
       http_send_error + swap_instructions_response http_response) \<Rightarrow>
     metis_client \<Rightarrow> string \<Rightarrow> quote_response \<Rightarrow> swap_ix_error + swap_instructions_response" where
  "get_swap_instructions http c user q =
     (case http (base_url c @ ''/swap-instructions'') (swap_request user q) of
        Inl e \<Rightarrow> Inl (case e of Send_timeout \<Rightarrow> Timeout | Send_failed \<Rightarrow> Network)
      | Inr resp \<Rightarrow>
          if \<not> rsp_is_success resp then Inl (Http (rsp_status resp))
          else (case rsp_json resp of None \<Rightarrow> Inl Parse | Some s \<Rightarrow> Inr s))"

section \<open>Lemmas\<close>

lemma merge_quotes_Inr:
  "merge_quotes q1 q2 floor_out = Inr m \<longleftrightarrow>
     (\<exists>p1 p2. route_plan q1 = JArray p1 \<and> route_plan q2 = JArray p2 \<and>
        m = q1\<lparr>output_mint := output_mint q2, out_amount := string_of_u64 floor_out,
              other_amount_threshold := string_of_u64 floor_out, price_impact_pct := ''0'',
              route_plan := JArray (p1 @ p2), context_slot := context_slot q2\<rparr>)"
  by (auto simp: merge_quotes_def split: option.splits)

text \<open>
  Merging two legs succeeds exactly when both route plans are arrays; the circular
  quote starts where leg 1 starts, ends where leg 2 ends, passes the hops of leg 1 and then those
  of leg 2, and carries the requested floor as both the quoted output and the threshold, readable
  back as the same number. Otherwise the error names the first leg that is malformed.
\<close>

theorem merge_quotes_circular:
  "(case merge_quotes q1 q2 floor_out of
      Inr m \<Rightarrow> \<exists>p1 p2. route_plan q1 = JArray p1 \<and> route_plan q2 = JArray p2 \<and>
        route_plan m = JArray (p1 @ p2) \<and>
        input_mint m = input_mint q1 \<and> in_amount m = in_amount q1 \<and>
        output_mint m = output_mint q2 \<and> context_slot m = context_slot q2 \<and>
        parse_u64 (out_amount m) = Some floor_out \<and>
        other_amount_threshold m = out_amount m
    | Inl Quote1_not_array \<Rightarrow> as_array (route_plan q1) = None
    | Inl Quote2_not_array \<Rightarrow> as_array (route_plan q1) \<noteq> None \<and> as_array (route_plan q2) = None)"
  by (auto simp: merge_quotes_def split: option.splits)

end
