(* ===== verification/Program_Registry.thy ===== *)
theory Program_Registry
  imports Prelude
begin

text \<open>
  \<open>src/program_registry.rs\<close>: the table of DEX programs the simulator loads, the proprietary
  market makers among them, and the two (currently empty) ban lists the route filter consults.
\<close>

definition PROGRAMS :: "(string \<times> string) list" where
  "PROGRAMS =
    [(''JUP6LkbZbjS1jKKwapdHNy74zcZ3tLUZoi5QNyVTaV4'', ''Jupiter_Aggregator_v6.so''),
     (''cpamdpZCGKUy5JxQXB4dcpGPiikHawvSWAd6mEn1sGG'', ''Meteora_DAMM_v2.so''),
     (''CAMMCzo5YL8w4VFF8KVHrK22GGUsp5VTaW7grrKgrWqK'', ''Raydium_Concentrated_Liquidity.so''),
     (''MNFSTqtC93rEfYHB6hF82sKdZpUDFWkViLByLd1k1Ms'', ''Manifest.so''),
     (''whirLbMiicVdio4qvUfM5KAg6Ct8VwpYzGff3uctyCc'', ''Whirlpools_Program.so''),
     (''BSwp6bEBihVLdqJRKGgzjcGLHkcTuzmSo1TQkHepzH8p'', ''BonkSwap.so''),
     (''fUSioN9YKKSa3CUC2YUc4tPkHJ5Y6XW1yz8y6F7qWz9'', ''Fusion_AMM.so''),
     (''LBUZKhRxPF3XUpBCjp4YzTKgLccjZhTSDM9YuVaPwxo'', ''Meteora_DLMM_Program.so''),
     (''DEXYosS6oEGvk8uCDayvwEZz4qEyDJRf9nFgYCaqPMTm'', ''1Dex_Program.so''),
     (''MERLuDFBMmsHnsBPZw2sDQZHvXFMwp8EdjudcU2HKky'', ''Mercurial_Stable_Swap.so''),
     (''CPMMoo8L3F4NbTegBCKVNunggL7H1ZpdTHKxQB5qKP1C'', ''Raydium_CPMM.so''),
     (''9W959DqEETiGZocYWCQPaJ6sBmUzgfxXfqGeTEdp3aQP'', ''Meteora_Pools_Program.so''),
     (''24Uqj9JCLxUeoC3hGfh5W3s9FM9uCHDS2SG3LYwBpyTi'', ''Invariant_Swap.so''),
     (''Eo7WjKq67rjJQSZxS6z3YkapzY3eMj6Xy8X5EQVn5UaB'', ''PancakeSwap.so''),
     (''HyaB3W9q6XdA5xwpU4XnSZV94htfmbmqJXZcEbRaJutt'', ''Meteora_Vault_Program.so''),
     (''ALPHAQmeA7bjrVuccPsYPiCvsi428SNwte66Srvs4pHA'', ''AlphaQ.so''),
     (''AQU1FRd7papthgdrwPTTq5JacJh8YtwEXaBfKU3bTz45'', ''Aquifer.so''),
     (''HpNfyc2Saw7RKkQd8nEL4khUcuPhQ7WwY1B2qjx8jxFq'', ''Byreal_CLMM.so''),
     (''REALQqNEomY6cQGZJUGwywTBD2UmDT32rZcNnfxQ5N2'', ''REALQq.so''),
     (''TessVdML9pBGgG9yGks7o4HewRaXVAMuoVj4x83GLQH'', ''Tessera_V.so''),
     (''SoLFiHG9TfgtdUXUjWAxi3LtvYuFyDLVhBWxdMZxyCe'', ''SolFi.so''),
     (''SV2EYYJyRz2YhfXwXnhNAevDEui5Q6yrfyo13WtupPF'', ''SolFi_V2.so''),
     (''ZERor4xhbUycZ6gb9ntrhqscUcZmAbQDjEAtCf4hbZY'', ''ZeroFi.so''),
     (''goonuddtQRrWqqn5nFyczVKaie28f3kDkHWkHtURSLE'', ''goofni_v2.so'')]"

definition PMM_PROGRAM_IDS :: "string list" where
  "PMM_PROGRAM_IDS =
    [''TessVdML9pBGgG9yGks7o4HewRaXVAMuoVj4x83GLQH'',
     ''SoLFiHG9TfgtdUXUjWAxi3LtvYuFyDLVhBWxdMZxyCe'',
     ''SV2EYYJyRz2YhfXwXnhNAevDEui5Q6yrfyo13WtupPF'',
     ''ZERor4xhbUycZ6gb9ntrhqscUcZmAbQDjEAtCf4hbZY'']"

definition FORBIDDEN_DEX_PROGRAM_IDS :: "string list" where
  "FORBIDDEN_DEX_PROGRAM_IDS = []"

definition FORBIDDEN_DEX_LABELS :: "string list" where
  "FORBIDDEN_DEX_LABELS = []"

definition all_program_ids :: "string list" where
  "all_program_ids = map fst PROGRAMS"

text \<open>The table lists no program twice, and every market maker is a registered program.\<close>

lemma distinct_all_program_ids: "distinct all_program_ids"
  by code_simp

lemma pmm_registered: "set PMM_PROGRAM_IDS \<subseteq> set all_program_ids"
  by code_simp

end
