(* ===== verification/Routes.thy ===== *)
theory Routes
  imports Metis_Client Program_Registry
begin

text \<open>
  The route helpers of \<open>src/arbitrage.rs\<close>: the ban filter, the market-maker test, the same-pool
  guard and the compute-unit table. Each is a scan of the hops of a route plan, a JSON array of
  objects with a \<open>swapInfo\<close> member.
\<close>

section \<open>Filters on a route plan\<close>

text \<open>
  \<open>to_ascii_lowercase\<close>, \<open>eq_ignore_ascii_case\<close> and \<open>str::contains\<close>; only the bytes \<open>A\<close> to \<open>Z\<close>
  change.
\<close>

definition ascii_lower :: "char \<Rightarrow> char" where
  "ascii_lower c =
     (let n = (of_char c :: nat) in if 65 \<le> n \<and> n \<le> 90 then char_of (n + 32) else c)"

definition to_ascii_lowercase :: "string \<Rightarrow> string" where
  "to_ascii_lowercase s = map ascii_lower s"

definition eq_ignore_ascii_case :: "string \<Rightarrow> string \<Rightarrow> bool" where
  "eq_ignore_ascii_case s t \<longleftrightarrow> to_ascii_lowercase s = to_ascii_lowercase t"

definition str_contains :: "string \<Rightarrow> string \<Rightarrow> bool" where
  "str_contains hay needle \<longleftrightarrow> sublist needle hay"

definition label_banned :: "string list \<Rightarrow> string \<Rightarrow> bool" where
  "label_banned labels label \<longleftrightarrow>
     list_ex (\<lambda>banned. eq_ignore_ascii_case label banned \<or>
       str_contains (to_ascii_lowercase label) (to_ascii_lowercase banned)) labels"

definition mentions_program :: "string list \<Rightarrow> jobject \<Rightarrow> bool" where
  "mentions_program ids obj \<longleftrightarrow>
     list_ex (\<lambda>v. case as_str v of None \<Rightarrow> False | Some s \<Rightarrow> list_ex (\<lambda>p. p = s) ids) (map snd obj)"

text \<open>One hop of the loop; \<open>continue\<close> is \<open>False\<close>. The member read by \<open>get\<close> may be any value.\<close>

definition hop_forbidden :: "string list \<Rightarrow> string list \<Rightarrow> json \<Rightarrow> bool" where
  "hop_forbidden labels ids hop =
     (case json_get hop ''swapInfo'' of
        None \<Rightarrow> False
      | Some swap_inf \<Rightarrow>
          (case Option.bind (json_get swap_inf ''label'') as_str of
             Some label \<Rightarrow> label_banned labels label | None \<Rightarrow> False) \<or>
          (case as_object swap_inf of
             Some obj \<Rightarrow> mentions_program ids obj | None \<Rightarrow> False))"

definition route_uses_forbidden_dex :: "quote_response \<Rightarrow> bool" where
  "route_uses_forbidden_dex quote =
     (case as_array (route_plan quote) of
        None \<Rightarrow> False
      | Some arr \<Rightarrow> list_ex (hop_forbidden FORBIDDEN_DEX_LABELS FORBIDDEN_DEX_PROGRAM_IDS) arr)"

definition route_uses_pmm :: "quote_response \<Rightarrow> bool" where
  "route_uses_pmm quote =
     (case as_array (route_plan quote) of
        None \<Rightarrow> False
      | Some arr \<Rightarrow>
          list_ex (\<lambda>hop. case swap_info hop of
            None \<Rightarrow> False | Some si \<Rightarrow> mentions_program PMM_PROGRAM_IDS si) arr)"

definition hop_amm_key :: "json \<Rightarrow> string option" where
  "hop_amm_key hop =
     Option.bind (json_get hop ''swapInfo'') (\<lambda>si. Option.bind (json_get si ''ammKey'') as_str)"

definition routes_share_pool :: "quote_response \<Rightarrow> quote_response \<Rightarrow> bool" where
  "routes_share_pool q1 q2 =
     (let keys1 = (case as_array (route_plan q1) of
                     Some hops \<Rightarrow> List.map_filter hop_amm_key hops | None \<Rightarrow> []) in
      if keys1 = [] then False
      else (case as_array (route_plan q2) of
              None \<Rightarrow> False
            | Some arr2 \<Rightarrow>
                list_ex (\<lambda>hop. case hop_amm_key hop of
                  Some key \<Rightarrow> List.member keys1 key | None \<Rightarrow> False) arr2))"

text \<open>\<open>hop_count\<close> of a leg: the length of its plan, 1 when the plan is not an array.\<close>

definition plan_hops :: "quote_response \<Rightarrow> nat" where
  "plan_hops q = (case as_array (route_plan q) of Some a \<Rightarrow> length a | None \<Rightarrow> 1)"

section \<open>Compute-unit limits\<close>

definition lookup_cu_limit :: "nat \<Rightarrow> u32 list \<Rightarrow> u32" where
  "lookup_cu_limit hop_count cu_limits =
     (if cu_limits = [] then 200000
      else cu_limits ! min (hop_count - 2) (length cu_limits - 1))"

section \<open>What the filters decide\<close>

text \<open>The pools a route visits, in order: the specification of the same-pool guard.\<close>

definition route_pools :: "quote_response \<Rightarrow> string list" where
  "route_pools q = (case as_array (route_plan q) of
     Some hops \<Rightarrow> List.map_filter hop_amm_key hops | None \<Rightarrow> [])"

lemma set_map_filter_iff: "x \<in> set (List.map_filter f xs) \<longleftrightarrow> (\<exists>y \<in> set xs. f y = Some x)"
  by (force simp: List.map_filter_def)

lemma routes_share_pool_pools:
  "routes_share_pool q1 q2 \<longleftrightarrow> set (route_pools q1) \<inter> set (route_pools q2) \<noteq> {}"
proof -
  have *: "(\<exists>hop \<in> set arr. case hop_amm_key hop of Some key \<Rightarrow> List.member K key | None \<Rightarrow> False) \<longleftrightarrow>
      set K \<inter> set (List.map_filter hop_amm_key arr) \<noteq> {}" (is "?L \<longleftrightarrow> ?R") for K arr
  proof
    assume ?L
    then obtain hop key where "hop \<in> set arr" "hop_amm_key hop = Some key" "key \<in> set K"
      by (auto split: option.splits)
    then show ?R unfolding set_map_filter_iff disjoint_iff by auto
  next
    assume ?R
    then obtain key hop where "key \<in> set K" "hop \<in> set arr" "hop_amm_key hop = Some key"
      by (auto simp: set_map_filter_iff)
    then show ?L by (intro bexI [of _ hop]) simp_all
  qed
  show ?thesis
    by (cases "as_array (route_plan q1)"; cases "as_array (route_plan q2)")
      (simp_all add: routes_share_pool_def route_pools_def Let_def list_ex_iff *)
qed

lemma in_route_pools:
  "key \<in> set (route_pools q) \<longleftrightarrow>
     (\<exists>p h. route_plan q = JArray p \<and> h \<in> set p \<and> hop_amm_key h = Some key)"
  by (cases "route_plan q") (auto simp: route_pools_def set_map_filter_iff)

text \<open>
  The same-pool guard fires exactly when some pool occurs in both legs; so it is
  symmetric in its legs, and a leg without any readable pool never triggers it.
\<close>

theorem routes_share_pool_iff:
  "routes_share_pool q1 q2 \<longleftrightarrow>
     (\<exists>p1 p2 h1 h2 key. route_plan q1 = JArray p1 \<and> route_plan q2 = JArray p2 \<and>
        h1 \<in> set p1 \<and> h2 \<in> set p2 \<and> hop_amm_key h1 = Some key \<and> hop_amm_key h2 = Some key)"
  unfolding routes_share_pool_pools disjoint_iff in_route_pools by blast

lemma route_uses_forbidden_dex_never: "\<not> route_uses_forbidden_dex q"
  by (auto simp: route_uses_forbidden_dex_def list_ex_iff hop_forbidden_def label_banned_def
      mentions_program_def FORBIDDEN_DEX_LABELS_def FORBIDDEN_DEX_PROGRAM_IDS_def
      split: option.splits)

lemma lookup_cu_limit_in: "cu_limits \<noteq> [] \<Longrightarrow> lookup_cu_limit n cu_limits \<in> set cu_limits"
  by (simp add: lookup_cu_limit_def min_less_iff_disj)

text \<open>
  The compute-unit limit of a route of at least two hops: the entry for its hop
  count, the last entry when the table is shorter, and 200000 for an empty table. The index never
  leaves the table.
\<close>

theorem lookup_cu_limit_cases:
  "lookup_cu_limit n [] = 200000 \<and>
   lookup_cu_limit (k + 2) (xs @ [l]) = (if k < length xs then xs ! k else l) \<and>
   lookup_cu_limit 0 (l # xs) = l \<and> lookup_cu_limit 1 (l # xs) = l"
  by (auto simp: lookup_cu_limit_def nth_append)

end
