(* ===== verification/Hop_Keys.thy ===== *)
theory Hop_Keys
  imports Routes
begin

text \<open>
  The identity of a hop in \<open>src/template_cache.rs\<close>: the DEX family read off its label, the trade
  direction, and \<open>HopKey\<close>, the amount-independent key under which a hop's template is stored.
  \<open>str::to_lowercase\<close> is modelled on ASCII text, where it agrees with \<open>to_ascii_lowercase\<close>: labels
  and order sides are ASCII.
\<close>

datatype dex_kind =
    Whirlpool | WhirlpoolSwapV2 | RaydiumClmm | RaydiumV2 | MeteoraDlmm | MeteoraPools
  | AlphaQ | Aquifer | AldrinV2 | OtherDex

definition from_label :: "string \<Rightarrow> dex_kind" where
  "from_label label =
     (let l = to_ascii_lowercase label in
      if str_contains l ''whirlpool'' then
        (if str_contains l ''v2'' \<or> str_contains l ''swap_v2'' \<or> str_contains l ''swapv2''
         then WhirlpoolSwapV2 else Whirlpool)
      else if str_contains l ''raydium'' \<and> str_contains l ''clmm'' then RaydiumClmm
      else if str_contains l ''raydium'' then RaydiumV2
      else if str_contains l ''meteora'' \<and> str_contains l ''dlmm'' then MeteoraDlmm
      else if str_contains l ''meteora'' then MeteoraPools
      else if str_contains l ''alphaq'' \<or> str_contains l ''alpha_q'' then AlphaQ
      else if str_contains l ''aquifer'' then Aquifer
      else if str_contains l ''aldrin'' then AldrinV2
      else OtherDex)"

fun file_stem :: "dex_kind \<Rightarrow> string" where
  "file_stem Whirlpool = ''whirlpool''"
| "file_stem WhirlpoolSwapV2 = ''whirlpool_swap_v2''"
| "file_stem RaydiumClmm = ''raydium_clmm''"
| "file_stem RaydiumV2 = ''raydium_v2''"
| "file_stem MeteoraDlmm = ''meteora_dlmm''"
| "file_stem MeteoraPools = ''meteora_pools''"
| "file_stem AlphaQ = ''alphaq''"
| "file_stem Aquifer = ''aquifer''"
| "file_stem AldrinV2 = ''aldrin_v2''"
| "file_stem OtherDex = ''other''"

datatype direction_params = DirNone | AToB bool | SideBid | SideAsk

text \<open>The loop over the spellings of the flag: the first one holding a boolean decides.\<close>

fun first_bool_field :: "jobject \<Rightarrow> string list \<Rightarrow> direction_params" where
  "first_bool_field si [] = DirNone"
| "first_bool_field si (f # fs) =
     (case map_of si f of Some (JBool b) \<Rightarrow> AToB b | _ \<Rightarrow> first_bool_field si fs)"

definition side_direction :: "string \<Rightarrow> direction_params" where
  "side_direction s =
     (let l = to_ascii_lowercase s in
      if l = ''bid'' then SideBid else if l = ''ask'' then SideAsk else DirNone)"

definition extract_direction :: "dex_kind \<Rightarrow> jobject \<Rightarrow> direction_params" where
  "extract_direction dex si =
     (if dex \<in> {Whirlpool, WhirlpoolSwapV2, AlphaQ}
      then first_bool_field si [''a_to_b'', ''aToB'', ''atob'', ''a2b'']
      else if dex = AldrinV2
      then (case map_of si ''side'' of Some (JString s) \<Rightarrow> side_direction s | _ \<Rightarrow> DirNone)
      else DirNone)"

record hop_key =
  hk_dex :: dex_kind
  hk_pool :: string
  hk_input_mint :: string
  hk_output_mint :: string
  hk_direction :: direction_params
  hk_remaining_hash :: u64

record hop_template =
  ht_dex :: dex_kind
  ht_pool :: string
  ht_input_mint :: string
  ht_output_mint :: string
  ht_direction :: direction_params
  ht_remaining_hash :: u64
  ht_seen_count :: u64
  ht_first_seen_slot :: "u64 option"
  ht_last_seen_slot :: "u64 option"

definition from_swap_info :: "jobject \<Rightarrow> hop_key option" where
  "from_swap_info si =
     (case str_field si ''ammKey'' of None \<Rightarrow> None | Some pool \<Rightarrow>
      (case str_field si ''inputMint'' of None \<Rightarrow> None | Some inp \<Rightarrow>
      (case str_field si ''outputMint'' of None \<Rightarrow> None | Some outp \<Rightarrow>
        (let label = (case str_field si ''label'' of Some l \<Rightarrow> l | None \<Rightarrow> '''');
             dex = from_label label in
         Some \<lparr>hk_dex = dex, hk_pool = pool, hk_input_mint = inp, hk_output_mint = outp,
               hk_direction = extract_direction dex si, hk_remaining_hash = 0\<rparr>))))"

fun direction_text :: "direction_params \<Rightarrow> string" where
  "direction_text DirNone = ''none''"
| "direction_text (AToB b) = ''a2b:'' @ (if b then ''true'' else ''false'')"
| "direction_text SideBid = ''bid''"
| "direction_text SideAsk = ''ask''"

definition template_id :: "hop_key \<Rightarrow> string" where
  "template_id k =
     hk_pool k @ '':'' @ hk_input_mint k @ '':'' @ hk_output_mint k @ '':''
     @ direction_text (hk_direction k) @ '':'' @ string_of_u64 (hk_remaining_hash k)"

text \<open>The key of one hop of a plan: \<open>hop.get("swapInfo")?.as_object()?\<close>, then \<open>from_swap_info\<close>.\<close>

definition hop_key_of :: "json \<Rightarrow> hop_key option" where
  "hop_key_of hop = Option.bind (swap_info hop) from_swap_info"

definition template_key :: "hop_template \<Rightarrow> hop_key" where
  "template_key t =
     \<lparr>hk_dex = ht_dex t, hk_pool = ht_pool t, hk_input_mint = ht_input_mint t,
      hk_output_mint = ht_output_mint t, hk_direction = ht_direction t,
      hk_remaining_hash = ht_remaining_hash t\<rparr>"

section \<open>Lemmas\<close>

lemma file_stem_inject: "file_stem a = file_stem b \<longleftrightarrow> a = b"
  by (cases a; cases b) simp_all

lemma split_at_colon:
  assumes "xs @ CHR '':'' # r = ys @ CHR '':'' # s" "CHR '':'' \<notin> set xs" "CHR '':'' \<notin> set ys"
  shows "xs = ys \<and> r = s"
  using assms
proof (induction xs arbitrary: ys)
  case Nil
  then show ?case by (cases ys) auto
next
  case (Cons x xs)
  then show ?case by (cases ys) auto
qed

lemma direction_text_inject:
  assumes "direction_text d @ CHR '':'' # dec_of_nat m = direction_text d' @ CHR '':'' # dec_of_nat n"
  shows "d = d' \<and> m = n"
proof (cases d)
  case (AToB b)
  with assms show ?thesis
    by (cases d') (auto simp: dec_of_nat_inject split: if_splits)
qed (use assms in \<open>cases d'; auto simp: dec_of_nat_inject split: if_splits\<close>)+

definition colon_free :: "hop_key \<Rightarrow> bool" where
  "colon_free k \<longleftrightarrow> CHR '':'' \<notin> set (hk_pool k) \<union> set (hk_input_mint k) \<union> set (hk_output_mint k)"

lemma template_id_eq_iff:
  assumes "colon_free k" "colon_free k'" "hk_dex k = hk_dex k'"
  shows "template_id k = template_id k' \<longleftrightarrow> k = k'"
proof
  assume ids: "template_id k = template_id k'"
  have id: "template_id x = hk_pool x @ CHR '':'' # hk_input_mint x @ CHR '':'' # hk_output_mint x
      @ CHR '':'' # direction_text (hk_direction x) @ CHR '':'' # dec_of_nat (unat (hk_remaining_hash x))"
    for x by (simp add: template_id_def string_of_u64_def)
  have 1: "hk_pool k = hk_pool k'" and r1: "hk_input_mint k @ CHR '':'' # hk_output_mint k
      @ CHR '':'' # direction_text (hk_direction k) @ CHR '':'' # dec_of_nat (unat (hk_remaining_hash k))
     = hk_input_mint k' @ CHR '':'' # hk_output_mint k'
      @ CHR '':'' # direction_text (hk_direction k') @ CHR '':'' # dec_of_nat (unat (hk_remaining_hash k'))"
    using split_at_colon [OF ids [unfolded id]] assms(1,2) by (auto simp: colon_free_def)
  have 2: "hk_input_mint k = hk_input_mint k'" and r2: "hk_output_mint k
      @ CHR '':'' # direction_text (hk_direction k) @ CHR '':'' # dec_of_nat (unat (hk_remaining_hash k))
     = hk_output_mint k'
      @ CHR '':'' # direction_text (hk_direction k') @ CHR '':'' # dec_of_nat (unat (hk_remaining_hash k'))"
    using split_at_colon [OF r1] assms(1,2) by (auto simp: colon_free_def)
  have 3: "hk_output_mint k = hk_output_mint k'"
    and r3: "direction_text (hk_direction k) @ CHR '':'' # dec_of_nat (unat (hk_remaining_hash k))
     = direction_text (hk_direction k') @ CHR '':'' # dec_of_nat (unat (hk_remaining_hash k'))"
    using split_at_colon [OF r2] assms(1,2) by (auto simp: colon_free_def)
  from direction_text_inject [OF r3]
  have "hk_direction k = hk_direction k'" "hk_remaining_hash k = hk_remaining_hash k'"
    by (auto dest: word_unat_eq_iff [THEN iffD2])
  with 1 2 3 assms(3) show "k = k'" by simp
qed simp

text \<open>
  On keys whose addresses contain no colon (base-58 text never does), the template
  id separates any two different keys of the same DEX: a pool, its mints, its direction and its
  account hash can all be read back from the id.
\<close>

theorem template_id_inject:
  assumes "colon_free k" "colon_free k'" "hk_dex k = hk_dex k'"
  shows "template_id k = template_id k' \<longleftrightarrow> k = k'"
  using assms by (rule template_id_eq_iff)

definition sample_key :: "bool \<Rightarrow> hop_key" where
  "sample_key d = \<lparr>hk_dex = Whirlpool, hk_pool = ''p1'', hk_input_mint = ''A'',
     hk_output_mint = ''B'', hk_direction = AToB d, hk_remaining_hash = 0\<rparr>"

theorem template_id_inject_witness:
  "colon_free (sample_key True) \<and> template_id (sample_key True) = ''p1:A:B:a2b:true:0'' \<and>
   template_id (sample_key True) \<noteq> template_id (sample_key False)"
proof -
  have c: "colon_free (sample_key d)" for d by (simp add: colon_free_def sample_key_def)
  have i: "template_id (sample_key True) = ''p1:A:B:a2b:true:0''" by code_simp
  have "sample_key True \<noteq> sample_key False" by (simp add: sample_key_def)
  then have "template_id (sample_key True) \<noteq> template_id (sample_key False)"
    using template_id_inject [OF c c, of True False] by (simp add: sample_key_def)
  with c i show ?thesis by simp
qed

text \<open>A hop that parses yields a key carrying exactly the fields of its \<open>swapInfo\<close>.\<close>

lemma from_swap_info_Some:
  "from_swap_info si = Some k \<longleftrightarrow>
     (\<exists>pool inp outp. str_field si ''ammKey'' = Some pool \<and> str_field si ''inputMint'' = Some inp \<and>
        str_field si ''outputMint'' = Some outp \<and>
        (let dex = from_label (case str_field si ''label'' of Some l \<Rightarrow> l | None \<Rightarrow> '''') in
         k = \<lparr>hk_dex = dex, hk_pool = pool, hk_input_mint = inp, hk_output_mint = outp,
              hk_direction = extract_direction dex si, hk_remaining_hash = 0\<rparr>))"
  by (auto simp: from_swap_info_def Let_def split: option.splits)

end
