(* ===== verification/Route_Sig.thy ===== *)
theory Route_Sig
  imports Hop_Keys "HOL-Library.Multiset"
begin

text \<open>
  \<open>route_sig\<close> of \<open>src/template_cache.rs\<close>: the 128-bit structural hash under which a route template
  is stored, two FNV-1a passes over the \<open>swapInfo\<close> fields of every hop in key order, amounts left
  out. The lemmas say what the hash sees: it equals FNV-1a over one canonical byte string, does
  not depend on amounts or field order, and always changes when one byte of that string does.
\<close>

section \<open>The hash, as the code computes it\<close>

definition string_bytes :: "string \<Rightarrow> bytes" where
  "string_bytes s = map of_char s"

definition fnv_prime :: u64 where
  "fnv_prime = 1099511628211"

definition fnv_byte :: "u64 \<Rightarrow> u8 \<Rightarrow> u64" where
  "fnv_byte h byte = (h XOR ucast byte) * fnv_prime"

definition feed :: "u64 \<Rightarrow> bytes \<Rightarrow> u64" where
  "feed h bs = foldl fnv_byte h bs"

definition is_amount_field :: "string \<Rightarrow> bool" where
  "is_amount_field k \<longleftrightarrow> k = ''inAmount'' \<or> k = ''outAmount'' \<or> k = ''feeAmount''"

definition feed_value :: "u64 \<Rightarrow> json \<Rightarrow> u64" where
  "feed_value h v = (case v of
       JString s \<Rightarrow> feed h (string_bytes s)
     | JBool b \<Rightarrow> feed h (string_bytes (if b then ''T'' else ''F''))
     | JNumber n \<Rightarrow> feed h (string_bytes n)
     | _ \<Rightarrow> h)"

definition feed_field :: "jobject \<Rightarrow> u64 \<Rightarrow> string \<Rightarrow> u64" where
  "feed_field si h k =
     (if is_amount_field k then h
      else
        (let h1 = feed h (string_bytes k);
             h2 = feed h1 (string_bytes ''='');
             h3 = (case map_of si k of Some v \<Rightarrow> feed_value h2 v | None \<Rightarrow> h2)
         in feed h3 (string_bytes '';'')))"

definition feed_hop :: "u64 \<Rightarrow> json \<Rightarrow> u64" where
  "feed_hop h hop =
     (case swap_info hop of
        None \<Rightarrow> h
      | Some si \<Rightarrow> foldl (feed_field si) h (sort (map fst si)))"

definition fnv1a_64 :: "json \<Rightarrow> u64 \<Rightarrow> u64" where
  "fnv1a_64 plan seed =
     (case as_array plan of None \<Rightarrow> seed | Some arr \<Rightarrow> foldl feed_hop seed arr)"

definition route_sig :: "json \<Rightarrow> u128" where
  "route_sig plan =
     (let h1 = fnv1a_64 plan 14695981039346656037;
          h2 = fnv1a_64 plan 5871781006564002453
      in push_bit 64 (ucast h1) OR ucast h2)"

section \<open>The canonical byte string\<close>

definition value_bytes :: "json \<Rightarrow> bytes" where
  "value_bytes v = (case v of
       JString s \<Rightarrow> string_bytes s
     | JBool b \<Rightarrow> string_bytes (if b then ''T'' else ''F'')
     | JNumber n \<Rightarrow> string_bytes n
     | _ \<Rightarrow> [])"

definition field_bytes :: "jobject \<Rightarrow> string \<Rightarrow> bytes" where
  "field_bytes si k =
     (if is_amount_field k then []
      else string_bytes k @ string_bytes ''='' @
        (case map_of si k of Some v \<Rightarrow> value_bytes v | None \<Rightarrow> []) @ string_bytes '';'')"

definition hop_bytes :: "json \<Rightarrow> bytes" where
  "hop_bytes hop =
     (case swap_info hop of
        None \<Rightarrow> []
      | Some si \<Rightarrow> concat (map (field_bytes si) (sort (map fst si))))"

definition plan_bytes :: "json \<Rightarrow> bytes" where
  "plan_bytes plan = (case as_array plan of None \<Rightarrow> [] | Some arr \<Rightarrow> concat (map hop_bytes arr))"

lemma feed_append: "feed h (xs @ ys) = feed (feed h xs) ys"
  by (simp add: feed_def)

lemma feed_Nil [simp]: "feed h [] = h"
  by (simp add: feed_def)

lemma feed_concat: "foldl (\<lambda>h x. feed h (f x)) h xs = feed h (concat (map f xs))"
  by (induction xs arbitrary: h) (simp_all add: feed_append)

lemma feed_value_bytes: "feed_value h v = feed h (value_bytes v)"
  by (simp add: feed_value_def value_bytes_def split: json.split)

lemma feed_field_bytes: "feed_field si h k = feed h (field_bytes si k)"
  by (simp add: feed_field_def field_bytes_def feed_append feed_value_bytes Let_def
      split: option.split)

lemma feed_hop_bytes: "feed_hop h hop = feed h (hop_bytes hop)"
proof -
  have "feed_field si = (\<lambda>h k. feed h (field_bytes si k))" for si
    by (simp add: fun_eq_iff feed_field_bytes)
  then show ?thesis
    by (simp add: feed_hop_def hop_bytes_def feed_concat split: option.split)
qed

lemma fnv1a_64_bytes: "fnv1a_64 plan seed = feed seed (plan_bytes plan)"
proof -
  have "foldl feed_hop h arr = feed h (concat (map hop_bytes arr))" for h arr
    by (induction arr arbitrary: h) (simp_all add: feed_hop_bytes feed_append)
  then show ?thesis
    by (simp add: fnv1a_64_def plan_bytes_def split: option.split)
qed

section \<open>Injectivity of the hash in its state\<close>

lemma fnv_prime_inverse: "fnv_prime * 14886173955864302971 = 1"
  by (simp add: fnv_prime_def)

lemma fnv_byte_inject: "fnv_byte h b = fnv_byte h' b \<longleftrightarrow> h = h'"
proof
  assume "fnv_byte h b = fnv_byte h' b"
  then have "(h XOR ucast b) * (fnv_prime * 14886173955864302971)
      = (h' XOR ucast b) * (fnv_prime * 14886173955864302971)"
    by (simp add: fnv_byte_def mult.assoc [symmetric])
  then have "h XOR ucast b = h' XOR ucast b"
    by (simp add: fnv_prime_inverse)
  then have "(h XOR ucast b) XOR ucast b = (h' XOR ucast b) XOR ucast b" by simp
  then show "h = h'" by (simp add: xor.assoc)
qed simp

lemma feed_inject: "feed h bs = feed h' bs \<longleftrightarrow> h = h'"
  by (induction bs arbitrary: h h') (simp_all add: feed_def fnv_byte_inject)

lemma fnv_byte_distinct: "fnv_byte h b = fnv_byte h c \<longleftrightarrow> b = c"
proof
  assume "fnv_byte h b = fnv_byte h c"
  then have "(h XOR ucast b) * (fnv_prime * 14886173955864302971)
      = (h XOR ucast c) * (fnv_prime * 14886173955864302971)"
    by (simp add: fnv_byte_def mult.assoc [symmetric])
  then have "h XOR ucast b = h XOR ucast c"
    by (simp add: fnv_prime_inverse)
  then have "h XOR (h XOR ucast b) = h XOR (h XOR ucast c)" by simp
  then have "(ucast b :: u64) = ucast c" by (simp add: xor.assoc [symmetric])
  then have "unat (ucast b :: u64) = unat (ucast c :: u64)" by simp
  then show "b = c"
    using unat_bound [of b] unat_bound [of c]
    by (simp add: unsigned_ucast_eq take_bit_nat_eq_self word_unat_eq_iff)
qed simp

section \<open>What the signature depends on\<close>

text \<open>Two hops agree up to amounts: the same remaining entries, in any order.\<close>

definition amountless :: "jobject \<Rightarrow> jobject" where
  "amountless si = filter (\<lambda>(k, v). \<not> is_amount_field k) si"

definition same_hop :: "json \<Rightarrow> json \<Rightarrow> bool" where
  "same_hop hop hop' =
     (case (swap_info hop, swap_info hop') of
        (None, None) \<Rightarrow> True
      | (Some si, Some si') \<Rightarrow> distinct (map fst (amountless si)) \<and>
          mset (amountless si) = mset (amountless si')
      | _ \<Rightarrow> False)"

lemma map_of_amountless: "\<not> is_amount_field k \<Longrightarrow> map_of (amountless si) k = map_of si k"
  by (induction si) (auto simp: amountless_def)

lemma keys_amountless: "map fst (amountless si) = filter (\<lambda>k. \<not> is_amount_field k) (map fst si)"
  by (induction si) (auto simp: amountless_def)

lemma concat_map_filter_Nil:
  "(\<And>x. \<not> P x \<Longrightarrow> f x = []) \<Longrightarrow> concat (map f (filter P xs)) = concat (map f xs)"
  by (induction xs) auto

lemma sort_mset_cong: "mset xs = mset ys \<Longrightarrow> sort xs = sort (ys :: 'a::linorder list)"
  by (metis mset_sort properties_for_sort sorted_sort)

lemma hop_bytes_amountless:
  assumes "swap_info hop = Some si"
  shows "hop_bytes hop = concat (map (field_bytes (amountless si)) (sort (map fst (amountless si))))"
proof -
  let ?P = "\<lambda>k. \<not> is_amount_field k"
  have "concat (map (field_bytes si) (sort (map fst si)))
      = concat (map (field_bytes si) (filter ?P (sort (map fst si))))"
    by (rule concat_map_filter_Nil [symmetric]) (simp add: field_bytes_def)
  also have "filter ?P (sort (map fst si)) = sort (map fst (amountless si))"
    by (simp add: keys_amountless filter_sort)
  also have "map (field_bytes si) (sort (map fst (amountless si)))
      = map (field_bytes (amountless si)) (sort (map fst (amountless si)))"
    by (auto simp: field_bytes_def map_of_amountless keys_amountless)
  finally show ?thesis by (simp add: hop_bytes_def assms)
qed

lemma hop_bytes_cong:
  assumes "same_hop hop hop'"
  shows "hop_bytes hop = hop_bytes hop'"
proof (cases "swap_info hop")
  case None
  with assms show ?thesis by (auto simp: same_hop_def hop_bytes_def split: option.splits)
next
  case (Some si)
  with assms obtain si' where si': "swap_info hop' = Some si'"
    and d: "distinct (map fst (amountless si))"
    and m: "mset (amountless si) = mset (amountless si')"
    by (auto simp: same_hop_def split: option.splits)
  from m have keys: "sort (map fst (amountless si)) = sort (map fst (amountless si'))"
    by (intro sort_mset_cong) (metis mset_map)
  from d m have "distinct (map fst (amountless si'))"
    by (metis mset_eq_imp_distinct_iff mset_map)
  with d m have "map_of (amountless si) = map_of (amountless si')"
    by (metis map_of_inject_set mset_eq_setD)
  then have "field_bytes (amountless si) = field_bytes (amountless si')"
    by (simp add: field_bytes_def fun_eq_iff)
  then show ?thesis
    by (simp add: hop_bytes_amountless [OF Some] hop_bytes_amountless [OF si'] keys)
qed

text \<open>
  Property C28. The route signature is amount-independent and insensitive to the order of
  fields: two plans whose hops agree pairwise outside \<open>inAmount\<close>, \<open>outAmount\<close> and \<open>feeAmount\<close>
  (those may differ or be missing) have the same signature.
\<close>

theorem route_sig_amount_independent:
  assumes "list_all2 same_hop arr arr'"
  shows "route_sig (JArray arr) = route_sig (JArray arr')"
proof -
  have "map hop_bytes arr = map hop_bytes arr'"
    using assms by (induction rule: list_all2_induct) (auto simp: hop_bytes_cong)
  then show ?thesis
    by (simp add: route_sig_def fnv1a_64_bytes plan_bytes_def)
qed

definition sample_hop :: "string \<Rightarrow> json \<Rightarrow> json" where
  "sample_hop amount flag = JObject [(''swapInfo'', JObject
     [(''ammKey'', JString ''pool''), (''inAmount'', JString amount), (''aToB'', flag)])]"

theorem route_sig_amount_independent_witness:
  "route_sig (JArray [sample_hop ''1000'' (JBool True)])
     = route_sig (JArray [JObject [(''percent'', JNumber ''100''), (''swapInfo'', JObject
         [(''aToB'', JBool True), (''ammKey'', JString ''pool''), (''inAmount'', JString ''7'')])]])"
  by (rule route_sig_amount_independent)
    (simp add: same_hop_def sample_hop_def swap_info_def amountless_def is_amount_field_def)

section \<open>What changes the signature\<close>

lemma ucast_pair_inject:
  "push_bit 64 (ucast a :: u128) OR ucast b = push_bit 64 (ucast a') OR ucast b' \<longleftrightarrow>
     a = (a' :: u64) \<and> b = (b' :: u64)"
proof
  assume eq: "push_bit 64 (ucast a :: u128) OR ucast b = push_bit 64 (ucast a') OR ucast b'"
  have lo: "bit b n = bit b' n" if "n < 64" for n
    using arg_cong [OF eq, of "\<lambda>w. bit w n"] that
    by (simp add: bit_or_iff bit_push_bit_iff bit_ucast_iff)
  have hi: "bit a n = bit a' n" if "n < 64" for n
    using arg_cong [OF eq, of "\<lambda>w. bit w (n + 64)"] that
      bit_imp_le_length [of b "n + 64"] bit_imp_le_length [of b' "n + 64"]
    by (auto simp: bit_or_iff bit_push_bit_iff bit_ucast_iff)
  from lo hi show "a = a' \<and> b = b'"
    by (auto intro!: bit_word_eqI)
qed simp

lemma route_sig_byte_change:
  assumes "plan_bytes p = xs @ b # ys" "plan_bytes p' = xs @ c # ys" "b \<noteq> c"
  shows "route_sig p \<noteq> route_sig p'"
proof -
  have "feed seed (xs @ b # ys) \<noteq> feed seed (xs @ c # ys)" for seed
  proof -
    have "feed seed (xs @ x # ys) = feed (fnv_byte (feed seed xs) x) ys" for x
      by (simp add: feed_def)
    with assms(3) show ?thesis by (simp add: feed_inject fnv_byte_distinct)
  qed
  then show ?thesis
    by (simp add: route_sig_def fnv1a_64_bytes assms(1,2) Let_def ucast_pair_inject)
qed

text \<open>Changing one non-amount field of a hop splits its bytes around that field's value.\<close>

lemma hop_bytes_update:
  assumes "distinct (map fst si)" "k \<in> fst ` set si" "\<not> is_amount_field k"
  obtains xs ys where
    "\<And>hop v. swap_info hop = Some (AList.update k v si) \<Longrightarrow> hop_bytes hop = xs @ value_bytes v @ ys"
proof -
  let ?ks = "sort (map fst si)"
  from assms(2) have "k \<in> set ?ks" by auto
  then obtain ks1 ks2 where ks: "?ks = ks1 @ k # ks2" by (rule split_list [THEN exE]) blast
  from assms(1) have "distinct ?ks" by simp
  with ks have k: "k \<notin> set ks1" "k \<notin> set ks2" by auto
  have keys: "map fst (AList.update k v si) = map fst si" for v
    using assms(2) by (simp add: update_keys)
  have same: "field_bytes (AList.update k v si) k' = field_bytes si k'" if "k' \<noteq> k" for k' v
    using that by (simp add: field_bytes_def update_conv')
  have here: "field_bytes (AList.update k v si) k
      = (string_bytes k @ string_bytes ''='') @ value_bytes v @ string_bytes '';''" for v
    using assms(3) by (simp add: field_bytes_def update_conv')
  have maps: "map (field_bytes (AList.update k v si)) ks1 = map (field_bytes si) ks1"
    "map (field_bytes (AList.update k v si)) ks2 = map (field_bytes si) ks2" for v
    using k by (auto intro!: map_cong same)
  show thesis
  proof (rule that)
    fix hop v
    assume "swap_info hop = Some (AList.update k v si)"
    then show "hop_bytes hop = (concat (map (field_bytes si) ks1) @ string_bytes k @ string_bytes ''='')
        @ value_bytes v @ (string_bytes '';'' @ concat (map (field_bytes si) ks2))"
      by (simp add: hop_bytes_def keys ks here maps)
  qed
qed

text \<open>
  The signature always tells two routes apart that differ in one boolean field of
  one hop, such as the direction flag \<open>a_to_b\<close>: flipping it changes the signature, whatever the
  rest of the plan is. (The FNV step is a bijection of its state for each byte, so no collision
  can hide a single-byte difference.)
\<close>

theorem route_sig_sees_flag:
  assumes "distinct (map fst si)" "map_of si k = Some (JBool b)" "\<not> is_amount_field k"
    and "swap_info hop = Some si" "swap_info hop' = Some (AList.update k (JBool (\<not> b)) si)"
  shows "route_sig (JArray (pre @ hop # post)) \<noteq> route_sig (JArray (pre @ hop' # post))"
proof -
  from assms(2) have k: "k \<in> fst ` set si" by (force dest: map_of_SomeD)
  obtain xs ys where bytes: "\<And>hop v. swap_info hop = Some (AList.update k v si) \<Longrightarrow>
      hop_bytes hop = xs @ value_bytes v @ ys"
    using hop_bytes_update [OF assms(1) k assms(3)] by blast
  have "AList.update k (JBool b) si = si"
    using assms(1,2) by (simp add: update_Some_unfold map_of_eq_Some_iff update_triv)
  with assms(4) have "swap_info hop = Some (AList.update k (JBool b) si)" by simp
  note hop_b = bytes [OF this] and hop_b' = bytes [OF assms(5)]
  let ?A = "concat (map hop_bytes pre) @ xs" and ?Z = "ys @ concat (map hop_bytes post)"
  show ?thesis
  proof (rule route_sig_byte_change)
    show "plan_bytes (JArray (pre @ hop # post)) = ?A @ (of_char (if b then CHR ''T'' else CHR ''F'')) # ?Z"
      by (simp add: plan_bytes_def hop_b value_bytes_def string_bytes_def)
    show "plan_bytes (JArray (pre @ hop' # post)) = ?A @ (of_char (if b then CHR ''F'' else CHR ''T'')) # ?Z"
      by (simp add: plan_bytes_def hop_b' value_bytes_def string_bytes_def)
  qed simp
qed

theorem route_sig_sees_flag_witness:
  "route_sig (JArray [sample_hop ''1'' (JBool True), sample_hop ''2'' (JBool True)])
     \<noteq> route_sig (JArray [sample_hop ''1'' (JBool True), sample_hop ''2'' (JBool False)])"
  using route_sig_sees_flag [of "[(''ammKey'', JString ''pool''), (''inAmount'', JString ''2''),
      (''aToB'', JBool True)]" "''aToB''" True "sample_hop ''2'' (JBool True)"
      "sample_hop ''2'' (JBool False)" "[sample_hop ''1'' (JBool True)]" "[]"]
  by (simp add: sample_hop_def is_amount_field_def swap_info_def)

text \<open>
  Contrary to the comment on \<open>route_sig\<close> ("hashes ALL swapInfo fields"), a field
  holding an array, an object or \<open>null\<close> contributes its name only: replacing its value by any
  other of these leaves the signature unchanged.
\<close>

theorem route_sig_ignores_structure:
  assumes "distinct (map fst si)" "k \<in> fst ` set si" "\<not> is_amount_field k"
    and "swap_info hop = Some (AList.update k (JArray xs) si)"
    and "swap_info hop' = Some (AList.update k v si)" "v = JNull \<or> v = JArray ys \<or> v = JObject fs"
  shows "route_sig (JArray (pre @ hop # post)) = route_sig (JArray (pre @ hop' # post))"
proof -
  obtain as bs where bytes: "\<And>hop v. swap_info hop = Some (AList.update k v si) \<Longrightarrow>
      hop_bytes hop = as @ value_bytes v @ bs"
    using hop_bytes_update [OF assms(1-3)] by blast
  have "value_bytes v = value_bytes (JArray xs)"
    using assms(6) by (auto simp: value_bytes_def)
  then have "hop_bytes hop = hop_bytes hop'"
    by (simp add: bytes [OF assms(4)] bytes [OF assms(5)])
  then show ?thesis by (simp add: route_sig_def fnv1a_64_bytes plan_bytes_def)
qed

theorem route_sig_ignores_structure_witness:
  "route_sig (JArray [sample_hop ''1'' (JArray [JString ''x''])])
     = route_sig (JArray [sample_hop ''1'' JNull])"
  using route_sig_ignores_structure [of "[(''ammKey'', JString ''pool''), (''inAmount'', JString ''1''),
      (''aToB'', JNull)]" "''aToB''" "sample_hop ''1'' (JArray [JString ''x''])" "[JString ''x'']"
      "sample_hop ''1'' JNull" JNull "[]" "[]" "[]" "[]"]
  by (simp add: sample_hop_def is_amount_field_def swap_info_def)

end
