(* ===== verification/Byte_Slices.thy ===== *)
theory Byte_Slices
  imports Prelude
begin

text \<open>
  Byte slices: \<open>to_le_bytes\<close> and \<open>from_le_bytes\<close> of the standard library, sub-slices
  \<open>data[a..b]\<close> and \<open>copy_from_slice\<close>, with the laws the patching and parsing code relies on.
  The fixed-width little-endian encodings are one interface, \<open>byte_codec\<close>, interpreted for
  \<open>u64\<close> (amounts) and \<open>u32\<close> (compute-unit limits).
\<close>

fun le_bytes :: "nat \<Rightarrow> nat \<Rightarrow> bytes" where
  "le_bytes 0 v = []"
| "le_bytes (Suc n) v = of_nat (v mod 256) # le_bytes n (v div 256)"

fun le_val :: "bytes \<Rightarrow> nat" where
  "le_val [] = 0"
| "le_val (b # bs) = unat b + 256 * le_val bs"

definition u64_to_le :: "u64 \<Rightarrow> bytes" where
  "u64_to_le w = le_bytes 8 (unat w)"

definition u64_from_le :: "bytes \<Rightarrow> u64" where
  "u64_from_le bs = of_nat (le_val bs)"

definition u32_to_le :: "u32 \<Rightarrow> bytes" where
  "u32_to_le w = le_bytes 4 (unat w)"

definition u32_from_le :: "bytes \<Rightarrow> u32" where
  "u32_from_le bs = of_nat (le_val bs)"

text \<open>\<open>data[a..a + n]\<close> for a range inside the slice, and \<open>data[a..].copy_from_slice(src)\<close>.\<close>

definition slice :: "nat \<Rightarrow> nat \<Rightarrow> 'a list \<Rightarrow> 'a list" where
  "slice a n xs = take n (drop a xs)"

definition copy_slice :: "nat \<Rightarrow> 'a list \<Rightarrow> 'a list \<Rightarrow> 'a list" where
  "copy_slice a src xs = take a xs @ src @ drop (a + length src) xs"

section \<open>Little-endian numbers\<close>

lemma length_le_bytes [simp, byte_simps]: "length (le_bytes n v) = n"
  by (induction n arbitrary: v) auto

lemma le_val_less: "le_val bs < 256 ^ length bs"
proof (induction bs)
  case (Cons b bs)
  have "unat b < 256" using unat_bound [of b] by simp
  with Cons show ?case by simp
qed simp

lemma le_val_le_bytes: "le_val (le_bytes n v) = v mod 256 ^ n"
proof (induction n arbitrary: v)
  case (Suc n)
  have "unat (of_nat (v mod 256) :: u8) = v mod 256"
    by (simp add: unat_of_nat)
  with Suc show ?case by (simp add: mod_mult2_eq)
qed simp

lemma le_bytes_le_val: "le_bytes (length bs) (le_val bs) = bs"
proof (induction bs)
  case (Cons b bs)
  have b: "unat b < 256" using unat_bound [of b] by simp
  then have "(unat b + 256 * le_val bs) mod 256 = unat b" "(unat b + 256 * le_val bs) div 256 = le_val bs"
    by simp_all
  with Cons show ?case by simp
qed simp

lemma le_bytes_inject:
  "x < 256 ^ n \<Longrightarrow> y < 256 ^ n \<Longrightarrow> le_bytes n x = le_bytes n y \<longleftrightarrow> x = y"
  by (metis le_val_le_bytes mod_less)

section \<open>The interface of a fixed-width codec\<close>

locale byte_codec =
  fixes enc :: "'a \<Rightarrow> bytes"
    and dec :: "bytes \<Rightarrow> 'a"
    and width :: nat
  assumes length_enc: "length (enc x) = width"
    and dec_enc: "dec (enc x) = x"
    and enc_dec: "length bs = width \<Longrightarrow> enc (dec bs) = bs"
begin

lemma enc_inject: "enc x = enc y \<longleftrightarrow> x = y"
  by (metis dec_enc)

lemma dec_inject: "length bs = width \<Longrightarrow> length cs = width \<Longrightarrow> dec bs = dec cs \<longleftrightarrow> bs = cs"
  by (metis enc_dec)

lemma window_eq_iff: "length bs = width \<Longrightarrow> bs = enc x \<longleftrightarrow> dec bs = x"
  by (metis dec_enc enc_dec)

end

interpretation le64: byte_codec u64_to_le u64_from_le 8
proof
  fix w :: u64
  show "length (u64_to_le w) = 8" by (simp add: u64_to_le_def)
  show "u64_from_le (u64_to_le w) = w"
    using unat_u64_bound [of w] by (simp add: u64_to_le_def u64_from_le_def le_val_le_bytes)
next
  fix bs :: bytes
  assume l: "length bs = 8"
  have "le_val bs < 2 ^ 64" using le_val_less [of bs] l by simp
  then have "unat (of_nat (le_val bs) :: u64) = le_val bs" by (simp add: unat_of_nat)
  then show "u64_to_le (u64_from_le bs) = bs"
    using le_bytes_le_val [of bs] l by (simp add: u64_to_le_def u64_from_le_def)
qed

interpretation le32: byte_codec u32_to_le u32_from_le 4
proof
  fix w :: u32
  show "length (u32_to_le w) = 4" by (simp add: u32_to_le_def)
  have "unat w < 4294967296" using unat_bound [of w] by simp
  then show "u32_from_le (u32_to_le w) = w"
    by (simp add: u32_to_le_def u32_from_le_def le_val_le_bytes)
next
  fix bs :: bytes
  assume l: "length bs = 4"
  have "le_val bs < 2 ^ 32" using le_val_less [of bs] l by simp
  then have "unat (of_nat (le_val bs) :: u32) = le_val bs" by (simp add: unat_of_nat)
  then show "u32_to_le (u32_from_le bs) = bs"
    using le_bytes_le_val [of bs] l by (simp add: u32_to_le_def u32_from_le_def)
qed

lemmas le_codec_simps [simp, byte_simps] = le64.length_enc le64.dec_enc le32.length_enc le32.dec_enc

section \<open>Slices\<close>

lemma length_slice [byte_simps]: "a + n \<le> length xs \<Longrightarrow> length (slice a n xs) = n"
  by (simp add: slice_def)

lemma nth_slice: "a + n \<le> length xs \<Longrightarrow> i < n \<Longrightarrow> slice a n xs ! i = xs ! (a + i)"
  by (simp add: slice_def)

lemma slice_eq_iff:
  assumes "a + n \<le> length xs" "b + n \<le> length ys"
  shows "slice a n xs = slice b n ys \<longleftrightarrow> (\<forall>i < n. xs ! (a + i) = ys ! (b + i))"
  using assms by (auto simp: list_eq_iff_nth_eq length_slice nth_slice)

lemma length_copy_slice [byte_simps]:
  "a + length src \<le> length xs \<Longrightarrow> length (copy_slice a src xs) = length xs"
  by (simp add: copy_slice_def)

lemma nth_copy_slice:
  assumes "a + length src \<le> length xs" "i < length xs"
  shows "copy_slice a src xs ! i =
    (if a \<le> i \<and> i < a + length src then src ! (i - a) else xs ! i)"
  using assms by (auto simp: copy_slice_def nth_append)

lemma slice_copy_same [byte_simps]:
  "a + length src \<le> length xs \<Longrightarrow> slice a (length src) (copy_slice a src xs) = src"
  by (simp add: slice_def copy_slice_def)

lemma slice_copy_disjoint [byte_simps]:
  assumes "a + length src \<le> length xs" "b + n \<le> length xs" "b + n \<le> a \<or> a + length src \<le> b"
  shows "slice b n (copy_slice a src xs) = slice b n xs"
proof (rule nth_equalityI)
  show "length (slice b n (copy_slice a src xs)) = length (slice b n xs)"
    using assms by (simp add: byte_simps)
next
  fix i assume "i < length (slice b n (copy_slice a src xs))"
  then have "i < n" using assms by (simp add: byte_simps)
  with assms show "slice b n (copy_slice a src xs) ! i = slice b n xs ! i"
    by (auto simp: nth_slice nth_copy_slice byte_simps)
qed

end
