(* ===== verification/Borsh_Patch.thy ===== *)
theory Borsh_Patch
  imports Metis_Client Byte_Slices
begin

text \<open>
  Amount patching in \<open>src/template_cache.rs\<close>: finding the two amounts inside the Borsh data of a
  stored swap instruction (\<open>discover_offsets\<close>), overwriting them (\<open>patch_amounts_b64\<close>) and serving
  a template for a requested amount (\<open>serve_route\<close>). The base-64 engine is third-party code and a
  parameter; the theorems that need it state its documented law, decoding what it encoded.
  Offsets are \<open>usize\<close> values that index a \<open>Vec\<close>, so \<open>in_off + 8\<close> does not wrap.
\<close>

record base64_engine =
  b64_decode :: "string \<Rightarrow> bytes option"
  b64_encode :: "bytes \<Rightarrow> string"

definition b64_lawful :: "base64_engine \<Rightarrow> bool" where
  "b64_lawful B \<longleftrightarrow> (\<forall>d. b64_decode B (b64_encode B d) = Some d)"

record route_template =
  rt_signature :: u128
  rt_swap_ixs :: swap_instructions_response
  rt_template_in_amount :: u64
  rt_template_quoted_out :: u64
  rt_in_offset :: "nat option"
  rt_out_offset :: "nat option"
  rt_amount_variants :: "(u64, swap_instructions_response) hmap"
  rt_seen_count :: u64
  rt_hit_count :: u64

section \<open>Discovering the offsets\<close>

text \<open>
  The shape of both passes: walk the positions, remember the last match and count; a second match
  returns \<open>None\<close> from the whole function at once (outer \<open>None\<close> here).
\<close>

fun scan_unique :: "(nat \<Rightarrow> bool) \<Rightarrow> nat list \<Rightarrow> nat option \<Rightarrow> nat \<Rightarrow> nat option option" where
  "scan_unique P [] found count = Some found"
| "scan_unique P (p # ps) found count =
     (if P p then
        (if count + 1 > 1 then None else scan_unique P ps (Some p) (count + 1))
      else scan_unique P ps found count)"

definition in_at :: "bytes \<Rightarrow> u64 \<Rightarrow> nat \<Rightarrow> bool" where
  "in_at data in_amt p \<longleftrightarrow> slice p 8 data = u64_to_le in_amt"

definition pair_at :: "bytes \<Rightarrow> u64 \<Rightarrow> u64 \<Rightarrow> nat \<Rightarrow> bool" where
  "pair_at data in_amt quoted p \<longleftrightarrow>
     slice p 8 data = u64_to_le in_amt \<and> slice (p + 8) 8 data = u64_to_le quoted"

definition discover_offsets :: "bytes \<Rightarrow> u64 \<Rightarrow> u64 \<Rightarrow> (nat \<times> nat) option" where
  "discover_offsets data in_amt quoted =
     (if length data < 16 then None
      else
        (case scan_unique (pair_at data in_amt quoted) [0..<length data - 16 + 1] None 0 of
           None \<Rightarrow> None
         | Some (Some p) \<Rightarrow> Some (p, p + 8)
         | Some None \<Rightarrow>
             (case scan_unique (in_at data in_amt) [0..<length data - 16 + 1] None 0 of
                None \<Rightarrow> None
              | Some None \<Rightarrow> None
              | Some (Some p) \<Rightarrow> Some (p, p + 8))))"

section \<open>Patching and serving\<close>

definition patch_amounts_b64 ::
    "base64_engine \<Rightarrow> string \<Rightarrow> nat \<Rightarrow> nat \<Rightarrow> u64 \<Rightarrow> u64 \<Rightarrow> string option" where
  "patch_amounts_b64 B data_b64 in_off out_off new_in new_out =
     (case b64_decode B data_b64 of
        None \<Rightarrow> None
      | Some data \<Rightarrow>
          if in_off + 8 > length data \<or> out_off + 8 > length data then None
          else
            (let data1 = copy_slice in_off (u64_to_le new_in) data;
                 data2 = copy_slice out_off (u64_to_le new_out) data1
             in Some (b64_encode B data2)))"

definition serve_route ::
    "base64_engine \<Rightarrow> route_template \<Rightarrow> u64 \<Rightarrow> u64 \<Rightarrow> swap_instructions_response option" where
  "serve_route B tmpl new_in new_out_unused =
     (case hm_get (rt_amount_variants tmpl) new_in of
        Some v \<Rightarrow> Some v
      | None \<Rightarrow>
          (case rt_in_offset tmpl of None \<Rightarrow> None | Some in_off \<Rightarrow>
          (case rt_out_offset tmpl of None \<Rightarrow> None | Some out_off \<Rightarrow>
            (let new_out = new_in + (rt_template_quoted_out tmpl - rt_template_in_amount tmpl) in
             case patch_amounts_b64 B (ix_data (swap_instruction (rt_swap_ixs tmpl)))
                    in_off out_off new_in new_out of
               None \<Rightarrow> None
             | Some new_data \<Rightarrow>
                 Some ((rt_swap_ixs tmpl)\<lparr>swap_instruction :=
                   (swap_instruction (rt_swap_ixs tmpl))\<lparr>ix_data := new_data\<rparr>\<rparr>)))))"

section \<open>What the search finds\<close>

lemma scan_unique_counted:
  "scan_unique P ps (Some q) 1 = (if filter P ps = [] then Some (Some q) else None)"
  by (induction ps) auto

lemma scan_unique_filter:
  "scan_unique P ps None 0 =
     (case filter P ps of [] \<Rightarrow> Some None | [p] \<Rightarrow> Some (Some p) | _ \<Rightarrow> None)"
  by (induction ps) (auto simp: scan_unique_counted [unfolded One_nat_def] split: list.splits)

text \<open>The windows of 16 bytes at which a test succeeds.\<close>

definition windows :: "(nat \<Rightarrow> bool) \<Rightarrow> bytes \<Rightarrow> nat list" where
  "windows P data = filter P [0..<length data - 15]"

lemma discover_offsets_windows:
  "discover_offsets data in_amt quoted =
     map_option (\<lambda>p. (p, p + 8))
      (case windows (pair_at data in_amt quoted) data of
         [p] \<Rightarrow> Some p
       | [] \<Rightarrow> (case windows (in_at data in_amt) data of [p] \<Rightarrow> Some p | _ \<Rightarrow> None)
       | _ \<Rightarrow> None)"
proof (cases "length data < 16")
  case True
  then have "length data - 15 = 0" by simp
  with True show ?thesis by (simp add: discover_offsets_def windows_def)
next
  case False
  then have "length data - 16 + 1 = length data - 15" by simp
  with False show ?thesis
    by (simp add: discover_offsets_def windows_def scan_unique_filter split: list.split)
qed


lemma windows_iff: "p \<in> set (windows P data) \<longleftrightarrow> p + 16 \<le> length data \<and> P p"
  by (auto simp: windows_def)

lemma discover_offsets_Some:
  assumes "discover_offsets data in_amt quoted = Some (i, j)"
  shows "j = i + 8" "i + 16 \<le> length data" "slice i 8 data = u64_to_le in_amt"
proof -
  let ?w = "windows (pair_at data in_amt quoted) data" and ?v = "windows (in_at data in_amt) data"
  from assms have j: "j = i + 8" and "?w = [i] \<or> ?v = [i]"
    by (auto simp: discover_offsets_windows split: list.splits)
  then have "i \<in> set ?w \<or> i \<in> set ?v" by auto
  then have "i + 16 \<le> length data \<and> slice i 8 data = u64_to_le in_amt"
    by (auto simp: windows_iff pair_at_def in_at_def)
  with j show "j = i + 8" "i + 16 \<le> length data" "slice i 8 data = u64_to_le in_amt" by auto
qed

section \<open>What patching writes\<close>

lemma patch_amounts_effect:
  assumes "b64_lawful B" "b64_decode B s = Some d" "i + 16 \<le> length d" "j = i + 8"
  obtains s' d' where
    "patch_amounts_b64 B s i j x y = Some s'" "b64_decode B s' = Some d'" "length d' = length d"
    "slice i 8 d' = u64_to_le x" "slice j 8 d' = u64_to_le y"
    "\<And>k. k < length d \<Longrightarrow> k < i \<or> i + 16 \<le> k \<Longrightarrow> d' ! k = d ! k"
proof
  let ?d1 = "copy_slice i (u64_to_le x) d"
  let ?d2 = "copy_slice j (u64_to_le y) ?d1"
  have l1: "length ?d1 = length d" and l2: "length ?d2 = length d"
    using assms by (simp_all add: byte_simps)
  show "patch_amounts_b64 B s i j x y = Some (b64_encode B ?d2)"
    using assms by (simp add: patch_amounts_b64_def)
  show "b64_decode B (b64_encode B ?d2) = Some ?d2"
    using assms(1) by (simp add: b64_lawful_def)
  show "length ?d2 = length d" by (rule l2)
  have "slice i 8 ?d2 = slice i 8 ?d1"
    using assms by (intro slice_copy_disjoint) (simp_all add: l1)
  also have "\<dots> = u64_to_le x"
    using slice_copy_same [of i "u64_to_le x" d] assms by simp
  finally show "slice i 8 ?d2 = u64_to_le x" .
  show "slice j 8 ?d2 = u64_to_le y"
    using slice_copy_same [of j "u64_to_le y" ?d1] assms by (simp add: l1)
  show "?d2 ! k = d ! k" if "k < length d" "k < i \<or> i + 16 \<le> k" for k
    using that assms by (auto simp: nth_copy_slice l1)
qed

end
