(* ===== verification/Template_Store.thy ===== *)
theory Template_Store
  imports Route_Sig Borsh_Patch
begin

text \<open>
  \<open>TemplateStore\<close> of \<open>src/template_cache.rs\<close>: route templates in two segments (hot and cold),
  the secondary hop-pair index and the table of hop templates. One lock protects all four fields;
  each critical section is one function of the store. \<open>get_route\<close> has two (a read section, then a
  write section) and is their sequence.
\<close>

definition ROUTE_SEG_CAP :: nat where
  "ROUTE_SEG_CAP = 2000"

record store =
  routes_hot :: "(u128, route_template) hmap"
  routes_cold :: "(u128, route_template) hmap"
  hops :: "(hop_key, hop_template) hmap"
  hop_pair_index :: "(string, u128) hmap"

definition store_new :: store where
  "store_new = \<lparr>routes_hot = [], routes_cold = [], hops = [], hop_pair_index = []\<rparr>"

section \<open>Route templates\<close>

definition push_hot_route :: "store \<Rightarrow> u128 \<Rightarrow> route_template \<Rightarrow> store" where
  "push_hot_route g sig tmpl =
     (let g1 = (if hm_len (routes_hot g) \<ge> ROUTE_SEG_CAP
                then g\<lparr>routes_cold := routes_hot g, routes_hot := []\<rparr> else g)
      in g1\<lparr>routes_hot := hm_insert sig tmpl (routes_hot g1)\<rparr>)"

text \<open>The read section: \<open>Some r\<close> returns \<open>r\<close> at once, \<open>None\<close> goes on to the write section.\<close>

definition get_route_read :: "u128 \<Rightarrow> store \<Rightarrow> route_template option option" where
  "get_route_read sig g =
     (case hm_get (routes_hot g) sig of
        Some t \<Rightarrow> Some (Some t)
      | None \<Rightarrow> if \<not> hm_contains (routes_cold g) sig then Some None else None)"

definition bump_hit :: "route_template \<Rightarrow> route_template" where
  "bump_hit t = t\<lparr>rt_hit_count := rt_hit_count t + 1\<rparr>"

definition get_route_write :: "u128 \<Rightarrow> store \<Rightarrow> route_template option \<times> store" where
  "get_route_write sig g =
     (case hm_get (routes_cold g) sig of
        Some t0 \<Rightarrow>
          (let g1 = g\<lparr>routes_cold := hm_remove sig (routes_cold g)\<rparr>;
               t = bump_hit t0
           in (Some t, push_hot_route g1 sig t))
      | None \<Rightarrow> (hm_get (routes_hot g) sig, g))"

definition get_route :: "u128 \<Rightarrow> store \<Rightarrow> route_template option \<times> store" where
  "get_route sig g =
     (case get_route_read sig g of Some r \<Rightarrow> (r, g) | None \<Rightarrow> get_route_write sig g)"

definition record_route_hit :: "u128 \<Rightarrow> store \<Rightarrow> store" where
  "record_route_hit sig g =
     (if hm_contains (routes_hot g) sig
      then g\<lparr>routes_hot := hm_modify sig bump_hit (routes_hot g)\<rparr>
      else if hm_contains (routes_cold g) sig
      then g\<lparr>routes_cold := hm_modify sig bump_hit (routes_cold g)\<rparr>
      else g)"

text \<open>\<open>insert_route\<close>: what it adds to a known route, the template it builds for a new one.\<close>

definition add_variant ::
    "u64 \<Rightarrow> swap_instructions_response \<Rightarrow> route_template \<Rightarrow> route_template" where
  "add_variant in_amt ixs t =
     t\<lparr>rt_seen_count := rt_seen_count t + 1,
       rt_amount_variants := hm_or_insert in_amt ixs (rt_amount_variants t)\<rparr>"

definition fresh_template ::
    "base64_engine \<Rightarrow> u128 \<Rightarrow> swap_instructions_response \<Rightarrow> u64 \<Rightarrow> u64 \<Rightarrow> route_template" where
  "fresh_template B sig ixs in_amt quoted =
     (let offsets = Option.bind (b64_decode B (ix_data (swap_instruction ixs)))
                      (\<lambda>d. discover_offsets d in_amt quoted)
      in \<lparr>rt_signature = sig, rt_swap_ixs = ixs, rt_template_in_amount = in_amt,
          rt_template_quoted_out = quoted, rt_in_offset = map_option fst offsets,
          rt_out_offset = map_option snd offsets, rt_amount_variants = hm_insert in_amt ixs [],
          rt_seen_count = 1, rt_hit_count = 0\<rparr>)"

definition hop_id :: "json \<Rightarrow> string option" where
  "hop_id hop = map_option template_id (hop_key_of hop)"

text \<open>\<open>"{id0}|{id1}"\<close> of a two-hop plan whose hops both parse.\<close>

definition pair_key :: "json \<Rightarrow> string option" where
  "pair_key plan =
     (case as_array plan of
        Some [h0, h1] \<Rightarrow>
          (case (hop_id h0, hop_id h1) of
             (Some id0, Some id1) \<Rightarrow> Some (id0 @ ''|'' @ id1)
           | _ \<Rightarrow> None)
      | _ \<Rightarrow> None)"

definition index_pair :: "json \<Rightarrow> u128 \<Rightarrow> store \<Rightarrow> store" where
  "index_pair plan sig g =
     (case pair_key plan of
        Some pk \<Rightarrow> g\<lparr>hop_pair_index := hm_or_insert pk sig (hop_pair_index g)\<rparr>
      | None \<Rightarrow> g)"

definition insert_route ::
    "base64_engine \<Rightarrow> u128 \<Rightarrow> swap_instructions_response \<Rightarrow> u64 \<Rightarrow> u64 \<Rightarrow> json \<Rightarrow> store \<Rightarrow> store" where
  "insert_route B sig ixs in_amt quoted plan g =
     (if hm_contains (routes_hot g) sig
      then g\<lparr>routes_hot := hm_modify sig (add_variant in_amt ixs) (routes_hot g)\<rparr>
      else if hm_contains (routes_cold g) sig
      then g\<lparr>routes_cold := hm_modify sig (add_variant in_amt ixs) (routes_cold g)\<rparr>
      else index_pair plan sig (push_hot_route g sig (fresh_template B sig ixs in_amt quoted)))"

definition get_route_for_hops :: "json \<Rightarrow> store \<Rightarrow> route_template option \<times> store" where
  "get_route_for_hops plan g =
     (case pair_key plan of
        None \<Rightarrow> (None, g)
      | Some pk \<Rightarrow>
          (case hm_get (hop_pair_index g) pk of
             None \<Rightarrow> (None, g)
           | Some sig \<Rightarrow> get_route sig g))"

section \<open>Hop tracking\<close>

definition check_hops :: "json \<Rightarrow> store \<Rightarrow> bool \<times> nat" where
  "check_hops plan g =
     (let known = (\<lambda>hop. case hop_key_of hop of Some k \<Rightarrow> hm_contains (hops g) k | None \<Rightarrow> False);
          missing = (case as_array plan of
            Some arr \<Rightarrow> foldl (\<lambda>n hop. if \<not> known hop then n + 1 else n) 0 arr | None \<Rightarrow> 0)
      in (missing = 0, missing))"

definition new_hop_template :: "hop_key \<Rightarrow> u64 option \<Rightarrow> hop_template" where
  "new_hop_template k slot =
     \<lparr>ht_dex = hk_dex k, ht_pool = hk_pool k, ht_input_mint = hk_input_mint k,
      ht_output_mint = hk_output_mint k, ht_direction = hk_direction k,
      ht_remaining_hash = hk_remaining_hash k, ht_seen_count = 0,
      ht_first_seen_slot = slot, ht_last_seen_slot = slot\<rparr>"

definition touch_hop :: "u64 option \<Rightarrow> hop_template \<Rightarrow> hop_template" where
  "touch_hop slot t = t\<lparr>ht_seen_count := ht_seen_count t + 1, ht_last_seen_slot := slot\<rparr>"

definition record_hop :: "u64 option \<Rightarrow> (hop_key, hop_template) hmap \<Rightarrow> json \<Rightarrow> (hop_key, hop_template) hmap" where
  "record_hop slot m hop =
     (case hop_key_of hop of
        None \<Rightarrow> m
      | Some key \<Rightarrow> hm_modify key (touch_hop slot) (hm_or_insert key (new_hop_template key slot) m))"

definition record_hops :: "json \<Rightarrow> u64 option \<Rightarrow> store \<Rightarrow> store" where
  "record_hops plan slot g =
     (case as_array plan of
        None \<Rightarrow> g
      | Some arr \<Rightarrow> g\<lparr>hops := foldl (record_hop slot) (hops g) arr\<rparr>)"

section \<open>Statistics\<close>

definition route_count :: "store \<Rightarrow> nat" where
  "route_count g = hm_len (routes_hot g) + hm_len (routes_cold g)"

definition stored_hop_count :: "store \<Rightarrow> nat" where
  "stored_hop_count g = hm_len (hops g)"

definition patchable_route_count :: "store \<Rightarrow> nat" where
  "patchable_route_count g =
     length (filter (\<lambda>t. rt_in_offset t \<noteq> None) (hm_values (routes_hot g) @ hm_values (routes_cold g)))"

end
