(* ===== verification/Store_Invariant.thy ===== *)
theory Store_Invariant
  imports Template_Store
begin

text \<open>
  The invariant of the template store and what its operations keep of the stored routes. The log
  \<open>L\<close> holds every \<open>insert_route\<close> call so far (signature, instruction, amount, quoted output); the
  invariant ties each stored template to it. \<open>store_op\<close> lists the critical sections that write
  the store, so a list of them is any interleaving of concurrent callers.
\<close>

type_synonym insert_log = "(u128 \<times> swap_instructions_response \<times> u64 \<times> u64) set"

definition visible :: "store \<Rightarrow> u128 \<Rightarrow> route_template option" where
  "visible g sig =
     (case hm_get (routes_hot g) sig of Some t \<Rightarrow> Some t | None \<Rightarrow> hm_get (routes_cold g) sig)"

text \<open>A template without the counter that lookups change.\<close>

definition core :: "route_template \<Rightarrow> route_template" where
  "core t = t\<lparr>rt_hit_count := 0\<rparr>"

definition tmpl_ok :: "base64_engine \<Rightarrow> insert_log \<Rightarrow> u128 \<Rightarrow> route_template \<Rightarrow> bool" where
  "tmpl_ok B L sig t \<longleftrightarrow>
     rt_signature t = sig \<and> hm_wf (rt_amount_variants t) \<and>
     (sig, rt_swap_ixs t, rt_template_in_amount t, rt_template_quoted_out t) \<in> L \<and>
     (let f = fresh_template B sig (rt_swap_ixs t) (rt_template_in_amount t) (rt_template_quoted_out t)
      in rt_in_offset t = rt_in_offset f \<and> rt_out_offset t = rt_out_offset f) \<and>
     (\<forall>a x. hm_get (rt_amount_variants t) a = Some x \<longrightarrow> (\<exists>q. (sig, x, a, q) \<in> L))"

definition store_wf :: "store \<Rightarrow> bool" where
  "store_wf g \<longleftrightarrow>
     hm_wf (routes_hot g) \<and> hm_wf (routes_cold g) \<and> hm_wf (hops g) \<and> hm_wf (hop_pair_index g) \<and>
     hm_len (routes_hot g) \<le> ROUTE_SEG_CAP \<and> hm_len (routes_cold g) \<le> ROUTE_SEG_CAP \<and>
     (\<forall>sig. hm_get (routes_hot g) sig = None \<or> hm_get (routes_cold g) sig = None) \<and>
     (\<forall>k t. hm_get (hops g) k = Some t \<longrightarrow> template_key t = k)"

definition store_inv :: "base64_engine \<Rightarrow> insert_log \<Rightarrow> store \<Rightarrow> bool" where
  "store_inv B L g \<longleftrightarrow> store_wf g \<and> (\<forall>sig t. visible g sig = Some t \<longrightarrow> tmpl_ok B L sig t)"

datatype store_op =
    Promote u128
  | Hit u128
  | Insert u128 swap_instructions_response u64 u64 json
  | RecordHops json "u64 option"

fun store_step :: "base64_engine \<Rightarrow> store_op \<Rightarrow> store \<Rightarrow> store" where
  "store_step B (Promote sig) g = snd (get_route_write sig g)"
| "store_step B (Hit sig) g = record_route_hit sig g"
| "store_step B (Insert sig ixs a q plan) g = insert_route B sig ixs a q plan g"
| "store_step B (RecordHops plan slot) g = record_hops plan slot g"

fun log_step :: "store_op \<Rightarrow> insert_log \<Rightarrow> insert_log" where
  "log_step (Insert sig ixs a q plan) L = insert (sig, ixs, a, q) L"
| "log_step _ L = L"

section \<open>Templates\<close>

lemma tmpl_ok_mono: "tmpl_ok B L sig t \<Longrightarrow> L \<subseteq> L' \<Longrightarrow> tmpl_ok B L' sig t"
  unfolding tmpl_ok_def Let_def by blast

lemma tmpl_ok_bump [simp]: "tmpl_ok B L sig (bump_hit t) \<longleftrightarrow> tmpl_ok B L sig t"
  by (simp add: tmpl_ok_def bump_hit_def)

lemma core_bump [simp]: "core (bump_hit t) = core t"
  by (simp add: core_def bump_hit_def)

lemma tmpl_ok_core: "core t = core t' \<Longrightarrow> tmpl_ok B L sig t \<Longrightarrow> tmpl_ok B L sig t'"
  by (cases t; cases t') (simp add: tmpl_ok_def core_def)

lemma tmpl_ok_fresh: "(sig, ixs, a, q) \<in> L \<Longrightarrow> tmpl_ok B L sig (fresh_template B sig ixs a q)"
  by (auto simp: tmpl_ok_def fresh_template_def Let_def hm_simps hm_intros split: if_splits)

lemma tmpl_ok_add_variant:
  "tmpl_ok B L sig t \<Longrightarrow> (sig, ixs, a, q) \<in> L \<Longrightarrow> tmpl_ok B L sig (add_variant a ixs t)"
  by (auto simp: tmpl_ok_def add_variant_def Let_def hm_simps hm_intros
      split: option.splits if_splits)

section \<open>Segments\<close>

lemma visible_hot: "hm_get (routes_hot g) sig = Some t \<Longrightarrow> visible g sig = Some t"
  by (simp add: visible_def)

lemma visible_None:
  "visible g sig = None \<longleftrightarrow> hm_get (routes_hot g) sig = None \<and> hm_get (routes_cold g) sig = None"
  by (simp add: visible_def split: option.split)

lemma visible_new [simp]: "visible store_new sig = None"
  by (simp add: visible_def store_new_def)

lemma visible_push:
  "visible (push_hot_route g sig t) sig' =
     (if sig' = sig then Some t
      else if hm_len (routes_hot g) \<ge> ROUTE_SEG_CAP then hm_get (routes_hot g) sig'
      else visible g sig')"
  by (simp add: visible_def push_hot_route_def Let_def hm_simps split: option.split)

lemma visible_push_Some:
  "visible (push_hot_route g sig t) s = Some u \<Longrightarrow> (s = sig \<and> u = t) \<or> (s \<noteq> sig \<and> visible g s = Some u)"
  by (auto simp: visible_push dest: visible_hot split: if_splits)

lemma visible_modify_hot:
  "hm_contains (routes_hot g) sig \<Longrightarrow>
   visible (g\<lparr>routes_hot := hm_modify sig f (routes_hot g)\<rparr>) s =
     (if s = sig then map_option f (visible g sig) else visible g s)"
  by (auto simp: visible_def hm_simps split: option.split)

lemma visible_modify_cold:
  "\<not> hm_contains (routes_hot g) sig \<Longrightarrow>
   visible (g\<lparr>routes_cold := hm_modify sig f (routes_cold g)\<rparr>) s =
     (if s = sig then map_option f (visible g sig) else visible g s)"
  by (auto simp: visible_def hm_simps split: option.split)

lemma push_other_fields [simp]:
  "hops (push_hot_route g sig t) = hops g"
  "hop_pair_index (push_hot_route g sig t) = hop_pair_index g"
  by (simp_all add: push_hot_route_def Let_def)

lemma store_wf_push:
  assumes "store_wf g" "visible g sig = None"
  shows "store_wf (push_hot_route g sig t)"
proof -
  have "hm_get (routes_hot g) sig = None" "hm_get (routes_cold g) sig = None"
    using assms(2) by (simp_all add: visible_None)
  then show ?thesis
    using assms(1)
    by (simp add: store_wf_def push_hot_route_def Let_def hm_simps hm_intros hm.len_ins
        ROUTE_SEG_CAP_def) (simp add: hm_len_def)
qed

lemma store_wf_modify:
  "store_wf g \<Longrightarrow> store_wf (g\<lparr>routes_hot := hm_modify sig f (routes_hot g)\<rparr>)"
  "store_wf g \<Longrightarrow> store_wf (g\<lparr>routes_cold := hm_modify sig f (routes_cold g)\<rparr>)"
  by (auto simp: store_wf_def hm_simps hm_intros hm.len_modify)

lemma store_wf_take_cold: "store_wf g \<Longrightarrow> store_wf (g\<lparr>routes_cold := hm_remove sig (routes_cold g)\<rparr>)"
  using hm.len_rem [of "routes_cold g" sig]
  by (auto simp: store_wf_def hm_simps hm_intros)

lemma visible_index [simp]: "visible (index_pair plan sig g) = visible g"
  by (simp add: fun_eq_iff visible_def index_pair_def split: option.split)

lemma store_wf_index: "store_wf g \<Longrightarrow> store_wf (index_pair plan sig g)"
  by (auto simp: store_wf_def index_pair_def hm_intros split: option.split)

lemma store_inv_mono: "store_inv B L g \<Longrightarrow> L \<subseteq> L' \<Longrightarrow> store_inv B L' g"
  unfolding store_inv_def by (meson tmpl_ok_mono)

section \<open>What each critical section does to the visible routes\<close>

lemma visible_take_cold:
  assumes "store_wf g" "hm_get (routes_cold g) sig = Some t"
  shows "visible (g\<lparr>routes_cold := hm_remove sig (routes_cold g)\<rparr>) s
      = (if s = sig then None else visible g s)"
proof -
  have "hm_get (routes_hot g) sig = None"
    using assms by (metis option.distinct(1) store_wf_def)
  then show ?thesis by (auto simp: visible_def hm_simps split: option.split)
qed

lemma visible_record_hit:
  "visible (record_route_hit sig g) s =
     (if s = sig then map_option bump_hit (visible g sig) else visible g s)"
  by (auto simp: record_route_hit_def visible_modify_hot visible_modify_cold
      visible_None [THEN iffD2])

lemma visible_insert_known:
  assumes "visible g sig \<noteq> None"
  shows "visible (insert_route B sig ixs a q plan g) s =
     (if s = sig then map_option (add_variant a ixs) (visible g sig) else visible g s)"
  using assms by (auto simp: insert_route_def visible_modify_hot visible_modify_cold visible_None)

lemma insert_route_new:
  assumes "visible g sig = None"
  shows "insert_route B sig ixs a q plan g =
     index_pair plan sig (push_hot_route g sig (fresh_template B sig ixs a q))"
  using assms by (simp add: insert_route_def visible_None)

lemma visible_record_hops [simp]: "visible (record_hops plan slot g) = visible g"
  by (simp add: fun_eq_iff visible_def record_hops_def split: option.split)

text \<open>A lookup's write section returns what is visible, with the hit counted on promotion.\<close>

lemma get_route_write_result:
  assumes "store_wf g"
  shows "fst (get_route_write sig g) =
     (if hm_get (routes_cold g) sig = None then visible g sig else map_option bump_hit (visible g sig))"
proof (cases "hm_get (routes_cold g) sig")
  case None
  then show ?thesis by (auto simp: get_route_write_def visible_def split: option.split)
next
  case (Some t)
  then have "hm_get (routes_hot g) sig = None"
    using assms by (metis option.distinct(1) store_wf_def)
  with Some show ?thesis by (simp add: get_route_write_def visible_def Let_def)
qed

section \<open>Preservation\<close>

lemma store_inv_promote:
  assumes "store_inv B L g"
  shows "store_inv B L (snd (get_route_write sig g))"
proof (cases "hm_get (routes_cold g) sig")
  case None
  with assms show ?thesis by (simp add: get_route_write_def)
next
  case (Some t)
  let ?g1 = "g\<lparr>routes_cold := hm_remove sig (routes_cold g)\<rparr>"
  have wf: "store_wf g" using assms by (simp add: store_inv_def)
  note take = visible_take_cold [OF wf Some]
  have vt: "visible g sig = Some t"
    using wf Some by (metis option.simps(4) store_wf_def visible_def option.distinct(1))
  have "store_wf (push_hot_route ?g1 sig (bump_hit t))"
    by (rule store_wf_push [OF store_wf_take_cold [OF wf]]) (simp add: take)
  moreover have "tmpl_ok B L s u" if "visible (push_hot_route ?g1 sig (bump_hit t)) s = Some u" for s u
    using visible_push_Some [OF that] vt assms by (auto simp: take store_inv_def)
  ultimately show ?thesis
    by (simp add: get_route_write_def Some Let_def store_inv_def)
qed

lemma store_inv_hit: "store_inv B L g \<Longrightarrow> store_inv B L (record_route_hit sig g)"
  by (auto simp: store_inv_def visible_record_hit split: if_splits)
    (auto simp: record_route_hit_def store_wf_modify)

lemma store_inv_insert:
  assumes "store_inv B L g"
  shows "store_inv B (insert (sig, ixs, a, q) L) (insert_route B sig ixs a q plan g)"
proof -
  let ?L = "insert (sig, ixs, a, q) L"
  have inv: "store_inv B ?L g" using assms by (rule store_inv_mono) auto
  show ?thesis
  proof (cases "visible g sig")
    case None
    with inv show ?thesis
      by (auto simp: insert_route_new store_inv_def intro!: store_wf_index store_wf_push
          dest!: visible_push_Some intro: tmpl_ok_fresh)
  next
    case (Some t)
    with inv have "tmpl_ok B ?L s u" if "visible (insert_route B sig ixs a q plan g) s = Some u" for s u
      using that by (auto simp: visible_insert_known store_inv_def split: if_splits
          intro: tmpl_ok_add_variant)
    moreover have "store_wf (insert_route B sig ixs a q plan g)"
      using inv Some visible_None [of g sig]
      by (auto simp: insert_route_def store_inv_def store_wf_modify)
    ultimately show ?thesis by (simp add: store_inv_def)
  qed
qed

definition hops_wf :: "(hop_key, hop_template) hmap \<Rightarrow> bool" where
  "hops_wf m \<longleftrightarrow> hm_wf m \<and> (\<forall>k t. hm_get m k = Some t \<longrightarrow> template_key t = k)"

lemma template_key_touch [simp]: "template_key (touch_hop slot t) = template_key t"
  by (simp add: template_key_def touch_hop_def)

lemma template_key_new [simp]: "template_key (new_hop_template k slot) = k"
  by (simp add: template_key_def new_hop_template_def)

lemma hops_wf_record_hop: "hops_wf m \<Longrightarrow> hops_wf (record_hop slot m hop)"
  by (auto simp: hops_wf_def record_hop_def hm_simps hm_intros split: option.splits if_splits)

lemma hops_wf_foldl: "hops_wf m \<Longrightarrow> hops_wf (foldl (record_hop slot) m arr)"
  by (induction arr arbitrary: m) (auto simp: hops_wf_record_hop)

lemma store_inv_record_hops: "store_inv B L g \<Longrightarrow> store_inv B L (record_hops plan slot g)"
  using hops_wf_foldl [of "hops g"]
  by (auto simp: store_inv_def record_hops_def store_wf_def hops_wf_def visible_def split: option.splits)

lemma store_inv_step: "store_inv B L g \<Longrightarrow> store_inv B (log_step op L) (store_step B op g)"
  by (cases op) (auto simp: store_inv_promote store_inv_hit store_inv_insert store_inv_record_hops)

lemma store_inv_new: "store_inv B L store_new"
  by (simp add: store_inv_def store_wf_def store_new_def visible_def hm_len_def ROUTE_SEG_CAP_def)

end
