(* ===== verification/Store_Properties.thy ===== *)
theory Store_Properties
  imports Store_Invariant
begin

text \<open>
  What callers of the template store may rely on. The interface \<open>evicting_cache\<close> states the
  contract of a cache whose steps may drop entries but never alter the core of an entry they do
  not write; its lemmas lift that to whole runs. \<open>route_cache\<close> interprets it on the store's
  critical sections.
\<close>

locale evicting_cache =
  fixes inv :: "'g \<Rightarrow> bool"
    and step :: "'op \<Rightarrow> 'g \<Rightarrow> 'g"
    and view :: "'g \<Rightarrow> 'k \<Rightarrow> 'v option"
    and kernel :: "'v \<Rightarrow> 'c"
    and writes :: "'op \<Rightarrow> 'k \<Rightarrow> bool"
  assumes inv_step: "inv g \<Longrightarrow> inv (step op g)"
    and step_frame: "inv g \<Longrightarrow> \<not> writes op k \<Longrightarrow> view (step op g) k = Some v \<Longrightarrow>
      \<exists>v0. view g k = Some v0 \<and> kernel v0 = kernel v"
begin

lemma inv_run: "inv g \<Longrightarrow> inv (fold step ops g)"
  by (induction ops arbitrary: g) (auto simp: inv_step)

lemma run_frame:
  assumes "inv g" "\<forall>op \<in> set ops. \<not> writes op k" "view (fold step ops g) k = Some v"
  shows "\<exists>v0. view g k = Some v0 \<and> kernel v0 = kernel v"
  using assms
proof (induction ops arbitrary: g)
  case (Cons op ops)
  then obtain v1 where "view (step op g) k = Some v1" "kernel v1 = kernel v"
    using inv_step by fastforce
  moreover from this(1) Cons.prems obtain v0 where "view g k = Some v0" "kernel v0 = kernel v1"
    using step_frame [of g op k v1] by auto
  ultimately show ?case by auto
qed auto

lemma absent_stays_absent:
  assumes "inv g" "view g k = None" "\<forall>op \<in> set ops. \<not> writes op k"
  shows "view (fold step ops g) k = None"
proof (rule ccontr)
  assume "view (fold step ops g) k \<noteq> None"
  then obtain v where "view (fold step ops g) k = Some v" by auto
  with run_frame [OF assms(1,3)] assms(2) show False by auto
qed

end

fun inserts_sig :: "store_op \<Rightarrow> u128 \<Rightarrow> bool" where
  "inserts_sig (Insert sig ixs a q plan) s = (s = sig)"
| "inserts_sig _ s = False"

definition store_ok :: "base64_engine \<Rightarrow> store \<Rightarrow> bool" where
  "store_ok B g \<longleftrightarrow> (\<exists>L. store_inv B L g)"

lemma promote_frame:
  assumes "store_wf g" "visible (snd (get_route_write sig g)) k = Some v"
  shows "\<exists>v0. visible g k = Some v0 \<and> core v0 = core v"
proof (cases "hm_get (routes_cold g) sig")
  case None
  with assms(2) show ?thesis by (simp add: get_route_write_def)
next
  case (Some t)
  have "visible g sig = Some t"
    using assms(1) Some by (metis option.simps(4) store_wf_def visible_def option.distinct(1))
  moreover have "visible (push_hot_route (g\<lparr>routes_cold := hm_remove sig (routes_cold g)\<rparr>) sig
      (bump_hit t)) k = Some v"
    using assms(2) Some by (simp add: get_route_write_def Let_def)
  ultimately have "(k = sig \<and> v = bump_hit t) \<or> (k \<noteq> sig \<and> visible g k = Some v)"
    using visible_take_cold [OF assms(1) Some, of k] by (auto dest!: visible_push_Some)
  with \<open>visible g sig = Some t\<close> show ?thesis by auto
qed

lemma insert_frame:
  assumes "k \<noteq> sig" "visible (insert_route B sig ixs a q plan g) k = Some v"
  shows "visible g k = Some v"
proof (cases "visible g sig")
  case None
  with assms show ?thesis by (auto simp: insert_route_new dest!: visible_push_Some)
next
  case (Some t)
  with assms show ?thesis by (simp add: visible_insert_known)
qed

interpretation route_cache: evicting_cache "store_ok B" "store_step B" visible core inserts_sig for B
proof
  fix g :: store and op :: store_op and k :: u128 and v :: route_template
  show "store_ok B g \<Longrightarrow> store_ok B (store_step B op g)"
    unfolding store_ok_def by (blast intro: store_inv_step)
  assume ok: "store_ok B g" and w: "\<not> inserts_sig op k" and v: "visible (store_step B op g) k = Some v"
  from ok have "store_wf g" by (auto simp: store_ok_def store_inv_def)
  then show "\<exists>v0. visible g k = Some v0 \<and> core v0 = core v"
    using w v by (cases op) (auto simp: promote_frame visible_record_hit dest: insert_frame
        split: if_splits)
qed

lemma store_inv_run: "store_inv B L g \<Longrightarrow> store_inv B (fold log_step ops L) (fold (store_step B) ops g)"
  by (induction ops arbitrary: L g) (auto simp: store_inv_step)

lemma log_of_ops:
  "(sig, ixs, a, q) \<in> fold log_step ops L \<longleftrightarrow>
     (sig, ixs, a, q) \<in> L \<or> (\<exists>plan. Insert sig ixs a q plan \<in> set ops)"
proof (induction ops arbitrary: L)
  case (Cons op ops)
  then show ?case by (cases op) auto
qed simp

text \<open>The store after any interleaving of critical sections, from the empty store.\<close>

definition store_run :: "base64_engine \<Rightarrow> store_op list \<Rightarrow> store" where
  "store_run B ops = fold (store_step B) ops store_new"

lemma store_run_inv: "store_inv B (fold log_step ops {}) (store_run B ops)"
  unfolding store_run_def by (rule store_inv_run [OF store_inv_new])

lemma store_run_wf: "store_wf (store_run B ops)"
  using store_run_inv [of B ops] by (simp add: store_inv_def)


text \<open>A concrete engine, instruction and plan for the witnesses.\<close>

definition plain_engine :: base64_engine where
  "plain_engine = \<lparr>b64_decode = (\<lambda>s. Some (string_bytes s)), b64_encode = map (\<lambda>b. char_of (unat b))\<rparr>"

lemma of_char_char_of_unat: "(of_char (char_of (unat b) :: char) :: u8) = b"
proof -
  have "(of_char (char_of (unat b) :: char) :: nat) = unat b"
    using unat_bound [of b] by (simp add: of_char_of)
  then have "of_nat (of_char (char_of (unat b) :: char) :: nat) = b" by simp
  then show ?thesis by (simp only: of_nat_of_char)
qed

lemma plain_engine_lawful: "b64_lawful plain_engine"
  by (simp add: b64_lawful_def plain_engine_def string_bytes_def comp_def of_char_char_of_unat)

definition sample_ixs :: "string \<Rightarrow> swap_instructions_response" where
  "sample_ixs d = \<lparr>compute_budget_instructions = [], setup_instructions = [],
     swap_instruction = \<lparr>ix_program_id = ''JUP'', ix_accounts = [], ix_data = d\<rparr>,
     cleanup_instruction = None, address_lookup_table_addresses = []\<rparr>"

text \<open>
  Provenance: whatever interleaving of lookups, hits, inserts and hop records the
  store went through, a route found under a signature carries that signature, its base
  instruction was inserted under it with the amounts the template records, and every cached
  per-amount instruction was inserted under the same signature for exactly that amount.
\<close>

theorem store_run_provenance:
  assumes "visible (store_run B ops) sig = Some t"
  shows "rt_signature t = sig \<and>
    (\<exists>plan. Insert sig (rt_swap_ixs t) (rt_template_in_amount t) (rt_template_quoted_out t) plan \<in> set ops) \<and>
    (\<forall>a x. hm_get (rt_amount_variants t) a = Some x \<longrightarrow> (\<exists>q plan. Insert sig x a q plan \<in> set ops))"
proof -
  have "tmpl_ok B (fold log_step ops {}) sig t"
    using assms store_run_inv [of B ops] by (auto simp: store_inv_def)
  then show ?thesis by (auto simp: tmpl_ok_def log_of_ops)
qed

theorem store_run_provenance_witness:
  "\<exists>t. visible (store_run plain_engine [Insert 7 (sample_ixs ''a'') 10 20 JNull, Hit 7]) 7 = Some t \<and>
     rt_signature t = 7 \<and> rt_swap_ixs t = sample_ixs ''a''"
proof -
  let ?ops = "[Insert 7 (sample_ixs ''a'') 10 20 JNull, Hit 7]"
  obtain t where t: "visible (store_run plain_engine ?ops) 7 = Some t"
    by (simp add: store_run_def visible_record_hit insert_route_new visible_push)
  from store_run_provenance [OF t] show ?thesis by (auto simp: t)
qed

text \<open>
  \<open>r\<close> is \<open>base\<close> with its two amounts rewritten: the data decodes, has the same length, carries
  \<open>amt\<close> at the discovered offset and \<open>amt\<close> plus the template's margin right after it, and agrees
  with the base data at every other byte; all other parts of the instruction are those of \<open>base\<close>.
\<close>

definition patched_from ::
    "base64_engine \<Rightarrow> swap_instructions_response \<Rightarrow> u64 \<Rightarrow> u64 \<Rightarrow> u64 \<Rightarrow> swap_instructions_response \<Rightarrow> bool" where
  "patched_from B base a0 q0 amt r \<longleftrightarrow>
     (\<exists>d d' i.
        b64_decode B (ix_data (swap_instruction base)) = Some d \<and>
        discover_offsets d a0 q0 = Some (i, i + 8) \<and>
        r = base\<lparr>swap_instruction := (swap_instruction base)\<lparr>ix_data := ix_data (swap_instruction r)\<rparr>\<rparr> \<and>
        b64_decode B (ix_data (swap_instruction r)) = Some d' \<and> length d' = length d \<and>
        u64_from_le (slice i 8 d') = amt \<and> u64_from_le (slice (i + 8) 8 d') = amt + (q0 - a0) \<and>
        (\<forall>k < length d. k < i \<or> i + 16 \<le> k \<longrightarrow> d' ! k = d ! k))"

lemma serve_route_patches:
  assumes "b64_lawful B" "b64_decode B (ix_data (swap_instruction (rt_swap_ixs t))) = Some d"
    and "discover_offsets d (rt_template_in_amount t) (rt_template_quoted_out t) = Some (i, j)"
    and "rt_in_offset t = Some i" "rt_out_offset t = Some j"
    and "hm_get (rt_amount_variants t) amt = None"
  obtains r where "serve_route B t amt out = Some r"
    "patched_from B (rt_swap_ixs t) (rt_template_in_amount t) (rt_template_quoted_out t) amt r"
proof -
  note off = discover_offsets_Some [OF assms(3)]
  let ?y = "amt + (rt_template_quoted_out t - rt_template_in_amount t)"
  obtain s' d' where *: "patch_amounts_b64 B (ix_data (swap_instruction (rt_swap_ixs t))) i j amt ?y = Some s'"
      "b64_decode B s' = Some d'" "length d' = length d" "slice i 8 d' = u64_to_le amt"
      "slice j 8 d' = u64_to_le ?y" "\<And>k. k < length d \<Longrightarrow> k < i \<or> i + 16 \<le> k \<Longrightarrow> d' ! k = d ! k"
    using patch_amounts_effect [OF assms(1,2) off(2,1)] by blast
  let ?r = "(rt_swap_ixs t)\<lparr>swap_instruction := (swap_instruction (rt_swap_ixs t))\<lparr>ix_data := s'\<rparr>\<rparr>"
  show thesis
  proof (rule that)
    show "serve_route B t amt out = Some ?r"
      using assms * by (simp add: serve_route_def Let_def)
    show "patched_from B (rt_swap_ixs t) (rt_template_in_amount t) (rt_template_quoted_out t) amt ?r"
      unfolding patched_from_def
      using assms(2,3) * off(1) by (intro exI [of _ d] exI [of _ d'] exI [of _ i]) simp
  qed
qed

lemma serve_route_cases:
  assumes "tmpl_ok B L sig t" "b64_lawful B" "serve_route B t amt out = Some r"
  shows "(\<exists>q. (sig, r, amt, q) \<in> L) \<or>
    patched_from B (rt_swap_ixs t) (rt_template_in_amount t) (rt_template_quoted_out t) amt r"
proof (cases "hm_get (rt_amount_variants t) amt")
  case (Some v)
  with assms(1,3) show ?thesis by (auto simp: tmpl_ok_def serve_route_def)
next
  case None
  with assms(3) obtain i j where ij: "rt_in_offset t = Some i" "rt_out_offset t = Some j"
    by (auto simp: serve_route_def split: option.splits)
  let ?o = "Option.bind (b64_decode B (ix_data (swap_instruction (rt_swap_ixs t))))
      (\<lambda>d. discover_offsets d (rt_template_in_amount t) (rt_template_quoted_out t))"
  have "map_option fst ?o = Some i" "map_option snd ?o = Some j"
    using assms(1) ij by (simp_all add: tmpl_ok_def fresh_template_def Let_def)
  then have "?o = Some (i, j)" by (cases ?o) auto
  then obtain d where d: "b64_decode B (ix_data (swap_instruction (rt_swap_ixs t))) = Some d"
      "discover_offsets d (rt_template_in_amount t) (rt_template_quoted_out t) = Some (i, j)"
    by (auto simp: bind_eq_Some_conv)
  from serve_route_patches [OF assms(2) d ij None, of out] assms(3) show ?thesis by auto
qed

text \<open>
  Property C2. Safety of serving from RAM: after any history of the store, an instruction served
  for a route and an amount is either the very instruction that was inserted for this route and
  this amount, or an instruction inserted for this route with nothing changed but the two amounts,
  which now read as the requested amount and that amount plus the template's margin.
\<close>

theorem serve_route_safe:
  assumes "b64_lawful B" "visible (store_run B ops) sig = Some t" "serve_route B t amt out = Some r"
  shows "(\<exists>q plan. Insert sig r amt q plan \<in> set ops) \<or>
    (\<exists>base a0 q0 plan. Insert sig base a0 q0 plan \<in> set ops \<and> patched_from B base a0 q0 amt r)"
proof -
  let ?L = "fold log_step ops {}"
  have ok: "tmpl_ok B ?L sig t"
    using assms(2) store_run_inv [of B ops] by (auto simp: store_inv_def)
  then have "(sig, rt_swap_ixs t, rt_template_in_amount t, rt_template_quoted_out t) \<in> ?L"
    by (simp add: tmpl_ok_def)
  then obtain plan where "Insert sig (rt_swap_ixs t) (rt_template_in_amount t)
      (rt_template_quoted_out t) plan \<in> set ops"
    by (auto simp: log_of_ops)
  with serve_route_cases [OF ok assms(1,3)] show ?thesis
    unfolding log_of_ops by blast
qed

definition sample_base :: swap_instructions_response where
  "sample_base = sample_ixs (b64_encode plain_engine (u64_to_le 10 @ u64_to_le 25))"

theorem serve_route_safe_witness:
  "\<exists>t r. visible (store_run plain_engine [Insert 7 sample_base 10 25 JNull]) 7 = Some t \<and>
     serve_route plain_engine t 50 0 = Some r \<and> patched_from plain_engine sample_base 10 25 50 r"
proof -
  let ?ops = "[Insert 7 sample_base 10 25 JNull]"
  let ?t = "fresh_template plain_engine 7 sample_base 10 25" and ?d = "u64_to_le 10 @ u64_to_le 25"
  have vis: "visible (store_run plain_engine ?ops) 7 = Some ?t"
    by (simp add: store_run_def insert_route_new visible_push)
  have dec: "b64_decode plain_engine (ix_data (swap_instruction sample_base)) = Some ?d"
    using plain_engine_lawful by (simp add: b64_lawful_def sample_base_def sample_ixs_def)
  have off: "discover_offsets ?d 10 25 = Some (0, 0 + 8)" by code_simp
  have "serve_route plain_engine ?t 50 0 \<noteq> None"
    using serve_route_patches [OF plain_engine_lawful, of ?t ?d 0 "0 + 8" 50 0] dec off
    by (auto simp: fresh_template_def Let_def hm_simps)
  then obtain r where "serve_route plain_engine ?t 50 0 = Some r" by auto
  with vis serve_route_safe [OF plain_engine_lawful vis this] show ?thesis by auto
qed

end
