(* ===== verification/Serving.thy ===== *)
theory Serving
  imports Store_Properties Routes
begin

text \<open>
  What the scanner may rely on when it serves from the store: an inserted route keeps serving its
  instruction until it is evicted, lookups are linearizable against concurrent writers, and the
  hop table counts exactly the hops it was shown.
\<close>

section \<open>Serving depends on the core of a template\<close>

lemma serve_route_of_core: "serve_route B (core t) a out = serve_route B t a out"
  by (simp add: core_def serve_route_def cong: option.case_cong)

lemma serve_route_core: "core t = core t' \<Longrightarrow> serve_route B t a out = serve_route B t' a out"
  using serve_route_of_core [of B t] serve_route_of_core [of B t'] by simp

lemma serve_fresh: "serve_route B (fresh_template B sig ixs a q) a out = Some ixs"
  by (simp add: serve_route_def fresh_template_def Let_def hm_simps)

text \<open>What is visible after a first insert and any later sections that do not insert the route.\<close>

lemma visible_after_insert:
  assumes "visible (store_run B ops1) sig = None" "\<forall>op \<in> set ops2. \<not> inserts_sig op sig"
    and "visible (store_run B (ops1 @ Insert sig ixs a q plan # ops2)) sig = Some t"
  shows "core t = core (fresh_template B sig ixs a q)"
proof -
  let ?g = "insert_route B sig ixs a q plan (store_run B ops1)"
  have "store_ok B ?g"
    using store_inv_insert [OF store_run_inv [of B ops1]] unfolding store_ok_def by blast
  moreover have "visible ?g sig = Some (fresh_template B sig ixs a q)"
    using assms(1) by (simp add: insert_route_new visible_push)
  moreover have "visible (fold (store_step B) ops2 ?g) sig = Some t"
    using assms(3) by (simp add: store_run_def)
  ultimately show ?thesis
    using route_cache.run_frame [of B ?g ops2 sig t] assms(2) by auto
qed

text \<open>
  Property C29. An inserted route keeps serving: when \<open>insert_route\<close> adds a route the store did not
  hold, then after any further critical sections that do not insert this route (other inserts,
  evictions, promotions, hits, hop records) a lookup that still finds it serves exactly the
  inserted instruction for the inserted amount.
\<close>

theorem insert_then_serve:
  assumes "visible (store_run B ops1) sig = None" "\<forall>op \<in> set ops2. \<not> inserts_sig op sig"
    and "visible (store_run B (ops1 @ Insert sig ixs a q plan # ops2)) sig = Some t"
  shows "serve_route B t a out = Some ixs"
  using serve_route_core [OF visible_after_insert [OF assms]] by (simp add: serve_fresh)

theorem insert_then_serve_witness:
  "\<exists>t. visible (store_run plain_engine [Insert 7 (sample_ixs ''a'') 10 20 JNull, Hit 7,
      Insert 8 (sample_ixs ''b'') 10 20 JNull]) 7 = Some t \<and>
    serve_route plain_engine t 10 0 = Some (sample_ixs ''a'')"
proof -
  let ?ops = "[Hit 7, Insert 8 (sample_ixs ''b'') 10 20 JNull]"
  let ?g = "store_run plain_engine ([] @ Insert 7 (sample_ixs ''a'') 10 20 JNull # ?ops)"
  let ?g2 = "record_route_hit 7 (insert_route plain_engine 7 (sample_ixs ''a'') 10 20 JNull store_new)"
  have "visible ?g2 8 = None" "visible ?g2 7 \<noteq> None"
    by (simp_all add: visible_record_hit insert_route_new visible_push) (simp add: store_new_def)
  moreover have "hm_len (routes_hot ?g2) < ROUTE_SEG_CAP"
    by (simp add: record_route_hit_def insert_route_def push_hot_route_def store_new_def Let_def
        index_pair_def pair_key_def hm_len_def ROUTE_SEG_CAP_def hm_modify_def hm_insert_def)
  ultimately have "visible ?g 7 \<noteq> None"
    by (simp add: store_run_def insert_route_new visible_push)
  then obtain t where t: "visible ?g 7 = Some t" by auto
  have "serve_route plain_engine t 10 0 = Some (sample_ixs ''a'')"
    by (rule insert_then_serve [OF _ _ t]) (simp_all add: store_run_def)
  with t show ?thesis by auto
qed

section \<open>Lookups under interference\<close>

text \<open>
  \<open>get_route\<close> when other threads run the critical sections \<open>ops\<close> between its read section and its
  write section.
\<close>

definition get_route_during ::
    "base64_engine \<Rightarrow> store_op list \<Rightarrow> u128 \<Rightarrow> store \<Rightarrow> route_template option \<times> store" where
  "get_route_during B ops sig g =
     (case get_route_read sig g of
        Some r \<Rightarrow> (r, fold (store_step B) ops g)
      | None \<Rightarrow> get_route_write sig (fold (store_step B) ops g))"

lemma get_route_during_none: "get_route_during B [] = get_route"
  by (simp add: fun_eq_iff get_route_during_def get_route_def split: option.split)

lemma get_route_read_visible: "get_route_read sig g = Some r \<Longrightarrow> r = visible g sig"
  by (auto simp: get_route_read_def visible_def split: option.splits if_splits)

text \<open>
  Property C30. Lookups are linearizable: whatever critical sections other threads run between the
  two sections of \<open>get_route\<close>, its answer is, up to the hit counter, what the store showed for the
  signature at the read section or at the write section.
\<close>

theorem get_route_linearizable:
  "map_option core (fst (get_route_during B ops sig (store_run B ops0))) =
     map_option core (visible (store_run B ops0) sig) \<or>
   map_option core (fst (get_route_during B ops sig (store_run B ops0))) =
     map_option core (visible (store_run B (ops0 @ ops)) sig)"
proof (cases "get_route_read sig (store_run B ops0)")
  case (Some r)
  with get_route_read_visible [OF Some] show ?thesis by (simp add: get_route_during_def)
next
  case None
  have run: "fold (store_step B) ops (store_run B ops0) = store_run B (ops0 @ ops)"
    by (simp add: store_run_def)
  from get_route_write_result [OF store_run_wf [of B "ops0 @ ops"], of sig]
  have "map_option core (fst (get_route_write sig (store_run B (ops0 @ ops)))) =
      map_option core (visible (store_run B (ops0 @ ops)) sig)"
    by (simp add: option.map_comp comp_def)
  with None run show ?thesis by (simp add: get_route_during_def)
qed

section \<open>The hop table\<close>

definition hops_in :: "json \<Rightarrow> json list" where
  "hops_in plan = (case as_array plan of Some arr \<Rightarrow> arr | None \<Rightarrow> [])"

lemma foldl_count: "foldl (\<lambda>n x. if P x then n + 1 else n) k xs = k + length (filter P xs)"
  by (induction xs arbitrary: k) auto

lemma get_record_hop:
  "hm_get (record_hop slot m hop) k =
     (if hop_key_of hop = Some k
      then Some (touch_hop slot (case hm_get m k of Some t \<Rightarrow> t | None \<Rightarrow> new_hop_template k slot))
      else hm_get m k)"
  by (auto simp: record_hop_def hm_simps split: option.splits)

lemma touch_new:
  "touch_hop slot (touch_hop slot t) = t\<lparr>ht_seen_count := ht_seen_count t + 2, ht_last_seen_slot := slot\<rparr>"
  by (simp add: touch_hop_def)

lemma get_record_hops_foldl:
  "hm_get (foldl (record_hop slot) m arr) k =
     (let n = length (filter (\<lambda>h. hop_key_of h = Some k) arr) in
      if n = 0 then hm_get m k
      else let t = (case hm_get m k of Some t \<Rightarrow> t | None \<Rightarrow> new_hop_template k slot)
           in Some (t\<lparr>ht_seen_count := ht_seen_count t + of_nat n, ht_last_seen_slot := slot\<rparr>))"
proof (induction arr arbitrary: m)
  case (Cons h arr)
  show ?case
    by (simp add: Cons.IH get_record_hop Let_def touch_hop_def split: option.split)
qed simp

text \<open>
  \<open>record_hops\<close> counts exactly: a hop key the plan mentions \<open>n > 0\<close> times has its seen
  counter advanced by \<open>n\<close> and its last slot set, is created with the current slot as its first when
  it was unknown, and every other key's entry is left alone.
\<close>

theorem record_hops_counts:
  "hm_get (hops (record_hops plan slot g)) k =
     (let n = length (filter (\<lambda>h. hop_key_of h = Some k) (hops_in plan)) in
      if n = 0 then hm_get (hops g) k
      else let t = (case hm_get (hops g) k of Some t \<Rightarrow> t | None \<Rightarrow> new_hop_template k slot)
           in Some (t\<lparr>ht_seen_count := ht_seen_count t + of_nat n, ht_last_seen_slot := slot\<rparr>))"
proof (cases "as_array plan")
  case None
  then show ?thesis by (simp add: record_hops_def hops_in_def)
next
  case (Some arr)
  then show ?thesis
    using get_record_hops_foldl [of slot "hops g" arr k] by (simp add: record_hops_def hops_in_def)
qed

lemma check_hops_filter:
  "check_hops plan g =
     (let n = length (filter (\<lambda>h. case hop_key_of h of Some k \<Rightarrow> hm_get (hops g) k = None | None \<Rightarrow> True)
        (hops_in plan)) in (n = 0, n))"
proof -
  have "(\<lambda>h. \<not> (case hop_key_of h of Some k \<Rightarrow> hm_contains (hops g) k | None \<Rightarrow> False)) =
      (\<lambda>h. case hop_key_of h of Some k \<Rightarrow> hm_get (hops g) k = None | None \<Rightarrow> True)"
    by (auto simp: fun_eq_iff split: option.split)
  then show ?thesis
    by (simp add: check_hops_def foldl_count hops_in_def Let_def split: option.split)
qed

lemma recorded_hops_known:
  assumes "h \<in> set (hops_in plan)" "hop_key_of h = Some k"
  shows "hm_get (hops (record_hops plan slot g)) k \<noteq> None"
proof (cases "as_array plan")
  case None
  with assms show ?thesis by (simp add: hops_in_def)
next
  case (Some arr)
  with assms have "filter (\<lambda>h. hop_key_of h = Some k) arr \<noteq> []"
    by (auto simp: hops_in_def filter_empty_conv)
  with Some show ?thesis
    by (simp add: record_hops_def get_record_hops_foldl Let_def)
qed

text \<open>
  Recording teaches the check: after \<open>record_hops\<close> of a plan, \<open>check_hops\<close> of the same
  plan misses exactly the hops whose \<open>swapInfo\<close> does not parse, so a plan of parsable hops is then
  fully known, whatever the store held before.
\<close>

theorem record_then_check:
  "check_hops plan (record_hops plan slot g) =
     (let n = length (filter (\<lambda>h. hop_key_of h = None) (hops_in plan)) in (n = 0, n))"
proof -
  let ?P = "\<lambda>h. case hop_key_of h of Some k \<Rightarrow> hm_get (hops (record_hops plan slot g)) k = None | None \<Rightarrow> True"
  have "filter ?P (hops_in plan) = filter (\<lambda>h. hop_key_of h = None) (hops_in plan)"
  proof (rule filter_cong [OF refl])
    fix h assume "h \<in> set (hops_in plan)"
    then show "?P h = (hop_key_of h = None)"
      using recorded_hops_known [of h plan] by (cases "hop_key_of h") auto
  qed
  then show ?thesis by (simp add: check_hops_filter)
qed

end
