(* ===== verification/Store_Refinement.thy ===== *)
theory Store_Refinement
  imports Store_Properties
begin

text \<open>
  What the two-segment route cache promises, without segments. The specification is one map and the
  set of its young keys: a write of a new or promoted key first forgets everything that is not young
  when \<open>ROUTE_SEG_CAP\<close> keys are, and makes the key young. The critical sections of the store
  refine it under the abstraction \<open>store_view\<close>, and the retention guarantee is proved on the
  specification.
\<close>

section \<open>Functional simulation\<close>

locale simulation =
  fixes inv :: "'c \<Rightarrow> bool"
    and abs :: "'c \<Rightarrow> 'a"
    and cstep :: "'op \<Rightarrow> 'c \<Rightarrow> 'c"
    and astep :: "'op \<Rightarrow> 'a \<Rightarrow> 'a"
  assumes inv_cstep: "inv c \<Longrightarrow> inv (cstep op c)"
    and step_refines: "inv c \<Longrightarrow> abs (cstep op c) = astep op (abs c)"
begin

lemma run_refines: "inv c \<Longrightarrow> abs (fold cstep ops c) = fold astep ops (abs c)"
  by (induction ops arbitrary: c) (simp_all add: inv_cstep step_refines)

end

section \<open>The specification\<close>

record route_spec =
  sp_routes :: "u128 \<Rightarrow> route_template option"
  sp_young :: "u128 set"

definition spec_new :: route_spec where
  "spec_new = \<lparr>sp_routes = Map.empty, sp_young = {}\<rparr>"

definition spec_push :: "u128 \<Rightarrow> route_template \<Rightarrow> route_spec \<Rightarrow> route_spec" where
  "spec_push sig t a =
     (if card (sp_young a) \<ge> ROUTE_SEG_CAP
      then \<lparr>sp_routes = (sp_routes a |` sp_young a)(sig \<mapsto> t), sp_young = {sig}\<rparr>
      else \<lparr>sp_routes = (sp_routes a)(sig \<mapsto> t), sp_young = insert sig (sp_young a)\<rparr>)"

definition spec_change :: "u128 \<Rightarrow> (route_template \<Rightarrow> route_template) \<Rightarrow> route_spec \<Rightarrow> route_spec" where
  "spec_change sig f a = a\<lparr>sp_routes := (sp_routes a)(sig := map_option f (sp_routes a sig))\<rparr>"

fun spec_step :: "base64_engine \<Rightarrow> store_op \<Rightarrow> route_spec \<Rightarrow> route_spec" where
  "spec_step B (Promote sig) a =
     (case sp_routes a sig of
        Some t \<Rightarrow> if sig \<in> sp_young a then a else spec_push sig (bump_hit t) a
      | None \<Rightarrow> a)"
| "spec_step B (Hit sig) a = spec_change sig bump_hit a"
| "spec_step B (Insert sig ixs in_amt quoted plan) a =
     (case sp_routes a sig of
        Some _ \<Rightarrow> spec_change sig (add_variant in_amt ixs) a
      | None \<Rightarrow> spec_push sig (fresh_template B sig ixs in_amt quoted) a)"
| "spec_step B (RecordHops plan slot) a = a"

definition store_view :: "store \<Rightarrow> route_spec" where
  "store_view g = \<lparr>sp_routes = visible g, sp_young = dom (hm_get (routes_hot g))\<rparr>"

section \<open>The refinement\<close>

lemma card_young: "store_wf g \<Longrightarrow> card (sp_young (store_view g)) = hm_len (routes_hot g)"
  by (simp add: store_view_def store_wf_def hm.len_card)

lemma hot_push:
  "hm_get (routes_hot (push_hot_route g sig t)) =
     (if hm_len (routes_hot g) \<ge> ROUTE_SEG_CAP then [sig \<mapsto> t] else (hm_get (routes_hot g))(sig \<mapsto> t))"
  by (auto simp: push_hot_route_def Let_def hm_simps)

lemma restrict_young: "visible g |` dom (hm_get (routes_hot g)) = hm_get (routes_hot g)"
  by (auto simp: fun_eq_iff restrict_map_def visible_def split: option.split)

lemma view_push:
  assumes "store_wf g"
  shows "store_view (push_hot_route g sig t) = spec_push sig t (store_view g)"
proof -
  have "visible (push_hot_route g sig t) =
      (if hm_len (routes_hot g) \<ge> ROUTE_SEG_CAP then (hm_get (routes_hot g))(sig \<mapsto> t)
       else (visible g)(sig \<mapsto> t))"
    by (auto simp: fun_eq_iff visible_push)
  then show ?thesis
    using card_young [OF assms]
    by (auto simp: store_view_def spec_push_def hot_push restrict_young)
qed

lemma view_change:
  assumes "\<And>s. visible g' s = (if s = sig then map_option f (visible g sig) else visible g s)"
    and "dom (hm_get (routes_hot g')) = dom (hm_get (routes_hot g))"
  shows "store_view g' = spec_change sig f (store_view g)"
  using assms by (auto simp: store_view_def spec_change_def fun_eq_iff)

lemma dom_modify [simp]: "dom (hm_get (hm_modify k f m)) = dom (hm_get m)"
  by (auto simp: hm_simps split: if_splits)

lemma view_promote:
  assumes "store_wf g"
  shows "store_view (snd (get_route_write sig g)) = spec_step B (Promote sig) (store_view g)"
proof (cases "hm_get (routes_cold g) sig")
  case None
  then show ?thesis
    by (auto simp: get_route_write_def store_view_def visible_def split: option.split)
next
  case (Some t)
  let ?g1 = "g\<lparr>routes_cold := hm_remove sig (routes_cold g)\<rparr>"
  have hot: "hm_get (routes_hot g) sig = None"
    using assms Some by (metis option.distinct(1) store_wf_def)
  have "store_view (push_hot_route ?g1 sig (bump_hit t)) = spec_push sig (bump_hit t) (store_view ?g1)"
    by (rule view_push [OF store_wf_take_cold [OF assms]])
  also have "\<dots> = spec_push sig (bump_hit t) (store_view g)"
    using hot by (auto simp: store_view_def spec_push_def restrict_map_def fun_eq_iff
        visible_take_cold [OF assms Some])
  finally show ?thesis
    using Some hot by (simp add: get_route_write_def Let_def) (simp add: store_view_def visible_def domIff)
qed

lemma view_hit: "store_view (record_route_hit sig g) = spec_change sig bump_hit (store_view g)"
proof (rule view_change)
  show "dom (hm_get (routes_hot (record_route_hit sig g))) = dom (hm_get (routes_hot g))"
    by (simp add: record_route_hit_def)
qed (rule visible_record_hit)

lemma view_insert:
  assumes "store_wf g"
  shows "store_view (insert_route B sig ixs a q plan g) = spec_step B (Insert sig ixs a q plan) (store_view g)"
proof (cases "visible g sig")
  case None
  have "store_view (index_pair plan sig g') = store_view g'" for g'
    by (simp add: store_view_def) (simp add: index_pair_def split: option.split)
  with None show ?thesis
    using view_push [OF assms] by (simp add: insert_route_new) (simp add: store_view_def)
next
  case (Some t)
  have "store_view (insert_route B sig ixs a q plan g) = spec_change sig (add_variant a ixs) (store_view g)"
  proof (rule view_change)
    show "dom (hm_get (routes_hot (insert_route B sig ixs a q plan g))) = dom (hm_get (routes_hot g))"
      using Some by (auto simp: insert_route_def visible_def simp del: hm_contains_iff)
        (auto simp: hm_simps split: option.splits if_splits)
  qed (simp add: visible_insert_known Some)
  with Some show ?thesis by (simp add: store_view_def)
qed

lemma view_record_hops: "store_view (record_hops plan slot g) = store_view g"
  by (simp add: store_view_def) (simp add: record_hops_def split: option.split)

interpretation store_sim: simulation "store_ok B" store_view "store_step B" "spec_step B" for B
proof
  fix g :: store and op :: store_op
  assume ok: "store_ok B g"
  then show "store_ok B (store_step B op g)" by (rule route_cache.inv_step)
  from ok have "store_wf g" by (auto simp: store_ok_def store_inv_def)
  then show "store_view (store_step B op g) = spec_step B op (store_view g)"
    by (cases op) (simp_all add: view_promote view_hit view_insert view_record_hops del: spec_step.simps(1,3))
qed

lemma store_ok_new: "store_ok B store_new"
  using store_inv_new by (auto simp: store_ok_def)

lemma view_run: "store_view (store_run B ops) = fold (spec_step B) ops spec_new"
proof -
  have "store_view store_new = spec_new"
    by (auto simp: store_view_def spec_new_def fun_eq_iff) (simp add: store_new_def)
  then show ?thesis
    by (simp add: store_run_def store_sim.run_refines [OF store_ok_new])
qed

text \<open>
  Property C13. The route cache refines one forgetful map: after any interleaving of the store's
  critical sections, what a lookup finds, and which routes are in the hot segment, is exactly what
  the segment-free specification computes from the same operations.
\<close>

theorem store_refines_spec:
  "visible (store_run B ops) = sp_routes (fold (spec_step B) ops spec_new) \<and>
   dom (hm_get (routes_hot (store_run B ops))) = sp_young (fold (spec_step B) ops spec_new)"
  unfolding view_run [symmetric] by (simp add: store_view_def)

section \<open>Retention\<close>

text \<open>How many more writes of other routes a route survives, at least.\<close>

definition lifetime :: "u128 \<Rightarrow> route_spec \<Rightarrow> nat" where
  "lifetime sig a =
     (if sp_routes a sig = None then 0
      else (ROUTE_SEG_CAP + 1 - card (sp_young a)) + (if sig \<in> sp_young a then ROUTE_SEG_CAP else 0))"

definition spec_wf :: "route_spec \<Rightarrow> bool" where
  "spec_wf a \<longleftrightarrow> finite (sp_young a) \<and> card (sp_young a) \<le> ROUTE_SEG_CAP \<and> sp_young a \<subseteq> dom (sp_routes a)"

lemma cap_pos [simp]: "0 < ROUTE_SEG_CAP" "ROUTE_SEG_CAP \<noteq> 0" "Suc 0 \<le> ROUTE_SEG_CAP"
  by (simp_all add: ROUTE_SEG_CAP_def)

lemma spec_wf_push: "spec_wf a \<Longrightarrow> spec_wf (spec_push s t a)"
  by (auto simp: spec_wf_def spec_push_def card_insert_if restrict_map_def)

lemma lifetime_push: "spec_wf a \<Longrightarrow> s \<notin> sp_young a \<Longrightarrow> lifetime sig a - 1 \<le> lifetime sig (spec_push s t a)"
  by (auto simp: lifetime_def spec_push_def spec_wf_def restrict_map_def)

lemma lifetime_change [simp]: "lifetime sig (spec_change s f a) = lifetime sig a"
  by (auto simp: lifetime_def spec_change_def)

lemma spec_wf_change: "spec_wf a \<Longrightarrow> spec_wf (spec_change s f a)"
  by (auto simp: spec_wf_def spec_change_def)

lemma lifetime_step:
  "spec_wf a \<Longrightarrow> spec_wf (spec_step B op a) \<and> lifetime sig a - 1 \<le> lifetime sig (spec_step B op a)"
proof (cases op)
  case (Insert s ixs q1 q2 plan)
  assume wf: "spec_wf a"
  show ?thesis
  proof (cases "sp_routes a s")
    case None
    with wf have "s \<notin> sp_young a" by (auto simp: spec_wf_def)
    with None wf Insert lifetime_push [OF wf this] show ?thesis by (simp add: spec_wf_push)
  qed (use wf Insert in \<open>simp add: spec_wf_change\<close>)
next
  case (Promote s)
  assume wf: "spec_wf a"
  with Promote lifetime_push [OF wf, of s sig] show ?thesis
    by (auto simp: spec_wf_push split: option.split)
qed (auto simp: spec_wf_change)

lemma lifetime_run:
  "spec_wf a \<Longrightarrow> lifetime sig a - length ops \<le> lifetime sig (fold (spec_step B) ops a)"
proof (induction ops arbitrary: a)
  case (Cons op ops)
  from lifetime_step [OF Cons.prems, of B op sig] Cons.IH [of "spec_step B op a"]
  show ?case by auto
qed simp

lemma spec_wf_view: "store_wf g \<Longrightarrow> spec_wf (store_view g)"
  by (auto simp: spec_wf_def card_young) (auto simp: store_view_def store_wf_def visible_def split: option.splits)

text \<open>
  Property C14. A route just stored or promoted is not lost early: whatever up to 2000 critical
  sections follow, of any callers and in any order, a route that is in the hot segment is still found.
\<close>

theorem hot_route_retained:
  assumes "hm_get (routes_hot (store_run B ops)) sig \<noteq> None" "length later \<le> 2000"
  shows "visible (store_run B (ops @ later)) sig \<noteq> None"
proof -
  let ?a = "store_view (store_run B ops)"
  have "lifetime sig ?a \<ge> 2001"
    using assms(1) card_young [OF store_run_wf, of B ops] store_run_wf [of B ops]
    by (auto simp: lifetime_def store_view_def store_wf_def visible_def ROUTE_SEG_CAP_def)
  moreover have "fold (spec_step B) later ?a = store_view (store_run B (ops @ later))"
    by (simp add: view_run)
  moreover have "lifetime sig ?a - length later \<le> lifetime sig (fold (spec_step B) later ?a)"
    by (rule lifetime_run [OF spec_wf_view [OF store_run_wf]])
  ultimately have "lifetime sig (store_view (store_run B (ops @ later))) > 0"
    using assms(2) by simp
  then show ?thesis by (auto simp: lifetime_def store_view_def split: if_splits)
qed

theorem hot_route_retained_witness:
  "visible (store_run plain_engine ([Insert 7 (sample_ixs ''AA'') 5 6 JNull] @ [Promote 3, Hit 7])) 7 \<noteq> None"
  by (rule hot_route_retained)
    (simp_all add: store_run_def store_new_def insert_route_def index_pair_def pair_key_def push_hot_route_def
      Let_def hm_simps ROUTE_SEG_CAP_def hm_len_def split: option.split)

end
