(* ===== verification/Rate_Limiter.thy ===== *)
theory Rate_Limiter
  imports Prelude "HOL-Library.Multiset"
begin

text \<open>
  \<open>src/rate_limiter.rs\<close>: the sliding-window limiter in front of the Jito senders. Instants are
  integers in nanoseconds on the monotonic clock; \<open>one_sec\<close> is \<open>Duration::from_secs(1)\<close>. The
  interface \<open>admission_control\<close> states what a submission path needs of a limiter, \<open>sliding_window\<close>
  interprets it on the code.
\<close>

definition one_sec :: int where
  "one_sec = 1000000000"

record rate_limiter =
  max_per_second :: u32
  timestamps :: "int list"

definition rl_new :: "u32 \<Rightarrow> rate_limiter" where
  "rl_new m = \<lparr>max_per_second = m, timestamps = []\<rparr>"

definition try_acquire :: "int \<Rightarrow> rate_limiter \<Rightarrow> bool \<times> rate_limiter" where
  "try_acquire now r =
     (let one_sec_ago = now - one_sec;
          r1 = r\<lparr>timestamps := filter (\<lambda>t. t > one_sec_ago) (timestamps r)\<rparr>
      in if (of_nat (length (timestamps r1)) :: u32) < max_per_second r1
         then (True, r1\<lparr>timestamps := timestamps r1 @ [now]\<rparr>)
         else (False, r1))"

text \<open>A run of calls at the given instants: the instants that were granted, and the final limiter.\<close>

fun acquire_all :: "int list \<Rightarrow> rate_limiter \<Rightarrow> int list \<times> rate_limiter" where
  "acquire_all [] r = ([], r)"
| "acquire_all (t # ts) r =
     (let (ok, r1) = try_acquire t r;
          (gs, r2) = acquire_all ts r1
      in (if ok then t # gs else gs, r2))"

definition in_window :: "int \<Rightarrow> int \<Rightarrow> bool" where
  "in_window now t \<longleftrightarrow> now - one_sec < t \<and> t \<le> now"

section \<open>The interface\<close>

text \<open>
  An admission controller keeps a history of grants in its state: a grant appends the current
  instant, a refusal only happens when the window is full, and a grant only when it is not.
\<close>

locale admission_control =
  fixes inv :: "'s \<Rightarrow> int list \<Rightarrow> int \<Rightarrow> bool"
    and acquire :: "int \<Rightarrow> 's \<Rightarrow> bool \<times> 's"
    and limit :: "'s \<Rightarrow> nat"
  assumes acquire_inv: "inv s h prev \<Longrightarrow> prev \<le> now \<Longrightarrow> acquire now s = (ok, s') \<Longrightarrow>
      inv s' (if ok then h @ [now] else h) now"
    and acquire_iff: "inv s h prev \<Longrightarrow> prev \<le> now \<Longrightarrow> acquire now s = (ok, s') \<Longrightarrow>
      ok \<longleftrightarrow> length (filter (in_window now) h) < limit s"
    and limit_kept: "acquire now s = (ok, s') \<Longrightarrow> limit s' = limit s"
    and hist_le: "inv s h prev \<Longrightarrow> \<forall>t \<in> set h. t \<le> prev"
begin

fun run :: "int list \<Rightarrow> 's \<Rightarrow> int list \<times> 's" where
  "run [] s = ([], s)"
| "run (t # ts) s = (let (ok, s1) = acquire t s; (gs, s2) = run ts s1 in (if ok then t # gs else gs, s2))"

lemma run_inv:
  "inv s h prev \<Longrightarrow> sorted (prev # ts) \<Longrightarrow> run ts s = (gs, s') \<Longrightarrow>
   inv s' (h @ gs) (last (prev # ts)) \<and> limit s' = limit s"
proof (induction ts arbitrary: s h prev gs)
  case (Cons t ts)
  obtain ok s1 gs1 where *: "acquire t s = (ok, s1)" "run ts s1 = (gs1, s')"
      "gs = (if ok then t # gs1 else gs1)"
    using Cons.prems(3) by (auto split: prod.splits)
  have "inv s1 (if ok then h @ [t] else h) t" "limit s1 = limit s"
    using Cons.prems *(1) acquire_inv limit_kept by fastforce+
  with Cons.IH [OF this(1) _ *(2)] Cons.prems(2) *(3) show ?case by (auto split: if_splits)
qed simp

text \<open>No window that ends at or before a later instant ever holds more grants than the limit.\<close>

lemma run_bounded:
  "inv s h prev \<Longrightarrow> sorted (prev # ts) \<Longrightarrow> run ts s = (gs, s') \<Longrightarrow>
   \<forall>w. length (filter (in_window w) h) \<le> limit s \<Longrightarrow>
   \<forall>w. length (filter (in_window w) (h @ gs)) \<le> limit s"
proof (induction ts arbitrary: s h prev gs)
  case (Cons t ts)
  obtain ok s1 gs1 where *: "acquire t s = (ok, s1)" "run ts s1 = (gs1, s')"
      "gs = (if ok then t # gs1 else gs1)"
    using Cons.prems(3) by (auto split: prod.splits)
  have lt: "prev \<le> t" and st: "sorted (t # ts)" using Cons.prems(2) by auto
  let ?h = "if ok then h @ [t] else h"
  have inv1: "inv s1 ?h t" and lim: "limit s1 = limit s"
    using acquire_inv [OF Cons.prems(1) lt *(1)] limit_kept [OF *(1)] by auto
  have "length (filter (in_window w) ?h) \<le> limit s" for w
  proof (cases "ok \<and> in_window w t")
    case True
    have "set (filter (in_window w) h) \<subseteq> {x. in_window t x}"
      using True hist_le [OF Cons.prems(1)] lt by (auto simp: in_window_def)
    then have "filter (in_window w) h = filter (in_window w) (filter (in_window t) h)"
      by (auto simp: filter_filter intro!: filter_cong)
    then have "length (filter (in_window w) h) \<le> length (filter (in_window t) h)"
      by (metis length_filter_le)
    with True acquire_iff [OF Cons.prems(1) lt *(1)] show ?thesis by simp
  next
    case False
    with Cons.prems(4) show ?thesis by auto
  qed
  with Cons.IH [OF inv1 st *(2)] lim *(3) show ?case by (auto split: if_splits)
qed simp

end

section \<open>The sliding window\<close>

text \<open>
  The limiter remembers, of the grants \<open>h\<close> made up to \<open>prev\<close>, those of the second before \<open>prev\<close>;
  older ones are gone, and no window of them can matter again.
\<close>

definition rl_inv :: "rate_limiter \<Rightarrow> int list \<Rightarrow> int \<Rightarrow> bool" where
  "rl_inv r h prev \<longleftrightarrow>
     (\<forall>t \<in> set h. t \<le> prev) \<and>
     filter (\<lambda>t. t > prev - one_sec) (timestamps r) = filter (\<lambda>t. t > prev - one_sec) h \<and>
     length (timestamps r) \<le> unat (max_per_second r)"

lemma rl_inv_filter:
  assumes "rl_inv r h prev" "prev \<le> now"
  shows "filter (\<lambda>t. t > now - one_sec) (timestamps r) = filter (in_window now) h"
proof -
  have "filter (\<lambda>t. t > now - one_sec) xs =
      filter (\<lambda>t. t > now - one_sec) (filter (\<lambda>t. t > prev - one_sec) xs)" for xs :: "int list"
    using assms(2) by (auto simp: filter_filter intro!: filter_cong)
  then have "filter (\<lambda>t. t > now - one_sec) (timestamps r) = filter (\<lambda>t. t > now - one_sec) h"
    using assms(1) by (metis rl_inv_def)
  also have "\<dots> = filter (in_window now) h"
    using assms by (auto simp: rl_inv_def in_window_def intro!: filter_cong)
  finally show ?thesis .
qed

lemma len_u32_less:
  "length ts \<le> unat (m :: u32) \<Longrightarrow> (of_nat (length (filter P ts)) :: u32) < m \<longleftrightarrow> length (filter P ts) < unat m"
proof -
  assume "length ts \<le> unat m"
  then have le: "length (filter P ts) \<le> unat m" using length_filter_le [of P ts] by linarith
  then have "unat (of_nat (length (filter P ts)) :: u32) = length (filter P ts)"
    using unat_bound [of m] by (simp add: unsigned_of_nat take_bit_nat_eq_self)
  then show ?thesis by (simp add: word_less_nat_alt)
qed

interpretation sliding_window: admission_control rl_inv try_acquire "\<lambda>r. unat (max_per_second r)"
proof
  fix s s' :: rate_limiter and h :: "int list" and prev now :: int and ok :: bool
  show "try_acquire now s = (ok, s') \<Longrightarrow> unat (max_per_second s') = unat (max_per_second s)"
    by (auto simp: try_acquire_def Let_def split: if_splits)
  show "rl_inv s h prev \<Longrightarrow> \<forall>t \<in> set h. t \<le> prev" by (simp add: rl_inv_def)
  assume inv: "rl_inv s h prev" and le: "prev \<le> now" and acq: "try_acquire now s = (ok, s')"
  note f = rl_inv_filter [OF inv le]
  have small: "length (timestamps s) \<le> unat (max_per_second s)" using inv by (simp add: rl_inv_def)
  have iff: "ok \<longleftrightarrow> length (filter (in_window now) h) < unat (max_per_second s)"
    using acq len_u32_less [OF small, of "\<lambda>t. t > now - one_sec"]
    by (auto simp: try_acquire_def Let_def f split: if_splits)
  then show "ok \<longleftrightarrow> length (filter (in_window now) h) < unat (max_per_second s)" .
  have ts: "timestamps s' = filter (in_window now) h @ (if ok then [now] else [])"
      and m: "max_per_second s' = max_per_second s"
    using acq by (auto simp: try_acquire_def Let_def f split: if_splits)
  have "length (filter (in_window now) h) \<le> unat (max_per_second s)"
    using small by (simp add: f [symmetric] le_trans [OF length_filter_le])
  moreover have "filter (\<lambda>t. t > now - one_sec) (filter (in_window now) h) = filter (\<lambda>t. t > now - one_sec) h"
    using inv le by (auto simp: filter_filter rl_inv_def in_window_def intro!: filter_cong)
  ultimately show "rl_inv s' (if ok then h @ [now] else h) now"
    using inv le iff by (auto simp: rl_inv_def ts m one_sec_def)
qed

lemma rl_inv_new: "rl_inv (rl_new m) [] t"
  by (simp add: rl_inv_def rl_new_def)

lemma rl_inv_later:
  assumes "rl_inv r h prev" "prev \<le> now"
  shows "rl_inv r h now"
proof -
  have "filter (\<lambda>t. t > now - one_sec) xs =
      filter (\<lambda>t. t > now - one_sec) (filter (\<lambda>t. t > prev - one_sec) xs)" for xs :: "int list"
    using assms(2) by (auto simp: filter_filter intro!: filter_cong)
  then have "filter (\<lambda>t. t > now - one_sec) (timestamps r) = filter (\<lambda>t. t > now - one_sec) h"
    using assms(1) by (metis rl_inv_def)
  with assms show ?thesis by (auto simp: rl_inv_def)
qed

text \<open>One call, for clients that keep the history of grants themselves.\<close>

definition rate_ok :: "u32 \<Rightarrow> rate_limiter \<Rightarrow> int list \<Rightarrow> int \<Rightarrow> bool" where
  "rate_ok m r h now \<longleftrightarrow>
     rl_inv r h now \<and> max_per_second r = m \<and> (\<forall>w. length (filter (in_window w) h) \<le> unat m)"

lemma rate_ok_new: "rate_ok m (rl_new m) [] t"
  by (simp add: rate_ok_def rl_inv_new) (simp add: rl_new_def)

lemma rate_ok_later: "rate_ok m r h prev \<Longrightarrow> prev \<le> now \<Longrightarrow> rate_ok m r h now"
  by (auto simp: rate_ok_def intro: rl_inv_later)

lemma rate_ok_acquire:
  assumes "rate_ok m r h prev" "prev \<le> now" "try_acquire now r = (ok, r')"
  shows "rate_ok m r' (if ok then h @ [now] else h) now"
proof -
  have inv: "rl_inv r h prev" and m: "max_per_second r = m"
    and w: "\<forall>w. length (filter (in_window w) h) \<le> unat (max_per_second r)"
    using assms(1) by (auto simp: rate_ok_def)
  have m': "max_per_second r' = m"
    using assms(3) m by (auto simp: try_acquire_def Let_def split: if_splits)
  have "sorted (prev # [now])" "sliding_window.run [now] r = (if ok then [now] else [], r')"
    using assms(2,3) by simp_all
  from sliding_window.run_bounded [OF inv this w] sliding_window.acquire_inv [OF inv assms(2,3)] m m'
  show ?thesis by (cases ok) (auto simp: rate_ok_def)
qed

lemma acquire_all_run: "acquire_all ts r = sliding_window.run ts r"
  by (induction ts arbitrary: r) (auto split: prod.split)

text \<open>
  Never more than the limit: for calls at non-decreasing instants on a new limiter, no
  one-second window \<open>(w - 1s, w]\<close> whatsoever contains more granted calls than \<open>max_per_second\<close>.
\<close>

theorem try_acquire_rate_bounded:
  assumes "sorted ts"
  shows "length (filter (in_window w) (fst (acquire_all ts (rl_new m)))) \<le> unat m"
proof -
  obtain gs r where run: "sliding_window.run ts (rl_new m) = (gs, r)" by force
  have "sorted ((case ts of [] \<Rightarrow> 0 | t # _ \<Rightarrow> t) # ts)"
    using assms by (cases ts) auto
  from sliding_window.run_bounded [OF rl_inv_new this run] run show ?thesis
    by (simp add: acquire_all_run rl_new_def)
qed

theorem try_acquire_rate_bounded_witness:
  "length (filter (in_window 1000000007)
     (fst (acquire_all [0, 5, 7, 1000000000, 1000000007, 1000000007] (rl_new 2)))) \<le> 2"
  using try_acquire_rate_bounded [of "[0, 5, 7, 1000000000, 1000000007, 1000000007]" 1000000007 2]
  by simp

text \<open>
  Property C26. No slot is wasted: on a limiter with a history of calls at non-decreasing instants,
  a further call is granted exactly when fewer than \<open>max_per_second\<close> of the grants so far lie in the
  second before it.
\<close>

theorem try_acquire_exact:
  assumes "sorted (ts @ [now])"
  shows "fst (try_acquire now (snd (acquire_all ts (rl_new m)))) \<longleftrightarrow>
    length (filter (in_window now) (fst (acquire_all ts (rl_new m)))) < unat m"
proof -
  obtain gs r where run: "sliding_window.run ts (rl_new m) = (gs, r)" by force
  let ?first = "case ts of [] \<Rightarrow> now | t # _ \<Rightarrow> t"
  have s: "sorted (?first # ts)" and l: "last (?first # ts) \<le> now"
    using assms by (auto simp: sorted_append last_in_set split: list.split)
  have inv: "rl_inv r gs (last (?first # ts))" "unat (max_per_second r) = unat m"
    using sliding_window.run_inv [OF rl_inv_new s run] by (auto simp: rl_new_def)
  obtain ok r' where acq: "try_acquire now r = (ok, r')" by force
  from sliding_window.acquire_iff [OF inv(1) l acq] inv(2) show ?thesis
    by (simp add: acquire_all_run run acq)
qed

theorem try_acquire_exact_witness:
  "fst (try_acquire 1000000006 (snd (acquire_all [0, 5, 7] (rl_new 2)))) \<longleftrightarrow>
    length (filter (in_window 1000000006) (fst (acquire_all [0, 5, 7] (rl_new 2)))) < unat (2 :: u32)"
  using try_acquire_exact [of "[0, 5, 7]" 1000000006 2] by simp

end
