(* ===== verification/Bot_Metrics.thy ===== *)
theory Bot_Metrics
  imports Template_Store
begin

text \<open>
  \<open>src/metrics.rs\<close>: the counters every stage of the bot bumps, and the reporter that drains them
  every 30 seconds. The fields are the \<open>AtomicU64\<close> counters of \<open>Metrics\<close> (\<open>queue_depth\<close> is the one
  \<open>AtomicI64\<close>); \<open>fetch_add\<close> wraps, as the words do. A report swaps each counter with 0 and keeps
  the queue gauge.
\<close>

record metrics =
  metis_req_sent :: u64
  metis_resp_total :: u64
  metis_resp_ok :: u64
  swap_ix_ok :: u64
  ix_from_ram :: u64
  ix_from_metis :: u64
  route_template_hit :: u64
  hop_template_all_hit :: u64
  hop_template_missing :: u64
  swap_ix_failed :: u64
  swap_ix_timeout :: u64
  swap_ix_http :: u64
  swap_ix_network :: u64
  swap_ix_parse :: u64
  dropped_multi_hop :: u64
  dropped_merge_fail :: u64
  dropped_no_serve :: u64
  dropped_same_pool :: u64
  queue_in :: u64
  queue_depth :: i64
  dropped_stale :: u64
  tx_build_failed :: u64
  tx_too_large :: u64
  dropped_account_locks :: u64
  calc_done :: u64
  rate_requeued :: u64
  jito_send_failed :: u64
  jito_sent :: u64
  dropped_busy :: u64
  tx_dropped :: u64
  metis_fetch_ms_total :: u64
  metis_fetch_samples :: u64

definition metrics_new :: metrics where
  "metrics_new =
     \<lparr>metis_req_sent = 0, metis_resp_total = 0, metis_resp_ok = 0, swap_ix_ok = 0,
      ix_from_ram = 0, ix_from_metis = 0, route_template_hit = 0, hop_template_all_hit = 0,
      hop_template_missing = 0, swap_ix_failed = 0, swap_ix_timeout = 0, swap_ix_http = 0,
      swap_ix_network = 0, swap_ix_parse = 0, dropped_multi_hop = 0, dropped_merge_fail = 0,
      dropped_no_serve = 0, dropped_same_pool = 0, queue_in = 0, queue_depth = 0,
      dropped_stale = 0, tx_build_failed = 0, tx_too_large = 0, dropped_account_locks = 0,
      calc_done = 0, rate_requeued = 0, jito_send_failed = 0, jito_sent = 0, dropped_busy = 0,
      tx_dropped = 0, metis_fetch_ms_total = 0, metis_fetch_samples = 0\<rparr>"

section \<open>The 30-second report\<close>

text \<open>What \<open>swap(0)\<close> on every counter and \<open>load\<close> of the gauge leave behind.\<close>

definition drain :: "metrics \<Rightarrow> metrics" where
  "drain m = metrics_new\<lparr>queue_depth := queue_depth m\<rparr>"

definition avg_metis_ms :: "metrics \<Rightarrow> u64" where
  "avg_metis_ms m =
     (if metis_fetch_samples m > 0 then metis_fetch_ms_total m div metis_fetch_samples m else 0)"

definition ram_pct :: "metrics \<Rightarrow> u64" where
  "ram_pct m = (if swap_ix_ok m > 0 then ix_from_ram m * 100 div swap_ix_ok m else 0)"

definition string_of_i64 :: "i64 \<Rightarrow> string" where
  "string_of_i64 w =
     (if sint w < 0 then CHR ''-'' # dec_of_nat (nat (- sint w)) else dec_of_nat (nat (sint w)))"

text \<open>\<open>ttl\<close> is the printed form of the queue's maximal age in seconds, a floating-point number.\<close>

definition report_text :: "string \<Rightarrow> metrics \<Rightarrow> store \<Rightarrow> string" where
  "report_text ttl m st =
     (let u = string_of_u64; nl = [char_of (10 :: nat)] in
      ''[30s] metis_sent='' @ u (metis_req_sent m) @ '' routes='' @ u (metis_resp_total m)
      @ '' quoted_profitable='' @ u (metis_resp_ok m) @ nl
      @ ''  TEMPLATE  : route_hit='' @ u (route_template_hit m)
      @ ''  hop_all_hit='' @ u (hop_template_all_hit m) @ ''  hop_miss='' @ u (hop_template_missing m)
      @ ''  routes='' @ dec_of_nat (route_count st)
      @ ''(patchable='' @ dec_of_nat (patchable_route_count st)
      @ '')  hops='' @ dec_of_nat (stored_hop_count st) @ nl
      @ ''  IX-SOURCE : from_ram='' @ u (ix_from_ram m) @ ''  from_metis='' @ u (ix_from_metis m)
      @ ''  ram_pct='' @ u (ram_pct m) @ ''%'' @ nl
      @ ''  FUNNEL    : profitable='' @ u (metis_resp_ok m)
      @ ''  drop_same_pool='' @ u (dropped_same_pool m) @ ''  drop_multi_hop='' @ u (dropped_multi_hop m)
      @ ''  drop_merge='' @ u (dropped_merge_fail m) @ ''  drop_no_serve='' @ u (dropped_no_serve m)
      @ ''  -> swap_ix_ok='' @ u (swap_ix_ok m) @ nl
      @ ''  PRE-QUEUE : swap_ix_ok='' @ u (swap_ix_ok m) @ ''  swap_ix_fail='' @ u (swap_ix_failed m)
      @ '' [timeout='' @ u (swap_ix_timeout m) @ '' http='' @ u (swap_ix_http m)
      @ '' net='' @ u (swap_ix_network m) @ '' parse='' @ u (swap_ix_parse m)
      @ ''] -> queue_in='' @ u (queue_in m) @ ''  (depth_now='' @ string_of_i64 (queue_depth m) @ '')'' @ nl
      @ ''  IN-QUEUE  : stale='' @ u (dropped_stale m) @ '' (waited >'' @ ttl @ ''s)'' @ nl
      @ ''  TX-BUILD  : build_fail='' @ u (tx_build_failed m) @ ''  too_large='' @ u (tx_too_large m)
      @ ''  too_many_locks='' @ u (dropped_account_locks m) @ ''  calc_ok='' @ u (calc_done m) @ nl
      @ ''  JITO      : sent='' @ u (jito_sent m) @ ''  send_fail='' @ u (jito_send_failed m)
      @ ''  waited_for_slot='' @ u (rate_requeued m) @ nl
      @ ''  SWAP-IX   : avg_metis='' @ u (avg_metis_ms m) @ ''ms'')"

text \<open>One tick: print the drained values, leave the zeroed counters.\<close>

definition report_tick :: "string \<Rightarrow> store \<Rightarrow> metrics \<Rightarrow> string \<times> metrics" where
  "report_tick ttl st m = (report_text ttl m st, drain m)"

lemma string_of_i64_examples: "string_of_i64 (- 5) = ''-5''" "string_of_i64 12 = ''12''"
  by code_simp+

end
