(* ===== verification/Token_Metrics.thy ===== *)
theory Token_Metrics
  imports Hash_Map
begin

text \<open>
  \<open>src/token_metrics.rs\<close>: per-token counters, their index, the reporter that snapshots them every
  five minutes into one file and accumulates six windows into another, and the ISO time stamp the
  files carry. \<open>TokenStat\<close> and \<open>TokenSnapshot\<close> have the same fields and share one record.
\<close>

record token_stat =
  mint :: string
  q_sent :: u64
  route_ok :: u64
  route_fail :: u64
  profitable :: u64
  not_profitable :: u64

record token_metrics =
  stats :: "token_stat list"
  index :: "(string, nat) hmap"

definition zero_stat :: "string \<Rightarrow> token_stat" where
  "zero_stat m =
     \<lparr>mint = m, q_sent = 0, route_ok = 0, route_fail = 0, profitable = 0, not_profitable = 0\<rparr>"

text \<open>Collecting pairs into a \<open>HashMap\<close> inserts them in order, so the last position of a mint wins.\<close>

definition token_metrics_new :: "string list \<Rightarrow> token_metrics" where
  "token_metrics_new token_mints =
     (let st = map zero_stat token_mints in
      \<lparr>stats = st,
       index = foldl (\<lambda>m (k, i). hm_insert k i m) [] (zip (map mint st) [0..<length st])\<rparr>)"

text \<open>\<open>get\<close>: the position of the counters of a mint, which its callers then bump.\<close>

definition tm_get :: "token_metrics \<Rightarrow> string \<Rightarrow> nat option" where
  "tm_get tm m =
     (case hm_get (index tm) m of
        Some i \<Rightarrow> (if i < length (stats tm) then Some i else None)
      | None \<Rightarrow> None)"

definition tm_bump :: "nat option \<Rightarrow> (token_stat \<Rightarrow> token_stat) \<Rightarrow> token_metrics \<Rightarrow> token_metrics" where
  "tm_bump ts f tm =
     (case ts of Some i \<Rightarrow> tm\<lparr>stats := (stats tm)[i := f (stats tm ! i)]\<rparr> | None \<Rightarrow> tm)"

section \<open>The reporter\<close>

record reporter =
  window_acc :: "token_stat list"
  windows_done :: u32

definition reporter_new :: "token_metrics \<Rightarrow> reporter" where
  "reporter_new tm = \<lparr>window_acc = map (\<lambda>s. zero_stat (mint s)) (stats tm), windows_done = 0\<rparr>"

definition add_stat :: "token_stat \<Rightarrow> token_stat \<Rightarrow> token_stat" where
  "add_stat a s =
     a\<lparr>q_sent := q_sent a + q_sent s, route_ok := route_ok a + route_ok s,
       route_fail := route_fail a + route_fail s, profitable := profitable a + profitable s,
       not_profitable := not_profitable a + not_profitable s\<rparr>"

text \<open>
  One five-minute tick: the counters are snapshot and zeroed, the snapshot is written to the
  five-minute file and added to the accumulator; the sixth window writes and zeroes the
  accumulator. The result lists the files written: window length and rows.
\<close>

definition reporter_tick ::
    "token_metrics \<Rightarrow> reporter \<Rightarrow> (nat \<times> token_stat list) list \<times> token_metrics \<times> reporter" where
  "reporter_tick tm r =
     (let w = windows_done r + 1;
          snap = stats tm;
          tm' = tm\<lparr>stats := map (\<lambda>s. zero_stat (mint s)) (stats tm)\<rparr>;
          window_acc' = map2 add_stat (window_acc r) snap @ drop (length snap) (window_acc r)
      in if w \<ge> 6
         then ([(5, snap), (30, window_acc')], tm', \<lparr>window_acc = map (\<lambda>s. zero_stat (mint s)) window_acc', windows_done = 0\<rparr>)
         else ([(5, snap)], tm', \<lparr>window_acc = window_acc', windows_done = w\<rparr>))"

section \<open>The files\<close>

text \<open>
  \<open>sort_by\<close> is stable; the comparison is descending in \<open>profitable\<close>, then in \<open>route_ok\<close>, which
  is the lexicographic order of the complements.
\<close>

definition report_order :: "token_stat list \<Rightarrow> token_stat list" where
  "report_order snapshots =
     sort_key (\<lambda>s. - int (unat (profitable s))) (sort_key (\<lambda>s. - int (unat (route_ok s))) snapshots)"

definition json_row :: "token_stat \<Rightarrow> string" where
  "json_row r =
     [char_of (10 :: nat)] @ ''    {\"mint\":\"'' @ mint r @ ''\",\"q_sent\":'' @ string_of_u64 (q_sent r)
     @ '',\"route_ok\":'' @ string_of_u64 (route_ok r) @ '',\"route_fail\":'' @ string_of_u64 (route_fail r)
     @ '',\"profitable\":'' @ string_of_u64 (profitable r)
     @ '',\"not_profitable\":'' @ string_of_u64 (not_profitable r) @ ''}''"

fun push_rows :: "bool \<Rightarrow> token_stat list \<Rightarrow> string" where
  "push_rows first [] = ''''"
| "push_rows first (r # rs) = (if first then [] else '','') @ json_row r @ push_rows False rs"

definition file_json :: "token_stat list \<Rightarrow> string \<Rightarrow> nat \<Rightarrow> string" where
  "file_json snapshots timestamp window_min =
     (let sorted = report_order snapshots;
          total = (\<lambda>f. string_of_u64 (sum_list (map f sorted)));
          nl = [char_of (10 :: nat)]
      in ''{'' @ nl @ ''\"updated_at\": \"'' @ timestamp @ ''\",'' @ nl
         @ ''\"window_minutes\": '' @ dec_of_nat window_min @ '','' @ nl
         @ ''\"total\": {\"q_sent\": '' @ total q_sent @ '',\"route_ok\": '' @ total route_ok
         @ '',\"route_fail\": '' @ total route_fail @ '',\"profitable\": '' @ total profitable
         @ '',\"not_profitable\": '' @ total not_profitable @ ''},'' @ nl
         @ ''\"tokens\": ['' @ push_rows True sorted @ nl @ ''  ]'' @ nl @ ''}'' @ nl)"

section \<open>The time stamp\<close>

definition is_leap :: "nat \<Rightarrow> bool" where
  "is_leap y \<longleftrightarrow> (y mod 4 = 0 \<and> y mod 100 \<noteq> 0) \<or> y mod 400 = 0"

definition year_days :: "nat \<Rightarrow> nat" where
  "year_days y = (if is_leap y then 366 else 365)"

lemma year_days_pos: "0 < year_days y"
  by (simp add: year_days_def)

function year_loop :: "nat \<Rightarrow> nat \<Rightarrow> nat \<times> nat" where
  "year_loop year days =
     (if days < year_days year then (year, days) else year_loop (year + 1) (days - year_days year))"
  by pat_completeness auto
termination
  by (relation "measure snd") (auto simp: year_days_def)

declare year_loop.simps [simp del]

definition month_days :: "nat \<Rightarrow> nat list" where
  "month_days year =
     (if is_leap year then [31, 29, 31, 30, 31, 30, 31, 31, 30, 31, 30, 31]
      else [31, 28, 31, 30, 31, 30, 31, 31, 30, 31, 30, 31])"

fun month_loop :: "nat list \<Rightarrow> nat \<Rightarrow> nat \<Rightarrow> nat \<times> nat" where
  "month_loop [] month days = (month, days)"
| "month_loop (dm # ms) month days =
     (if days < dm then (month, days) else month_loop ms (month + 1) (days - dm))"

definition epoch_days_to_ymd :: "nat \<Rightarrow> nat \<times> nat \<times> nat" where
  "epoch_days_to_ymd days =
     (let (year, d) = year_loop 1970 days;
          (month, d') = month_loop (month_days year) 1 d
      in (year, month, d' + 1))"

definition pad0 :: "nat \<Rightarrow> nat \<Rightarrow> string" where
  "pad0 w n = (let s = dec_of_nat n in replicate (w - length s) (CHR ''0'') @ s)"

definition now_iso :: "nat \<Rightarrow> string" where
  "now_iso total_secs =
     (let s = total_secs mod 60; m = (total_secs div 60) mod 60; h = (total_secs div 3600) mod 24;
          (year, month, day) = epoch_days_to_ymd (total_secs div 86400)
      in pad0 4 year @ ''-'' @ pad0 2 month @ ''-'' @ pad0 2 day @ ''T''
         @ pad0 2 h @ '':'' @ pad0 2 m @ '':'' @ pad0 2 s @ ''Z'')"

end
