(* ===== verification/Quote_Check.thy ===== *)
theory Quote_Check
  imports Routes Bot_Metrics Token_Metrics
begin

text \<open>
  Stage 1 of \<open>src/arbitrage.rs\<close>: \<open>quote_check\<close> asks for the two legs of a round trip and keeps the
  pair when it clears the gross-profit threshold and the route filters. The replies of the two
  requests are the arguments \<open>http1\<close> and \<open>http2\<close> (the second request is only sent after the
  first). The counters are threaded through; each is bumped once, so the order in which other
  checks bump them between two awaits does not matter to the sums.
\<close>

definition WSOL_MINT :: string where
  "WSOL_MINT = ''So11111111111111111111111111111111111111112''"

definition JITO_TIP_LAMPORTS :: u64 where
  "JITO_TIP_LAMPORTS = 1600"

definition NETWORK_FEE_LAMPORTS :: u64 where
  "NETWORK_FEE_LAMPORTS = 5000"

record quote_pair =
  qp_token_mint :: string
  qp_amount :: u64
  qp_output_wsol :: u64
  qp_net_profit :: i64
  qp_quote1 :: quote_response
  qp_quote2 :: quote_response
  qp_hop_count :: nat
  qp_only_direct :: bool
  qp_is_pmm :: bool

type_synonym quote_http = "string \<Rightarrow> http_send_error + quote_response http_response"

text \<open>The two counter sets a check updates.\<close>

type_synonym counters = "metrics \<times> token_metrics"

abbreviation bump_ts :: "nat option \<Rightarrow> (token_stat \<Rightarrow> token_stat) \<Rightarrow> counters \<Rightarrow> counters" where
  "bump_ts ts f c \<equiv> (fst c, tm_bump ts f (snd c))"

definition inc_route_fail :: "token_stat \<Rightarrow> token_stat" where
  "inc_route_fail s = s\<lparr>route_fail := route_fail s + 1\<rparr>"

definition inc_not_profitable :: "token_stat \<Rightarrow> token_stat" where
  "inc_not_profitable s = s\<lparr>not_profitable := not_profitable s + 1\<rparr>"

text \<open>What is left after both quotes arrived: the profit gate, the filters, the result.\<close>

definition judge_pair ::
    "string \<Rightarrow> u64 \<Rightarrow> bool \<Rightarrow> u64 \<Rightarrow> nat option \<Rightarrow> quote_response \<Rightarrow> quote_response \<Rightarrow> counters \<Rightarrow>
     quote_pair option \<times> counters" where
  "judge_pair token_mint amount only_direct min_profit_lamports ts quote1 quote2 c =
     (let output_wsol = (case parse_u64 (out_amount quote2) of Some v \<Rightarrow> v | None \<Rightarrow> 0);
          m = (fst c)\<lparr>metis_resp_total := metis_resp_total (fst c) + 1\<rparr>;
          tm = tm_bump ts (\<lambda>s. s\<lparr>route_ok := route_ok s + 1\<rparr>) (snd c);
          stage1_threshold = saturating_add amount min_profit_lamports
      in
      if output_wsol \<le> stage1_threshold then (None, (m, tm_bump ts inc_not_profitable tm))
      else if route_uses_forbidden_dex quote1 \<or> route_uses_forbidden_dex quote2
      then (None, (m, tm_bump ts inc_not_profitable tm))
      else if routes_share_pool quote1 quote2
      then (None, (m\<lparr>dropped_same_pool := dropped_same_pool m + 1\<rparr>, tm_bump ts inc_not_profitable tm))
      else
        (let tm' = tm_bump ts (\<lambda>s. s\<lparr>profitable := profitable s + 1\<rparr>) tm;
             is_pmm = (route_uses_pmm quote1 \<or> route_uses_pmm quote2);
             hop_count = plan_hops quote1 + plan_hops quote2;
             m' = m\<lparr>metis_resp_ok := metis_resp_ok m + 1\<rparr>;
             on_chain_floor = saturating_add (saturating_add amount JITO_TIP_LAMPORTS) NETWORK_FEE_LAMPORTS;
             net_profit = output_wsol - on_chain_floor
         in (Some \<lparr>qp_token_mint = token_mint, qp_amount = amount, qp_output_wsol = output_wsol,
                   qp_net_profit = net_profit, qp_quote1 = quote1, qp_quote2 = quote2,
                   qp_hop_count = hop_count, qp_only_direct = only_direct, qp_is_pmm = is_pmm\<rparr>,
             (m', tm'))))"

definition quote_check ::
    "metis_client \<Rightarrow> quote_http \<Rightarrow> quote_http \<Rightarrow> string \<Rightarrow> u64 \<Rightarrow> bool \<Rightarrow> u64 \<Rightarrow> counters \<Rightarrow>
     quote_pair option \<times> counters" where
  "quote_check metis http1 http2 token_mint amount only_direct min_profit_lamports c0 =
     (let m0 = (fst c0)\<lparr>metis_req_sent := metis_req_sent (fst c0) + 2\<rparr>;
          ts = tm_get (snd c0) token_mint;
          c = (m0, tm_bump ts (\<lambda>s. s\<lparr>q_sent := q_sent s + 2\<rparr>) (snd c0))
      in case get_quote http1 metis WSOL_MINT token_mint amount only_direct of
           Inl _ \<Rightarrow> (None, bump_ts ts inc_route_fail c)
         | Inr quote1 \<Rightarrow>
             (case (case parse_u64 (out_amount quote1) of
                      Some v \<Rightarrow> if v > 0 then Some v else None | None \<Rightarrow> None) of
                None \<Rightarrow> (None, bump_ts ts inc_route_fail c)
              | Some token_amount \<Rightarrow>
                  (case get_quote http2 metis token_mint WSOL_MINT token_amount only_direct of
                     Inl _ \<Rightarrow> (None, bump_ts ts inc_route_fail c)
                   | Inr quote2 \<Rightarrow>
                       judge_pair token_mint amount only_direct min_profit_lamports ts quote1 quote2 c)))"

end
