(* ===== verification/Pipeline.thy ===== *)
theory Pipeline
  imports Quote_Check
begin

text \<open>
  The stage-2 data of \<open>src/arbitrage.rs\<close> and the scanner's handling of one profitable pair: the
  LIFO queue with its semaphore, and the three tiers that turn a pair into a queued instruction
  (serve from RAM by signature, serve by hop pair, ask Metis). \<open>world\<close> is the state the scanner
  and its spawned Metis requests share; \<open>now\<close> is the instant of the push. A spawned request is a
  \<open>fetch_task\<close>; \<open>finish_fetch\<close> is the rest of its body once the reply is there.
\<close>

record ready_instruction =
  ri_swap_ixs :: swap_instructions_response
  ri_hop_count :: nat
  ri_arrived_at :: int
  ri_waited_for_slot :: bool

record template_cache_config =
  tc_save_new :: bool
  tc_serve_route :: bool
  tc_serve_from_metis :: bool

record fetch_task =
  ft_merged :: quote_response
  ft_sig :: u128
  ft_amount :: u64
  ft_floor :: u64
  ft_hop_count :: nat
  ft_context_slot :: "u64 option"
  ft_save_new :: bool

record world =
  w_metrics :: metrics
  w_store :: store
  w_lifo :: "ready_instruction list"
  w_permits :: nat
  w_tasks :: "fetch_task list"

definition world_new :: "store \<Rightarrow> world" where
  "world_new st = \<lparr>w_metrics = metrics_new, w_store = st, w_lifo = [], w_permits = 0, w_tasks = []\<rparr>"

abbreviation upd_metrics :: "(metrics \<Rightarrow> metrics) \<Rightarrow> world \<Rightarrow> world" where
  "upd_metrics f w \<equiv> w\<lparr>w_metrics := f (w_metrics w)\<rparr>"

section \<open>The queue\<close>

definition new_item :: "int \<Rightarrow> swap_instructions_response \<Rightarrow> nat \<Rightarrow> ready_instruction" where
  "new_item now ixs hop_count =
     \<lparr>ri_swap_ixs = ixs, ri_hop_count = hop_count, ri_arrived_at = now, ri_waited_for_slot = False\<rparr>"

definition push_to_queue :: "int \<Rightarrow> swap_instructions_response \<Rightarrow> nat \<Rightarrow> world \<Rightarrow> world" where
  "push_to_queue now ixs hop_count w =
     (let w1 = w\<lparr>w_lifo := w_lifo w @ [new_item now ixs hop_count]\<rparr>;
          w2 = upd_metrics (\<lambda>m. m\<lparr>queue_in := queue_in m + 1, queue_depth := queue_depth m + 1\<rparr>) w1
      in w2\<lparr>w_permits := w_permits w2 + 1\<rparr>)"

section \<open>The tiers\<close>

definition serve_from_ram ::
    "int \<Rightarrow> u128 \<Rightarrow> swap_instructions_response \<Rightarrow> nat \<Rightarrow> world \<Rightarrow> world" where
  "serve_from_ram now sig patched hop_count w =
     (let w1 = upd_metrics (\<lambda>m. m\<lparr>route_template_hit := route_template_hit m + 1,
                  ix_from_ram := ix_from_ram m + 1, swap_ix_ok := swap_ix_ok m + 1\<rparr>) w;
          w2 = w1\<lparr>w_store := record_route_hit sig (w_store w1)\<rparr>
      in push_to_queue now patched hop_count w2)"

text \<open>A tier answers whether it served the pair (\<open>continue\<close> in the code).\<close>

definition tier1 ::
    "base64_engine \<Rightarrow> template_cache_config \<Rightarrow> int \<Rightarrow> u128 \<Rightarrow> u64 \<Rightarrow> u64 \<Rightarrow> nat \<Rightarrow> world \<Rightarrow> bool \<times> world" where
  "tier1 B tc now sig amount on_chain_floor hop_count w =
     (if \<not> tc_serve_route tc then (False, w)
      else
        (case get_route sig (w_store w) of
           (None, st) \<Rightarrow> (False, w\<lparr>w_store := st\<rparr>)
         | (Some tmpl, st) \<Rightarrow>
             (case serve_route B tmpl amount on_chain_floor of
                Some patched \<Rightarrow> (True, serve_from_ram now sig patched hop_count (w\<lparr>w_store := st\<rparr>))
              | None \<Rightarrow> (False, w\<lparr>w_store := st\<rparr>))))"

definition tier2 ::
    "base64_engine \<Rightarrow> template_cache_config \<Rightarrow> int \<Rightarrow> json \<Rightarrow> u64 \<Rightarrow> u64 \<Rightarrow> nat \<Rightarrow> world \<Rightarrow> bool \<times> world" where
  "tier2 B tc now plan amount on_chain_floor hop_count w =
     (case check_hops plan (w_store w) of
        (all_hit, missing) \<Rightarrow>
          if all_hit then
            (let w1 = upd_metrics (\<lambda>m. m\<lparr>hop_template_all_hit := hop_template_all_hit m + 1\<rparr>) w in
             if \<not> tc_serve_route tc then (False, w1)
             else
               (case get_route_for_hops plan (w_store w1) of
                  (None, st) \<Rightarrow> (False, w1\<lparr>w_store := st\<rparr>)
                | (Some tmpl, st) \<Rightarrow>
                    (case serve_route B tmpl amount on_chain_floor of
                       Some patched \<Rightarrow>
                         (True, serve_from_ram now (rt_signature tmpl) patched hop_count (w1\<lparr>w_store := st\<rparr>))
                     | None \<Rightarrow> (False, w1\<lparr>w_store := st\<rparr>))))
          else if missing > 0 then
            (False, upd_metrics (\<lambda>m. m\<lparr>hop_template_missing := hop_template_missing m + of_nat missing\<rparr>) w)
          else (False, w))"

definition tier3 ::
    "template_cache_config \<Rightarrow> u128 \<Rightarrow> quote_response \<Rightarrow> u64 \<Rightarrow> u64 \<Rightarrow> nat \<Rightarrow> world \<Rightarrow> world" where
  "tier3 tc sig merged amount on_chain_floor hop_count w =
     (if \<not> tc_serve_from_metis tc
      then upd_metrics (\<lambda>m. m\<lparr>dropped_no_serve := dropped_no_serve m + 1, tx_dropped := tx_dropped m + 1\<rparr>) w
      else
        (let w1 = upd_metrics (\<lambda>m. m\<lparr>metis_req_sent := metis_req_sent m + 1\<rparr>) w
         in w1\<lparr>w_tasks := w_tasks w1 @
              [\<lparr>ft_merged = merged, ft_sig = sig, ft_amount = amount, ft_floor = on_chain_floor,
                ft_hop_count = hop_count, ft_context_slot = context_slot merged,
                ft_save_new = tc_save_new tc\<rparr>]\<rparr>))"

text \<open>\<open>on_chain_floor\<close> is plain \<open>u64\<close> addition here, saturating in \<open>quote_check\<close>.\<close>

definition floor_of :: "u64 \<Rightarrow> u64" where
  "floor_of amount = amount + JITO_TIP_LAMPORTS + NETWORK_FEE_LAMPORTS"

definition dispatch_pair ::
    "base64_engine \<Rightarrow> template_cache_config \<Rightarrow> int \<Rightarrow> quote_pair \<Rightarrow> world \<Rightarrow> world" where
  "dispatch_pair B tc now pair w =
     (let on_chain_floor = floor_of (qp_amount pair) in
      if qp_only_direct pair \<and> qp_hop_count pair \<noteq> 2
      then upd_metrics (\<lambda>m. m\<lparr>dropped_multi_hop := dropped_multi_hop m + 1, tx_dropped := tx_dropped m + 1\<rparr>) w
      else
        (case merge_quotes (qp_quote1 pair) (qp_quote2 pair) on_chain_floor of
           Inl _ \<Rightarrow>
             upd_metrics (\<lambda>m. m\<lparr>dropped_merge_fail := dropped_merge_fail m + 1, tx_dropped := tx_dropped m + 1\<rparr>) w
         | Inr merged \<Rightarrow>
             (let hop_count = qp_hop_count pair; amount = qp_amount pair;
                  sig = route_sig (route_plan merged)
              in case tier1 B tc now sig amount on_chain_floor hop_count w of
                   (True, w1) \<Rightarrow> w1
                 | (False, w1) \<Rightarrow>
                     (case tier2 B tc now (route_plan merged) amount on_chain_floor hop_count w1 of
                        (True, w2) \<Rightarrow> w2
                      | (False, w2) \<Rightarrow> tier3 tc sig merged amount on_chain_floor hop_count w2))))"

section \<open>The spawned request\<close>

definition count_swap_error :: "swap_ix_error \<Rightarrow> metrics \<Rightarrow> metrics" where
  "count_swap_error e m =
     (let m1 = m\<lparr>swap_ix_failed := swap_ix_failed m + 1, tx_dropped := tx_dropped m + 1\<rparr> in
      case e of
        Timeout \<Rightarrow> m1\<lparr>swap_ix_timeout := swap_ix_timeout m1 + 1\<rparr>
      | Http _ \<Rightarrow> m1\<lparr>swap_ix_http := swap_ix_http m1 + 1\<rparr>
      | Network \<Rightarrow> m1\<lparr>swap_ix_network := swap_ix_network m1 + 1\<rparr>
      | Parse \<Rightarrow> m1\<lparr>swap_ix_parse := swap_ix_parse m1 + 1\<rparr>)"

definition finish_fetch ::
    "base64_engine \<Rightarrow> int \<Rightarrow> u64 \<Rightarrow> swap_ix_error + swap_instructions_response \<Rightarrow> fetch_task \<Rightarrow>
     world \<Rightarrow> world" where
  "finish_fetch B now fetch_ms result t w =
     (case result of
        Inl e \<Rightarrow> upd_metrics (count_swap_error e) w
      | Inr swap_ixs \<Rightarrow>
          (let w1 = upd_metrics (\<lambda>m. m\<lparr>metis_fetch_ms_total := metis_fetch_ms_total m + fetch_ms,
                       metis_fetch_samples := metis_fetch_samples m + 1,
                       swap_ix_ok := swap_ix_ok m + 1, ix_from_metis := ix_from_metis m + 1\<rparr>) w;
               plan = route_plan (ft_merged t);
               w2 = (if ft_save_new t
                     then w1\<lparr>w_store := record_hops plan (ft_context_slot t)
                            (insert_route B (ft_sig t) swap_ixs (ft_amount t) (ft_floor t) plan (w_store w1))\<rparr>
                     else w1)
           in push_to_queue now swap_ixs (ft_hop_count t) w2))"

section \<open>The enumeration of a scan\<close>

text \<open>
  The \<open>while\<close> loop over amounts: it wraps like the code, and a loop that never ends has the value
  \<open>None\<close>. The three amounts are the configured ones converted to lamports.
\<close>

definition amount_entries :: "string list \<Rightarrow> u64 \<Rightarrow> (u64 \<times> string \<times> bool) list" where
  "amount_entries token_mints amount =
     concat (map (\<lambda>t. [(amount, t, False), (amount, t, True)]) token_mints)"

partial_function (option) scan_loop ::
    "string list \<Rightarrow> u64 \<Rightarrow> u64 \<Rightarrow> u64 \<Rightarrow> (u64 \<times> string \<times> bool) list \<Rightarrow> (u64 \<times> string \<times> bool) list option" where
  "scan_loop token_mints max_lamports step_lamports amount pairs =
     (if amount \<le> max_lamports
      then scan_loop token_mints max_lamports step_lamports (amount + step_lamports)
             (pairs @ amount_entries token_mints amount)
      else Some pairs)"

definition scan_pairs :: "string list \<Rightarrow> u64 \<Rightarrow> u64 \<Rightarrow> u64 \<Rightarrow> (u64 \<times> string \<times> bool) list option" where
  "scan_pairs token_mints min_lamports max_lamports step_lamports =
     scan_loop token_mints max_lamports step_lamports min_lamports []"

definition max_concurrent :: "nat \<Rightarrow> nat \<Rightarrow> nat" where
  "max_concurrent configured n_pairs = min (max configured 1) (max n_pairs 1)"

text \<open>
  The consuming loop: results arrive in whatever order the buffered checks complete, each with the
  instant of its handling.
\<close>

fun consume_results ::
    "base64_engine \<Rightarrow> template_cache_config \<Rightarrow> (int \<times> quote_pair option) list \<Rightarrow> world \<Rightarrow> world" where
  "consume_results B tc [] w = w"
| "consume_results B tc ((now, result) # rs) w =
     (case result of
        Some pair \<Rightarrow> consume_results B tc rs (dispatch_pair B tc now pair w)
      | None \<Rightarrow> consume_results B tc rs w)"

end
