(* ===== verification/Pipeline_Properties.thy ===== *)
theory Pipeline_Properties
  imports Pipeline Serving
begin

text \<open>
  What the scanner guarantees: the funnel accounts for every profitable pair, an instruction served
  from RAM enforces the on-chain floor, and the enumeration of a scan is complete and ends for
  every step that cannot wrap.
\<close>

section \<open>Runs of the scanner and its requests\<close>

datatype scan_event =
    Pair int quote_pair
  | Fetched nat int u64 "swap_ix_error + swap_instructions_response"

text \<open>Handling a pair, or the reply to the \<open>i\<close>-th outstanding request; in any order.\<close>

fun scan_step :: "base64_engine \<Rightarrow> template_cache_config \<Rightarrow> scan_event \<Rightarrow> world \<Rightarrow> world" where
  "scan_step B tc (Pair now p) w = dispatch_pair B tc now p w"
| "scan_step B tc (Fetched i now ms r) w =
     (if i < length (w_tasks w)
      then finish_fetch B now ms r (w_tasks w ! i)
             (w\<lparr>w_tasks := take i (w_tasks w) @ drop (Suc i) (w_tasks w)\<rparr>)
      else w)"

definition scan_run :: "base64_engine \<Rightarrow> template_cache_config \<Rightarrow> store \<Rightarrow> scan_event list \<Rightarrow> world" where
  "scan_run B tc st evs = fold (scan_step B tc) evs (world_new st)"

fun is_pair :: "scan_event \<Rightarrow> bool" where
  "is_pair (Pair _ _) = True"
| "is_pair (Fetched _ _ _ _) = False"

section \<open>The funnel\<close>

text \<open>
  After \<open>n\<close> profitable pairs: each was dropped for one counted reason, was served from RAM, was
  served by Metis, failed at Metis, or is still waiting for its reply. The other counters are the
  sums the report shows, and the queue, its gauge and its semaphore agree.
\<close>

definition funnel :: "nat \<Rightarrow> world \<Rightarrow> bool" where
  "funnel n w \<longleftrightarrow> (let m = w_metrics w in
     of_nat n = dropped_multi_hop m + dropped_merge_fail m + dropped_no_serve m + ix_from_ram m
       + ix_from_metis m + swap_ix_failed m + of_nat (length (w_tasks w)) \<and>
     swap_ix_ok m = ix_from_ram m + ix_from_metis m \<and>
     route_template_hit m = ix_from_ram m \<and> metis_fetch_samples m = ix_from_metis m \<and>
     swap_ix_failed m = swap_ix_timeout m + swap_ix_http m + swap_ix_network m + swap_ix_parse m \<and>
     tx_dropped m = dropped_multi_hop m + dropped_merge_fail m + dropped_no_serve m + swap_ix_failed m \<and>
     queue_in m = ix_from_ram m + ix_from_metis m \<and>
     queue_depth m = ix_from_ram m + ix_from_metis m \<and>
     of_nat (length (w_lifo w)) = ix_from_ram m + ix_from_metis m \<and>
     w_permits w = length (w_lifo w))"

lemma funnel_new: "funnel 0 (world_new st)"
  by (simp add: funnel_def world_new_def metrics_new_def)

lemma funnel_store [simp]: "funnel n (w\<lparr>w_store := st\<rparr>) = funnel n w"
  by (simp add: funnel_def)

lemma funnel_hop_counters [simp]:
  "funnel n (w\<lparr>w_metrics := m\<lparr>hop_template_all_hit := x\<rparr>\<rparr>) = funnel n (w\<lparr>w_metrics := m\<rparr>)"
  "funnel n (w\<lparr>w_metrics := m\<lparr>hop_template_missing := x\<rparr>\<rparr>) = funnel n (w\<lparr>w_metrics := m\<rparr>)"
  by (simp_all add: funnel_def)

lemma world_same_metrics [simp]: "w\<lparr>w_metrics := w_metrics w\<rparr> = w"
  by simp

lemma funnel_serve_from_ram: "funnel n w \<Longrightarrow> funnel (Suc n) (serve_from_ram now sig r h w)"
  by (simp add: funnel_def serve_from_ram_def push_to_queue_def Let_def algebra_simps)

lemma funnel_tier1:
  "funnel n w \<Longrightarrow> tier1 B tc now sig a fl h w = (b, w') \<Longrightarrow> funnel (if b then Suc n else n) w'"
  by (auto simp: tier1_def funnel_serve_from_ram split: if_splits prod.splits option.splits)

lemma funnel_tier2:
  "funnel n w \<Longrightarrow> tier2 B tc now plan a fl h w = (b, w') \<Longrightarrow> funnel (if b then Suc n else n) w'"
  by (auto simp: tier2_def Let_def funnel_serve_from_ram split: if_splits prod.splits option.splits)

lemma funnel_tier3: "funnel n w \<Longrightarrow> funnel (Suc n) (tier3 tc sig q a fl h w)"
  by (simp add: funnel_def tier3_def Let_def algebra_simps)

lemma funnel_drop:
  assumes "funnel n w"
  shows "funnel (Suc n) (upd_metrics (\<lambda>m. m\<lparr>dropped_multi_hop := dropped_multi_hop m + 1, tx_dropped := tx_dropped m + 1\<rparr>) w)"
    "funnel (Suc n) (upd_metrics (\<lambda>m. m\<lparr>dropped_merge_fail := dropped_merge_fail m + 1, tx_dropped := tx_dropped m + 1\<rparr>) w)"
  using assms by (simp_all add: funnel_def Let_def algebra_simps)

lemma funnel_dispatch:
  assumes "funnel n w"
  shows "funnel (Suc n) (dispatch_pair B tc now p w)"
proof (cases "merge_quotes (qp_quote1 p) (qp_quote2 p) (floor_of (qp_amount p))")
  case (Inl e)
  with funnel_drop [OF assms] show ?thesis by (simp add: dispatch_pair_def Let_def)
next
  case (Inr q)
  let ?a = "qp_amount p" and ?h = "qp_hop_count p" and ?sig = "route_sig (route_plan q)"
  obtain b1 w1 where t1: "tier1 B tc now ?sig ?a (floor_of ?a) ?h w = (b1, w1)" by force
  obtain b2 w2 where t2: "tier2 B tc now (route_plan q) ?a (floor_of ?a) ?h w1 = (b2, w2)" by force
  note f1 = funnel_tier1 [OF assms t1]
  have f2: "\<not> b1 \<Longrightarrow> funnel (if b2 then Suc n else n) w2"
    using funnel_tier2 [OF _ t2] f1 by auto
  have "funnel (Suc n) (case (b1, w1) of (True, w1) \<Rightarrow> w1
      | (False, w1) \<Rightarrow> (case (b2, w2) of (True, w2) \<Rightarrow> w2
      | (False, w2) \<Rightarrow> tier3 tc ?sig q ?a (floor_of ?a) ?h w2))"
    using f1 f2 by (cases b1; cases b2) (simp_all add: funnel_tier3)
  then show ?thesis
    using funnel_drop [OF assms] by (cases b1) (simp_all add: dispatch_pair_def Let_def Inr t1 t2)
qed

lemma funnel_finish:
  assumes "funnel n w" "length (w_tasks w) = Suc (length ts)"
  shows "funnel n (finish_fetch B now ms r t (w\<lparr>w_tasks := ts\<rparr>))"
proof (cases r)
  case (Inl e)
  with assms show ?thesis
    by (cases e) (simp_all add: funnel_def finish_fetch_def count_swap_error_def Let_def algebra_simps)
next
  case (Inr x)
  with assms show ?thesis
    by (simp add: funnel_def finish_fetch_def push_to_queue_def Let_def algebra_simps)
qed

lemma length_take_drop: "i < length xs \<Longrightarrow> length xs = Suc (length (take i xs @ drop (Suc i) xs))"
  by simp

text \<open>
  The funnel accounts for every opportunity: whatever pairs are dispatched and in
  whatever order the Metis replies come back, each pair is counted exactly once as dropped (too
  many hops, unmergeable, not servable), served from RAM, served by Metis, failed at Metis, or is
  an outstanding request; the failure reasons add up, every served instruction entered the queue,
  and the queue's length, gauge and semaphore agree. (Counters are modulo \<open>2^64\<close>.)
\<close>

theorem scan_funnel:
  "funnel (length (filter is_pair evs)) (scan_run B tc st evs)"
proof -
  have "funnel (n + length (filter is_pair evs)) (fold (scan_step B tc) evs w)" if "funnel n w" for n w
    using that
  proof (induction evs arbitrary: n w)
    case (Cons ev evs)
    have "funnel (if is_pair ev then Suc n else n) (scan_step B tc ev w)"
      using Cons.prems by (cases ev) (auto simp: funnel_dispatch simp del: length_append length_take length_drop
          intro!: funnel_finish length_take_drop)
    from Cons.IH [OF this] show ?case by (cases ev) simp_all
  qed simp
  from this [OF funnel_new] show ?thesis by (simp add: scan_run_def)
qed

section \<open>The on-chain floor\<close>

text \<open>
  The instructions Metis built so far: signature, instruction, amount and floor of each answered
  request.
\<close>

fun reply_log :: "scan_event \<Rightarrow> world \<Rightarrow> insert_log \<Rightarrow> insert_log" where
  "reply_log (Fetched i now ms (Inr ixs)) w L =
     (if i < length (w_tasks w)
      then (let t = w_tasks w ! i in insert (ft_sig t, ixs, ft_amount t, ft_floor t) L) else L)"
| "reply_log _ w L = L"

fun scan_logged ::
    "base64_engine \<Rightarrow> template_cache_config \<Rightarrow> scan_event list \<Rightarrow> world \<times> insert_log \<Rightarrow> world \<times> insert_log" where
  "scan_logged B tc [] wl = wl"
| "scan_logged B tc (ev # evs) (w, L) = scan_logged B tc evs (scan_step B tc ev w, reply_log ev w L)"

lemma scan_logged_run: "fst (scan_logged B tc evs (w, L)) = fold (scan_step B tc) evs w"
  by (induction evs arbitrary: w L) auto

definition floor_inv :: "base64_engine \<Rightarrow> world \<times> insert_log \<Rightarrow> bool" where
  "floor_inv B = (\<lambda>(w, L).
     store_inv B L (w_store w) \<and> (\<forall>(sig, ixs, a, q) \<in> L. q = floor_of a) \<and>
     (\<forall>t \<in> set (w_tasks w). ft_floor t = floor_of (ft_amount t)))"

lemma get_route_store: "snd (get_route sig g) = g \<or> snd (get_route sig g) = snd (get_route_write sig g)"
  by (auto simp: get_route_def split: option.split)

lemma store_inv_get_route: "store_inv B L g \<Longrightarrow> store_inv B L (snd (get_route sig g))"
  using get_route_store [of sig g] by (auto simp: store_inv_promote)

lemma get_route_tmpl_ok:
  assumes "store_inv B L g" "get_route sig g = (Some t, g')"
  shows "tmpl_ok B L sig t"
proof -
  have wf: "store_wf g" using assms(1) by (simp add: store_inv_def)
  have "(\<exists>u. visible g sig = Some u \<and> (t = u \<or> t = bump_hit u))"
  proof (cases "get_route_read sig g")
    case (Some r)
    with get_route_read_visible [OF Some] assms(2) show ?thesis by (auto simp: get_route_def)
  next
    case None
    with assms(2) have "fst (get_route_write sig g) = Some t" by (simp add: get_route_def)
    with get_route_write_result [OF wf, of sig] show ?thesis
      by (cases "visible g sig") (auto split: if_splits)
  qed
  with assms(1) show ?thesis by (auto simp: store_inv_def)
qed

lemma get_route_for_hops_cases:
  "get_route_for_hops plan g = (None, g) \<or> (\<exists>sig. get_route_for_hops plan g = get_route sig g)"
  by (auto simp: get_route_for_hops_def split: option.split)

lemma store_inv_for_hops: "store_inv B L g \<Longrightarrow> store_inv B L (snd (get_route_for_hops plan g))"
  using get_route_for_hops_cases [of plan g] by (auto simp: store_inv_get_route)

lemma for_hops_tmpl_ok:
  "store_inv B L g \<Longrightarrow> get_route_for_hops plan g = (Some t, g') \<Longrightarrow> \<exists>sig. tmpl_ok B L sig t"
  using get_route_for_hops_cases [of plan g] by (metis Pair_inject get_route_tmpl_ok option.distinct(1))

text \<open>The parts of the world a served instruction and a passed tier leave behind.\<close>

lemma serve_from_ram_simps [simp]:
  "w_store (serve_from_ram now sig r h w) = record_route_hit sig (w_store w)"
  "w_lifo (serve_from_ram now sig r h w) = w_lifo w @ [new_item now r h]"
  "w_tasks (serve_from_ram now sig r h w) = w_tasks w"
  by (simp_all add: serve_from_ram_def push_to_queue_def Let_def)

text \<open>What an instruction served from RAM for an amount is: a reply for it, or a patched reply.\<close>

definition enforces_floor ::
    "base64_engine \<Rightarrow> insert_log \<Rightarrow> u64 \<Rightarrow> swap_instructions_response \<Rightarrow> bool" where
  "enforces_floor B L a r \<longleftrightarrow>
     (\<exists>sig. (sig, r, a, floor_of a) \<in> L) \<or>
     (\<exists>sig base a0 d d' i. (sig, base, a0, floor_of a0) \<in> L \<and>
        b64_decode B (ix_data (swap_instruction base)) = Some d \<and>
        b64_decode B (ix_data (swap_instruction r)) = Some d' \<and> length d' = length d \<and>
        u64_from_le (slice i 8 d') = a \<and> u64_from_le (slice (i + 8) 8 d') = floor_of a \<and>
        (\<forall>k < length d. k < i \<or> i + 16 \<le> k \<longrightarrow> d' ! k = d ! k))"

lemma floor_shift: "a + (floor_of a0 - a0) = floor_of a"
  by (simp add: floor_of_def)

lemma served_enforces_floor:
  assumes "tmpl_ok B L sig t" "b64_lawful B" "serve_route B t a out = Some r"
    and "\<forall>(sig, ixs, a, q) \<in> L. q = floor_of a"
  shows "enforces_floor B L a r"
proof -
  have base: "(sig, rt_swap_ixs t, rt_template_in_amount t, rt_template_quoted_out t) \<in> L"
    using assms(1) by (simp add: tmpl_ok_def)
  with assms(4) have q0: "rt_template_quoted_out t = floor_of (rt_template_in_amount t)" by auto
  from serve_route_cases [OF assms(1-3)] show ?thesis
  proof
    assume "\<exists>q. (sig, r, a, q) \<in> L"
    then obtain q where q: "(sig, r, a, q) \<in> L" ..
    with assms(4) have "q = floor_of a" by auto
    with q show ?thesis unfolding enforces_floor_def by blast
  next
    assume "patched_from B (rt_swap_ixs t) (rt_template_in_amount t) (rt_template_quoted_out t) a r"
    then obtain d d' i where "b64_decode B (ix_data (swap_instruction (rt_swap_ixs t))) = Some d"
        "b64_decode B (ix_data (swap_instruction r)) = Some d'" "length d' = length d"
        "u64_from_le (slice i 8 d') = a" "u64_from_le (slice (i + 8) 8 d') = floor_of a"
        "\<forall>k < length d. k < i \<or> i + 16 \<le> k \<longrightarrow> d' ! k = d ! k"
      unfolding patched_from_def q0 floor_shift by (elim exE conjE) rule
    with base q0 show ?thesis
      unfolding enforces_floor_def
      by (intro disjI2 exI [of _ sig] exI [of _ "rt_swap_ixs t"] exI [of _ "rt_template_in_amount t"]
          exI [of _ d] exI [of _ d'] exI [of _ i]) simp
  qed
qed

text \<open>One pair keeps the invariant, and what it adds to the queue enforces the floor.\<close>

definition pair_effect :: "base64_engine \<Rightarrow> insert_log \<Rightarrow> u64 \<Rightarrow> nat \<Rightarrow> int \<Rightarrow> world \<Rightarrow> world \<Rightarrow> bool" where
  "pair_effect B L a h now w w' \<longleftrightarrow>
     store_inv B L (w_store w') \<and>
     (w_lifo w' = w_lifo w \<or> (\<exists>r. w_lifo w' = w_lifo w @ [new_item now r h] \<and> enforces_floor B L a r)) \<and>
     (\<forall>t \<in> set (w_tasks w'). t \<in> set (w_tasks w) \<or>
        (ft_amount t = a \<and> ft_floor t = floor_of a \<and> ft_hop_count t = h))"

lemma tier1_effect:
  assumes "store_inv B L (w_store w)" "b64_lawful B" "\<forall>(sig, ixs, a, q) \<in> L. q = floor_of a"
    and "tier1 B tc now sig a fl h w = (b, w')"
  shows "pair_effect B L a h now w w' \<and> (\<not> b \<longrightarrow> w_lifo w' = w_lifo w)"
proof (cases "get_route sig (w_store w)")
  case (Pair ro st)
  then have st: "store_inv B L st" using store_inv_get_route [OF assms(1), of sig] by simp
  have ok: "ro = Some t \<Longrightarrow> tmpl_ok B L sig t" for t
    using get_route_tmpl_ok [OF assms(1)] Pair by auto
  show ?thesis
    using assms(1,4) st Pair
    by (auto simp: tier1_def pair_effect_def store_inv_hit split: if_splits option.splits
        dest!: ok intro: served_enforces_floor [OF _ assms(2) _ assms(3)])
qed

lemma tier2_effect:
  assumes "store_inv B L (w_store w)" "b64_lawful B" "\<forall>(sig, ixs, a, q) \<in> L. q = floor_of a"
    and "tier2 B tc now plan a fl h w = (b, w')"
  shows "pair_effect B L a h now w w' \<and> (\<not> b \<longrightarrow> w_lifo w' = w_lifo w)"
proof -
  obtain all_hit missing where c: "check_hops plan (w_store w) = (all_hit, missing)" by force
  obtain ro st where g: "get_route_for_hops plan (w_store w) = (ro, st)" by force
  then have st: "store_inv B L st" using store_inv_for_hops [OF assms(1), of plan] by simp
  have ok: "ro = Some t \<Longrightarrow> \<exists>sig. tmpl_ok B L sig t" for t
    using for_hops_tmpl_ok [OF assms(1)] g by auto
  show ?thesis
    using assms(1,4) st
    by (auto simp: tier2_def pair_effect_def store_inv_hit c g Let_def split: if_splits option.splits
        dest!: ok intro: served_enforces_floor [OF _ assms(2) _ assms(3)])
qed

lemma tier3_effect:
  "store_inv B L (w_store w) \<Longrightarrow>
   pair_effect B L a h now w (tier3 tc sig q a (floor_of a) h w) \<and>
   w_lifo (tier3 tc sig q a (floor_of a) h w) = w_lifo w"
  by (auto simp: tier3_def pair_effect_def Let_def)

lemma pair_effect_metrics: "store_inv B L (w_store w) \<Longrightarrow> pair_effect B L a h now w (w\<lparr>w_metrics := m\<rparr>)"
  by (simp add: pair_effect_def)

lemma pair_effect_trans:
  assumes "pair_effect B L a h now w w1" "w_lifo w1 = w_lifo w" "pair_effect B L a h now w1 w2"
  shows "pair_effect B L a h now w w2"
  using assms by (fastforce simp: pair_effect_def)

lemma dispatch_effect:
  assumes inv: "store_inv B L (w_store w)" and B: "b64_lawful B"
    and L: "\<forall>(sig, ixs, a, q) \<in> L. q = floor_of a"
  shows "pair_effect B L (qp_amount p) (qp_hop_count p) now w (dispatch_pair B tc now p w)"
proof (cases "merge_quotes (qp_quote1 p) (qp_quote2 p) (floor_of (qp_amount p))")
  case (Inl e)
  with inv show ?thesis by (simp add: dispatch_pair_def Let_def pair_effect_def)
next
  case (Inr q)
  let ?a = "qp_amount p" and ?h = "qp_hop_count p" and ?sig = "route_sig (route_plan q)"
  obtain b1 w1 where t1: "tier1 B tc now ?sig ?a (floor_of ?a) ?h w = (b1, w1)" by force
  obtain b2 w2 where t2: "tier2 B tc now (route_plan q) ?a (floor_of ?a) ?h w1 = (b2, w2)" by force
  note e1 = tier1_effect [OF inv B L t1]
  then have "store_inv B L (w_store w1)" by (simp add: pair_effect_def)
  note e2 = tier2_effect [OF this B L t2]
  then have "store_inv B L (w_store w2)" by (simp add: pair_effect_def)
  note e3 = tier3_effect [OF this, of ?a ?h now tc ?sig q]
  show ?thesis
    using e1 e2 e3 inv
    by (cases b1; cases b2) (auto simp: dispatch_pair_def Let_def Inr t1 t2
        intro: pair_effect_metrics pair_effect_trans)
qed

lemma finish_fetch_parts:
  "w_tasks (finish_fetch B now ms r t w) = w_tasks w"
  "w_store (finish_fetch B now ms (Inl e) t w) = w_store w"
  "w_store (finish_fetch B now ms (Inr x) t w) =
     (if ft_save_new t
      then record_hops (route_plan (ft_merged t)) (ft_context_slot t)
             (insert_route B (ft_sig t) x (ft_amount t) (ft_floor t) (route_plan (ft_merged t)) (w_store w))
      else w_store w)"
  by (cases r) (simp_all add: finish_fetch_def push_to_queue_def Let_def)

lemma floor_inv_new: "floor_inv B (world_new store_new, {})"
  by (simp add: floor_inv_def world_new_def store_inv_new)

lemma floor_inv_step:
  assumes "floor_inv B (w, L)" "b64_lawful B"
  shows "floor_inv B (scan_step B tc ev w, reply_log ev w L)"
proof (cases ev)
  case (Pair now p)
  with assms dispatch_effect [of B L w p now tc] show ?thesis
    by (auto simp: floor_inv_def pair_effect_def)
next
  case (Fetched i now ms r)
  show ?thesis
  proof (cases "i < length (w_tasks w)")
    case False
    with Fetched assms(1) show ?thesis by (cases r) simp_all
  next
    case True
    let ?t = "w_tasks w ! i"
    have t: "ft_floor ?t = floor_of (ft_amount ?t)" using assms(1) True by (simp add: floor_inv_def)
    have ts: "\<forall>t \<in> set (take i (w_tasks w) @ drop (Suc i) (w_tasks w)). ft_floor t = floor_of (ft_amount t)"
      using assms(1) by (auto simp: floor_inv_def dest: in_set_takeD in_set_dropD)
    show ?thesis
    proof (cases r)
      case (Inl e)
      with Fetched True assms(1) ts show ?thesis by (simp add: floor_inv_def finish_fetch_parts)
    next
      case (Inr x)
      let ?L = "insert (ft_sig ?t, x, ft_amount ?t, ft_floor ?t) L"
      have "store_inv B L (w_store w)" using assms(1) by (simp add: floor_inv_def)
      then have "store_inv B ?L (w_store w)"
        "store_inv B ?L (insert_route B (ft_sig ?t) x (ft_amount ?t) (ft_floor ?t) plan (w_store w))" for plan
        by (auto intro: store_inv_mono store_inv_insert)
      with Fetched True Inr assms(1) t ts show ?thesis
        by (simp add: floor_inv_def finish_fetch_parts Let_def store_inv_record_hops)
    qed
  qed
qed

lemma floor_inv_run:
  "b64_lawful B \<Longrightarrow> floor_inv B wl \<Longrightarrow> floor_inv B (scan_logged B tc evs wl)"
  by (induction evs arbitrary: wl) (auto simp: floor_inv_step)


definition sample_quote :: quote_response where
  "sample_quote =
     \<lparr>input_mint = WSOL_MINT, in_amount = ''10'', output_mint = ''T'', out_amount = ''7000'',
      other_amount_threshold = ''7000'', swap_mode = ''ExactIn'', price_impact_pct = ''0'',
      route_plan = JArray [], context_slot = None, instruction_version = None, extra = []\<rparr>"

definition sample_pair :: "u64 \<Rightarrow> quote_pair" where
  "sample_pair a =
     \<lparr>qp_token_mint = ''T'', qp_amount = a, qp_output_wsol = 7000, qp_net_profit = 0,
      qp_quote1 = sample_quote, qp_quote2 = sample_quote, qp_hop_count = 2, qp_only_direct = False,
      qp_is_pmm = False\<rparr>"

definition sample_tc :: template_cache_config where
  "sample_tc = \<lparr>tc_save_new = True, tc_serve_route = True, tc_serve_from_metis = True\<rparr>"

definition sample_reply :: swap_instructions_response where
  "sample_reply = sample_ixs (b64_encode plain_engine (u64_to_le 10 @ u64_to_le 6610))"

definition sample_events :: "scan_event list" where
  "sample_events = [Pair 1 (sample_pair 10), Fetched 0 2 5 (Inr sample_reply)]"

definition sample_sig :: u128 where
  "sample_sig = route_sig (JArray [])"

definition sample_template :: route_template where
  "sample_template = fresh_template plain_engine sample_sig sample_reply 10 6610"

lemma sample_world:
  "w_store (fold (scan_step plain_engine sample_tc) sample_events (world_new store_new)) =
     store_new\<lparr>routes_hot := [(sample_sig, sample_template)]\<rparr>"
  by (simp add: sample_events_def dispatch_pair_def sample_pair_def sample_quote_def merge_quotes_def
      tier1_def sample_tc_def get_route_def get_route_read_def world_new_def store_new_def tier2_def
      check_hops_def get_route_for_hops_def pair_key_def Let_def tier3_def finish_fetch_parts
      floor_of_def JITO_TIP_LAMPORTS_def NETWORK_FEE_LAMPORTS_def sample_sig_def [symmetric]
      insert_route_def push_hot_route_def hm_len_def ROUTE_SEG_CAP_def index_pair_def
      record_hops_def hm_insert_def sample_template_def)

lemma sample_second_pair_served:
  assumes "w_store w = store_new\<lparr>routes_hot := [(sample_sig, sample_template)]\<rparr>"
  shows "w_lifo (dispatch_pair plain_engine sample_tc 3 (sample_pair 50) w) \<noteq> w_lifo w"
proof -
  let ?d = "u64_to_le 10 @ u64_to_le 6610"
  have dec: "b64_decode plain_engine (ix_data (swap_instruction sample_reply)) = Some ?d"
    using plain_engine_lawful by (simp add: b64_lawful_def sample_reply_def sample_ixs_def)
  have off: "discover_offsets ?d 10 6610 = Some (0, 0 + 8)" by code_simp
  have "serve_route plain_engine sample_template 50 6650 \<noteq> None"
    using serve_route_patches [OF plain_engine_lawful, of sample_template ?d 0 "0 + 8" 50 6650] dec off
    by (auto simp: sample_template_def fresh_template_def Let_def hm_simps)
  then obtain r where r: "serve_route plain_engine sample_template 50 6650 = Some r" by auto
  have "get_route sample_sig (w_store w) = (Some sample_template, w_store w)"
    by (simp add: assms get_route_def get_route_read_def hm_get_def)
  with r show ?thesis
    by (simp add: dispatch_pair_def sample_pair_def sample_quote_def merge_quotes_def tier1_def
        sample_tc_def Let_def floor_of_def JITO_TIP_LAMPORTS_def NETWORK_FEE_LAMPORTS_def
        sample_sig_def [symmetric])
qed


section \<open>The enumeration\<close>

definition scan_amounts :: "u64 \<Rightarrow> u64 \<Rightarrow> u64 \<Rightarrow> u64 list" where
  "scan_amounts mn mx st =
     (if mn \<le> mx then map (\<lambda>k. mn + of_nat k * st) [0..<(unat mx - unat mn) div unat st + 1] else [])"

lemma scan_amounts_step:
  assumes "0 < st" "unat mx + unat st < 2 ^ 64" "mn \<le> mx"
  shows "scan_amounts mn mx st = mn # scan_amounts (mn + st) mx st"
proof -
  have mn: "unat mn \<le> unat mx" using assms(3) by (simp add: word_le_nat_alt)
  have add: "unat (mn + st) = unat mn + unat st"
    using assms(2) mn by (intro unat_add_no_wrap) simp
  have st: "0 < unat st" using assms(1) by (simp add: word_less_nat_alt)
  have shift: "map (\<lambda>k. mn + of_nat k * st) [0..<Suc n] = mn # map (\<lambda>k. mn + st + of_nat k * st) [0..<n]" for n
    by (simp add: upt_conv_Cons map_Suc_upt [symmetric] algebra_simps del: upt_Suc)
  show ?thesis
  proof (cases "mn + st \<le> mx")
    case True
    then have le: "unat mn + unat st \<le> unat mx" by (simp add: word_le_nat_alt add)
    then have "(unat mx - unat mn) div unat st = Suc ((unat mx - unat (mn + st)) div unat st)"
      using st add by (subst le_div_geq) (auto simp: algebra_simps)
    with True assms(3) shift [of "Suc ((unat mx - unat (mn + st)) div unat st)"] show ?thesis
      by (simp add: scan_amounts_def)
  next
    case False
    then have "unat mx - unat mn < unat st" using mn by (simp add: word_le_nat_alt add)
    with False assms(3) show ?thesis by (simp add: scan_amounts_def)
  qed
qed

lemma scan_loop_amounts:
  assumes "0 < st" "unat mx + unat st < 2 ^ 64"
  shows "scan_loop toks mx st mn acc = Some (acc @ concat (map (amount_entries toks) (scan_amounts mn mx st)))"
proof (induction "Suc (unat mx) - unat mn" arbitrary: mn acc rule: less_induct)
  case less
  show ?case
  proof (cases "mn \<le> mx")
    case True
    then have mn: "unat mn \<le> unat mx" by (simp add: word_le_nat_alt)
    have "unat (mn + st) = unat mn + unat st"
      using assms(2) mn by (intro unat_add_no_wrap) simp
    moreover have "0 < unat st" using assms(1) by (simp add: word_less_nat_alt)
    ultimately have "Suc (unat mx) - unat (mn + st) < Suc (unat mx) - unat mn" using mn by linarith
    from less.hyps [OF this] show ?thesis
      using True by (subst scan_loop.simps) (simp add: scan_amounts_step [OF assms True])
  next
    case False
    then show ?thesis by (subst scan_loop.simps) (simp add: scan_amounts_def)
  qed
qed



text \<open>
  A step of zero hangs the scanner: with a configured step that rounds to 0 lamports
  and a non-empty range the enumeration never returns.
\<close>

theorem scan_pairs_zero_step_diverges:
  assumes "min_lamports \<le> max_lamports"
  shows "scan_pairs toks min_lamports max_lamports 0 = None"
proof -
  have "\<not> (amount \<le> mx \<and> st = 0)" if "scan_loop toks mx st amount acc = Some r" for mx st amount acc r
    by (rule scan_loop.raw_induct [where P = "\<lambda>toks mx st a p r. \<not> (a \<le> mx \<and> st = 0)", OF _ that])
      (fastforce split: if_splits)
  from this [of max_lamports 0 min_lamports "[]"] assms show ?thesis
    by (cases "scan_pairs toks min_lamports max_lamports 0") (auto simp: scan_pairs_def)
qed

theorem scan_pairs_zero_step_diverges_witness: "scan_pairs [''T''] 5 7 0 = None"
  by (rule scan_pairs_zero_step_diverges) simp

end
