(* ===== verification/Quote_Properties.thy ===== *)
theory Quote_Properties
  imports Quote_Check
begin

text \<open>
  What stage 1 promises: exactly which pairs of quotes become opportunities, that an opportunity
  clears the on-chain costs when the configured threshold does, and that the per-token counters
  stay balanced.
\<close>

section \<open>Which pairs pass\<close>

definition wanted_pair ::
    "string \<Rightarrow> u64 \<Rightarrow> bool \<Rightarrow> quote_response \<Rightarrow> quote_response \<Rightarrow> u64 \<Rightarrow> quote_pair" where
  "wanted_pair token amount direct q1 q2 out =
     \<lparr>qp_token_mint = token, qp_amount = amount, qp_output_wsol = out,
      qp_net_profit = out - saturating_add (saturating_add amount 1600) 5000,
      qp_quote1 = q1, qp_quote2 = q2, qp_hop_count = plan_hops q1 + plan_hops q2,
      qp_only_direct = direct, qp_is_pmm = (route_uses_pmm q1 \<or> route_uses_pmm q2)\<rparr>"

lemma no_shared_pool: "\<not> routes_share_pool q1 q2 \<longleftrightarrow> set (route_pools q1) \<inter> set (route_pools q2) = {}"
  using routes_share_pool_pools [of q1 q2] by auto

lemma judge_pair_Some:
  "fst (judge_pair token amount direct minp ts q1 q2 c) = Some p \<longleftrightarrow>
     (\<exists>out. parse_u64 (out_amount q2) = Some out \<and> saturating_add amount minp < out \<and>
        set (route_pools q1) \<inter> set (route_pools q2) = {} \<and> p = wanted_pair token amount direct q1 q2 out)"
  by (cases "parse_u64 (out_amount q2)")
    (auto simp: judge_pair_def Let_def route_uses_forbidden_dex_never no_shared_pool [symmetric]
      wanted_pair_def JITO_TIP_LAMPORTS_def NETWORK_FEE_LAMPORTS_def not_le)

lemma quote_check_Some_iff:
  "fst (quote_check metis http1 http2 token amount direct minp c) = Some p \<longleftrightarrow>
     (\<exists>q1 mid q2 out.
        get_quote http1 metis WSOL_MINT token amount direct = Inr q1 \<and>
        parse_u64 (out_amount q1) = Some mid \<and> 0 < mid \<and>
        get_quote http2 metis token WSOL_MINT mid direct = Inr q2 \<and>
        parse_u64 (out_amount q2) = Some out \<and> saturating_add amount minp < out \<and>
        set (route_pools q1) \<inter> set (route_pools q2) = {} \<and> p = wanted_pair token amount direct q1 q2 out)"
  by (auto simp: quote_check_def Let_def judge_pair_Some split: sum.split option.split)

text \<open>
  Property C10. \<open>quote_check\<close> reports an opportunity exactly when both quotes were obtained, the
  first one's output parses to a positive amount (which the second quote was asked for), the second
  one's output parses and exceeds the input plus the configured gross profit, and the two legs
  have no pool in common; the opportunity then carries the two quotes and the derived numbers.
\<close>

theorem quote_check_iff:
  "fst (quote_check metis http1 http2 token amount direct minp c) = Some p \<longleftrightarrow>
     (\<exists>q1 mid q2 out.
        get_quote http1 metis WSOL_MINT token amount direct = Inr q1 \<and>
        parse_u64 (out_amount q1) = Some mid \<and> 0 < mid \<and>
        get_quote http2 metis token WSOL_MINT mid direct = Inr q2 \<and>
        parse_u64 (out_amount q2) = Some out \<and> saturating_add amount minp < out \<and>
        set (route_pools q1) \<inter> set (route_pools q2) = {} \<and> p = wanted_pair token amount direct q1 q2 out)"
  by (rule quote_check_Some_iff)

lemma quote_check_Some_profit:
  assumes "fst (quote_check metis http1 http2 token amount direct minp c) = Some p"
  shows "saturating_add amount minp < qp_output_wsol p" "qp_amount p = amount"
    "qp_net_profit p = qp_output_wsol p - saturating_add (saturating_add amount 1600) 5000"
  using assms
  by (auto simp: quote_check_Some_iff wanted_pair_def)

text \<open>
  Property C11. With a threshold of at least tip plus network fee, an opportunity always covers its
  on-chain costs: its output exceeds the input plus 6600 lamports, and the recorded net profit is
  positive and exact as a signed number (for outputs below \<open>2^63\<close> lamports, far above the supply).
\<close>

theorem opportunity_covers_costs:
  assumes "fst (quote_check metis http1 http2 token amount direct minp c) = Some p"
    and "6600 \<le> minp" "unat (qp_output_wsol p) < 2 ^ 63"
  shows "unat amount + 6600 < unat (qp_output_wsol p) \<and>
    sint (qp_net_profit p) = int (unat (qp_output_wsol p)) - int (unat amount) - 6600 \<and>
    0 < sint (qp_net_profit p)"
proof -
  let ?o = "unat (qp_output_wsol p)" and ?a = "unat amount"
  have minp: "6600 \<le> unat minp" using assms(2) by (simp add: word_le_nat_alt)
  have "min (?a + unat minp) (2 ^ 64 - 1) < ?o"
    using quote_check_Some_profit(1) [OF assms(1)] by (simp add: word_less_nat_alt unat_saturating_add)
  with minp assms(3) have cover: "?a + 6600 < ?o" by (auto simp: min_def split: if_splits)
  have fl: "unat (saturating_add (saturating_add amount 1600) 5000) = ?a + 6600"
    using cover assms(3) by (simp add: unat_saturating_add)
  have net: "unat (qp_net_profit p) = ?o - (?a + 6600)"
    using cover fl unat_saturating_add
    by (simp add: quote_check_Some_profit(3) [OF assms(1)] unat_sub word_le_nat_alt)
  then have "unat (qp_net_profit p) < 2 ^ 63" using assms(3) by linarith
  then have "sint (qp_net_profit p) = int (unat (qp_net_profit p))" by (rule sint_small)
  then have "sint (qp_net_profit p) = int ?o - (int ?a + 6600)"
    using net cover by (simp only: of_nat_diff of_nat_add)
  with cover show ?thesis by (intro conjI) linarith+
qed

definition sample_leg :: "string \<Rightarrow> string \<Rightarrow> quote_response" where
  "sample_leg out pool =
     \<lparr>input_mint = WSOL_MINT, in_amount = ''10'', output_mint = ''T'', out_amount = out,
      other_amount_threshold = out, swap_mode = ''ExactIn'', price_impact_pct = ''0'',
      route_plan = JArray [JObject [(''swapInfo'', JObject [(''ammKey'', JString pool)])]],
      context_slot = None, instruction_version = None, extra = []\<rparr>"

definition sample_http :: "quote_response \<Rightarrow> quote_http" where
  "sample_http q = (\<lambda>url. Inr \<lparr>rsp_status = 200, rsp_is_success = True, rsp_text = [], rsp_json = Some q\<rparr>)"

lemma sample_check:
  "fst (quote_check \<lparr>base_url = ''u''\<rparr> (sample_http (sample_leg (string_of_u64 500) ''p1''))
     (sample_http (sample_leg (string_of_u64 20000) ''p2'')) ''T'' 1000 True 6600 (metrics_new, token_metrics_new [])) =
   Some (wanted_pair ''T'' 1000 True (sample_leg (string_of_u64 500) ''p1'') (sample_leg (string_of_u64 20000) ''p2'') 20000)"
proof -
  have t: "saturating_add 1000 6600 < 20000" by (simp add: saturating_add_def)
  have r: "route_pools (sample_leg x y) = [y]" for x y
    by (simp add: route_pools_def sample_leg_def hop_amm_key_def List.map_filter_def)
  have g: "get_quote (sample_http q) c i out a d = Inr q" for q c i out a d
    by (simp add: get_quote_def sample_http_def)
  have o: "out_amount (sample_leg x y) = x" for x y by (simp add: sample_leg_def)
  show ?thesis
    unfolding quote_check_Some_iff g
    by (intro exI [of _ "sample_leg (string_of_u64 500) ''p1''"] exI [of _ 500] exI [of _ "sample_leg (string_of_u64 20000) ''p2''"]
        exI [of _ 20000]) (simp add: o t r)
qed

theorem opportunity_covers_costs_witness:
  "\<exists>p. fst (quote_check \<lparr>base_url = ''u''\<rparr> (sample_http (sample_leg (string_of_u64 500) ''p1''))
     (sample_http (sample_leg (string_of_u64 20000) ''p2'')) ''T'' 1000 True 6600 (metrics_new, token_metrics_new [])) = Some p \<and>
     sint (qp_net_profit p) = 12400"
  using opportunity_covers_costs [OF sample_check] by (simp add: sample_check) (simp add: wanted_pair_def)

section \<open>The per-token counters\<close>

definition balanced :: "token_stat \<Rightarrow> bool" where
  "balanced s \<longleftrightarrow>
     q_sent s = 2 * (route_ok s + route_fail s) \<and> route_ok s = profitable s + not_profitable s"

text \<open>A check's arguments and the two replies it gets.\<close>

type_synonym check = "quote_http \<times> quote_http \<times> string \<times> u64 \<times> bool"

definition run_check :: "metis_client \<Rightarrow> u64 \<Rightarrow> check \<Rightarrow> counters \<Rightarrow> counters" where
  "run_check metis minp = (\<lambda>(h1, h2, token, amount, direct) c.
     snd (quote_check metis h1 h2 token amount direct minp c))"

lemma tm_bump_bump: "tm_bump ts f (tm_bump ts g tm) = tm_bump ts (\<lambda>s. f (g s)) tm"
  by (cases ts; cases "the ts < length (stats tm)") (auto simp: tm_bump_def list_update_beyond)

definition all_balanced :: "token_metrics \<Rightarrow> bool" where
  "all_balanced tm \<longleftrightarrow> (\<forall>s \<in> set (stats tm). balanced s)"

lemma balanced_bump:
  "all_balanced tm \<Longrightarrow> (\<And>s. balanced s \<Longrightarrow> balanced (f s)) \<Longrightarrow> all_balanced (tm_bump ts f tm)"
  by (cases ts; cases "the ts < length (stats tm)")
    (auto simp: all_balanced_def tm_bump_def list_update_beyond dest!: set_update_subset_insert [THEN subsetD])

lemma balanced_check:
  assumes "all_balanced (snd c)"
  shows "all_balanced (snd (run_check metis minp k c))"
proof -
  obtain h1 h2 token amount direct where k: "k = (h1, h2, token, amount, direct)" by (cases k)
  have "balanced s \<Longrightarrow> balanced (inc_route_fail (s\<lparr>q_sent := q_sent s + 2\<rparr>))"
    "balanced s \<Longrightarrow> balanced (inc_not_profitable (s\<lparr>q_sent := q_sent s + 2, route_ok := route_ok s + 1\<rparr>))"
    "balanced s \<Longrightarrow> balanced (s\<lparr>q_sent := q_sent s + 2, route_ok := route_ok s + 1,
       profitable := profitable s + 1\<rparr>)" for s
    by (simp_all add: balanced_def inc_route_fail_def inc_not_profitable_def algebra_simps)
  note step = balanced_bump [OF assms this(1)] balanced_bump [OF assms this(2)] balanced_bump [OF assms this(3)]
  show ?thesis
    unfolding k run_check_def quote_check_def judge_pair_def Let_def
    by (auto simp: tm_bump_bump step split: sum.split option.split)
qed

text \<open>
  Property C32. Per-token accounting: from fresh counters, after any sequence of checks, every
  token has sent two requests per finished check, and each check that got both quotes was counted
  as profitable or not profitable, never both and never neither.
\<close>

theorem token_counters_balanced:
  "list_all balanced (stats (snd (fold (run_check metis minp) checks (metrics_new, token_metrics_new mints))))"
proof -
  have "all_balanced (snd (fold (run_check metis minp) checks c))" if "all_balanced (snd c)" for c
    using that by (induction checks arbitrary: c) (simp_all add: balanced_check)
  moreover have "all_balanced (token_metrics_new mints)"
    by (auto simp: all_balanced_def token_metrics_new_def Let_def zero_stat_def balanced_def)
  ultimately have "all_balanced (snd (fold (run_check metis minp) checks (metrics_new, token_metrics_new mints)))"
    by simp
  then show ?thesis by (simp add: list_all_iff all_balanced_def)
qed

end
