(* ===== verification/Token_Properties.thy ===== *)
theory Token_Properties
  imports Token_Metrics "HOL-Library.Multiset"
begin

text \<open>
  What the per-token reporter guarantees: the time stamp names the right day, the half-hour file
  sums exactly the six windows before it, the index finds the counters of a mint, and the rows
  of a file are the snapshot in the announced order.
\<close>

section \<open>The calendar\<close>

lemma year_loop_spec:
  "year_loop y d = (y', d') \<Longrightarrow>
     y \<le> y' \<and> d = sum_list (map year_days [y..<y']) + d' \<and> d' < year_days y'"
proof (induction y d rule: year_loop.induct)
  case (1 year days)
  show ?case
  proof (cases "days < year_days year")
    case True
    with 1(2) show ?thesis by (simp add: year_loop.simps [of year])
  next
    case False
    with 1(2) have "year_loop (year + 1) (days - year_days year) = (y', d')"
      by (simp add: year_loop.simps [of year])
    from 1(1) [OF False this] False show ?thesis by (auto simp: upt_conv_Cons)
  qed
qed

lemma month_loop_spec:
  "month_loop ms m d = (m', d') \<Longrightarrow> d < sum_list ms \<Longrightarrow>
     m \<le> m' \<and> m' < m + length ms \<and> d' < ms ! (m' - m) \<and> d = sum_list (take (m' - m) ms) + d'"
proof (induction ms m d rule: month_loop.induct)
  case (2 dm ms month days)
  show ?case
  proof (cases "days < dm")
    case True
    with 2(2) show ?thesis by auto
  next
    case False
    with 2 have "month + 1 \<le> m' \<and> m' < month + 1 + length ms \<and> d' < ms ! (m' - (month + 1)) \<and>
        days - dm = sum_list (take (m' - (month + 1)) ms) + d'"
      by auto
    with False show ?thesis by (auto simp: nth_Cons' take_Cons' Suc_diff_le split: if_splits)
  qed
qed simp

lemma sum_month_days: "sum_list (month_days y) = year_days y" "length (month_days y) = 12"
  by (simp_all add: month_days_def year_days_def)

definition days_before_year :: "nat \<Rightarrow> nat" where
  "days_before_year y = 365 * (y - 1970) + (y - 1969) div 4 + (y - 1601) div 400 - (y - 1901) div 100"

lemma leap_step:
  fixes S :: nat
  assumes "y = (if (b4 \<and> \<not> b100) \<or> b400 then 366 else 365)" "S' = S + y"
    and "q4' = q4 + (if b4 then 1 else 0)" "q100' = q100 + (if b100 then 1 else 0)"
    and "q400' = q400 + (if b400 then 1 else 0)" "b400 \<longrightarrow> b100" "b100 \<longrightarrow> b4"
    and "S + q100 = 365 * n + q4 + q400"
  shows "S' + q100' = 365 * Suc n + q4' + q400'"
  using assms by (cases b4; cases b100; cases b400) simp_all

lemma sum_years:
  "sum_list (map year_days [1970..<1970 + n]) + (n + 69) div 100 = 365 * n + (n + 1) div 4 + (n + 369) div 400"
proof (induction n)
  case (Suc n)
  have shift: "(x + c) mod k = 0 \<longleftrightarrow> x mod k = 0" if "k dvd c" for x c k :: nat
    using that by (simp add: mod_eq_0_iff_dvd dvd_add_left_iff)
  have "(1970 + n) mod 4 = 0 \<longleftrightarrow> Suc (n + 1) mod 4 = 0"
    using shift [of 4 1968 "n + 2"] by (simp add: ac_simps)
  moreover have "(1970 + n) mod 100 = 0 \<longleftrightarrow> Suc (n + 69) mod 100 = 0"
    using shift [of 100 1900 "n + 70"] by (simp add: ac_simps)
  moreover have "(1970 + n) mod 400 = 0 \<longleftrightarrow> Suc (n + 369) mod 400 = 0"
    using shift [of 400 1600 "n + 370"] by (simp add: ac_simps)
  ultimately have leap: "is_leap (1970 + n) \<longleftrightarrow>
      (Suc (n + 1) mod 4 = 0 \<and> Suc (n + 69) mod 100 \<noteq> 0) \<or> Suc (n + 369) mod 400 = 0"
    by (simp only: is_leap_def)
  have "400 dvd n + 370 \<Longrightarrow> 100 dvd n + 370" by (erule dvd_trans [rotated]) simp
  then have c1: "Suc (n + 369) mod 400 = 0 \<Longrightarrow> Suc (n + 69) mod 100 = 0"
    using shift [of 100 300 "n + 70"] by (simp add: mod_eq_0_iff_dvd add.commute)
  have "100 dvd n + 70 \<Longrightarrow> 4 dvd n + 70" by (erule dvd_trans [rotated]) simp
  then have c2: "Suc (n + 69) mod 100 = 0 \<Longrightarrow> Suc (n + 1) mod 4 = 0"
    using shift [of 4 68 "n + 2"] by (simp add: mod_eq_0_iff_dvd add.commute)
  define b4 b100 b400 where "b4 = (Suc (n + 1) mod 4 = 0)" and "b100 = (Suc (n + 69) mod 100 = 0)"
    and "b400 = (Suc (n + 369) mod 400 = 0)"
  have "year_days (1970 + n) = (if (b4 \<and> \<not> b100) \<or> b400 then 366 else 365)"
    unfolding year_days_def leap b4_def b100_def b400_def ..
  moreover have "sum_list (map year_days [1970..<1970 + Suc n]) =
      sum_list (map year_days [1970..<1970 + n]) + year_days (1970 + n)"
    by (simp only: add_Suc_right upt_Suc_append le_add1 map_append sum_list_append) simp
  moreover have "(Suc n + 1) div 4 = (n + 1) div 4 + (if b4 then 1 else 0)"
    "(Suc n + 69) div 100 = (n + 69) div 100 + (if b100 then 1 else 0)"
    "(Suc n + 369) div 400 = (n + 369) div 400 + (if b400 then 1 else 0)"
    using div_Suc [of "n + 1" 4] div_Suc [of "n + 69" 100] div_Suc [of "n + 369" 400]
    by (simp_all add: b4_def b100_def b400_def)
  moreover have "b400 \<longrightarrow> b100" "b100 \<longrightarrow> b4" using c1 c2 by (auto simp: b4_def b100_def b400_def)
  ultimately show ?case
    by (intro leap_step [OF _ _ _ _ _ _ _ Suc]) assumption+
qed simp

lemma sum_years_closed: "1970 \<le> y \<Longrightarrow> sum_list (map year_days [1970..<y]) = days_before_year y"
proof -
  assume "1970 \<le> y"
  then obtain n where y: "y = 1970 + n" using le_Suc_ex by blast
  have "sum_list (map year_days [1970..<y]) = 365 * n + (n + 1) div 4 + (n + 369) div 400 - (n + 69) div 100"
    using sum_years [of n] unfolding y by linarith
  then show ?thesis by (simp add: days_before_year_def y add.commute)
qed

text \<open>
  Property C38. The date in the report is right: \<open>epoch_days_to_ymd\<close> ends for every number of days
  since 1970-01-01 and yields a valid Gregorian date whose distance from that day is exactly that
  number (365 days a year, the leap days of the years before by the closed formula, the months
  before, the days before).
\<close>

theorem epoch_days_to_ymd_correct:
  "(case epoch_days_to_ymd days of (y, m, d) \<Rightarrow>
     1970 \<le> y \<and> 1 \<le> m \<and> m \<le> 12 \<and> 1 \<le> d \<and> d \<le> month_days y ! (m - 1) \<and>
     days = days_before_year y + sum_list (take (m - 1) (month_days y)) + (d - 1))"
proof -
  obtain y r where yl: "year_loop 1970 days = (y, r)" by force
  obtain m d where ml: "month_loop (month_days y) 1 r = (m, d)" by force
  from year_loop_spec [OF yl] sum_years_closed [of y]
  have y: "1970 \<le> y" "days = days_before_year y + r" "r < year_days y" by auto
  from month_loop_spec [OF ml] y(3) have "1 \<le> m" "m < 13" "d < month_days y ! (m - 1)"
      "r = sum_list (take (m - 1) (month_days y)) + d"
    by (simp_all add: sum_month_days)
  moreover have "epoch_days_to_ymd days = (y, m, d + 1)" using ml by (simp add: epoch_days_to_ymd_def yl)
  ultimately show ?thesis using y(1,2) by auto
qed

section \<open>The windows\<close>

fun reporter_run :: "reporter \<Rightarrow> token_metrics list \<Rightarrow> (nat \<times> token_stat list) list" where
  "reporter_run r [] = []"
| "reporter_run r (tm # tms) =
     (let (files, _, r') = reporter_tick tm r in files @ reporter_run r' tms)"

definition zero_reporter :: "string list \<Rightarrow> reporter" where
  "zero_reporter mints = \<lparr>window_acc = map zero_stat mints, windows_done = 0\<rparr>"

lemma zero_reporter_rows:
  "zero_reporter mints = \<lparr>window_acc = map (\<lambda>i. zero_stat (mints ! i)) [0..<length mints], windows_done = 0\<rparr>"
  by (simp add: zero_reporter_def) (rule nth_equalityI; simp)

lemma mint_simps [simp]: "mint (add_stat a s) = mint a" "mint (zero_stat x) = x"
  by (simp_all add: add_stat_def zero_stat_def)

lemma tick_rows:
  assumes "map mint (stats tm) = mints"
  shows "map2 add_stat (map f [0..<length mints]) (stats tm) @ drop (length (stats tm)) (map f [0..<length mints]) =
      map (\<lambda>i. add_stat (f i) (stats tm ! i)) [0..<length mints]"
proof -
  have len: "length (stats tm) = length mints" using assms by (metis length_map)
  have "map2 add_stat (map f [0..<length mints]) (stats tm) =
      map (\<lambda>i. add_stat (f i) (stats tm ! i)) [0..<length mints]"
    by (rule nth_equalityI) (simp_all add: len)
  with len show ?thesis by simp
qed

lemma run_window:
  assumes "map mint (stats tm) = mints" "\<not> 6 \<le> w + 1"
  shows "reporter_run \<lparr>window_acc = map f [0..<length mints], windows_done = w\<rparr> (tm # tms) =
    (5, stats tm) # reporter_run
      \<lparr>window_acc = map (\<lambda>i. add_stat (f i) (stats tm ! i)) [0..<length mints], windows_done = w + 1\<rparr> tms"
  unfolding reporter_run.simps reporter_tick_def Let_def
  by (simp only: reporter.simps tick_rows [OF assms(1)] assms(2) if_False prod.case append_Cons append_Nil)

lemma run_sixth_window:
  assumes "map mint (stats tm) = mints" "6 \<le> w + 1" "\<And>i. i < length mints \<Longrightarrow> mint (f i) = mints ! i"
  shows "reporter_run \<lparr>window_acc = map f [0..<length mints], windows_done = w\<rparr> (tm # tms) =
    (5, stats tm) # (30, map (\<lambda>i. add_stat (f i) (stats tm ! i)) [0..<length mints])
      # reporter_run (zero_reporter mints) tms"
proof -
  have "map (\<lambda>s. zero_stat (mint s)) (map (\<lambda>i. add_stat (f i) (stats tm ! i)) [0..<length mints]) =
      map zero_stat mints"
    by (rule nth_equalityI) (simp_all add: assms(3))
  then show ?thesis
    unfolding reporter_run.simps reporter_tick_def Let_def zero_reporter_def
    by (simp only: reporter.simps tick_rows [OF assms(1)] assms(2) if_True prod.case append_Cons append_Nil)
qed

lemma window_counts: "\<not> (6 :: u32) \<le> 0 + 1" "\<not> (6 :: u32) \<le> 0 + 1 + 1" "\<not> (6 :: u32) \<le> 0 + 1 + 1 + 1"
  "\<not> (6 :: u32) \<le> 0 + 1 + 1 + 1 + 1" "\<not> (6 :: u32) \<le> 0 + 1 + 1 + 1 + 1 + 1"
  "(6 :: u32) \<le> 0 + 1 + 1 + 1 + 1 + 1 + 1"
  by (simp_all add: word_le_nat_alt)

text \<open>
  The half-hour file adds up: when the counters hold \<open>tm1\<close> to \<open>tm6\<close> at six consecutive
  ticks of a reporter that starts from zero, it writes the six five-minute snapshots and, with the
  sixth, the half-hour file whose row of each token is the field-wise sum of its six snapshots;
  from then on it behaves as one that starts from zero.
\<close>

theorem half_hour_file_sums:
  assumes "map mint (stats tm1) = mints" "map mint (stats tm2) = mints" "map mint (stats tm3) = mints"
    and "map mint (stats tm4) = mints" "map mint (stats tm5) = mints" "map mint (stats tm6) = mints"
  shows "reporter_run (zero_reporter mints) (tm1 # tm2 # tm3 # tm4 # tm5 # tm6 # tms) =
      map (\<lambda>tm. (5, stats tm)) [tm1, tm2, tm3, tm4, tm5, tm6] @
      [(30, map (\<lambda>i. foldl add_stat (zero_stat (mints ! i))
         [stats tm1 ! i, stats tm2 ! i, stats tm3 ! i, stats tm4 ! i, stats tm5 ! i, stats tm6 ! i])
         [0..<length mints])] @
      reporter_run (zero_reporter mints) tms"
proof -
  have "reporter_run (zero_reporter mints) (tm1 # tm2 # tm3 # tm4 # tm5 # tm6 # tms) =
      (5, stats tm1) # (5, stats tm2) # (5, stats tm3) # (5, stats tm4) # (5, stats tm5) # (5, stats tm6) #
      (30, map (\<lambda>i. add_stat (add_stat (add_stat (add_stat (add_stat (add_stat (zero_stat (mints ! i))
         (stats tm1 ! i)) (stats tm2 ! i)) (stats tm3 ! i)) (stats tm4 ! i)) (stats tm5 ! i)) (stats tm6 ! i))
         [0..<length mints]) # reporter_run (zero_reporter mints) tms"
    unfolding zero_reporter_rows
    by (simp only: run_window [OF assms(1) window_counts(1)] run_window [OF assms(2) window_counts(2)]
        run_window [OF assms(3) window_counts(3)] run_window [OF assms(4) window_counts(4)]
        run_window [OF assms(5) window_counts(5)] run_sixth_window [OF assms(6) window_counts(6)]
        mint_simps zero_reporter_rows)
  then show ?thesis by simp
qed

theorem half_hour_file_sums_witness:
  "reporter_run (zero_reporter [''A''])
     (replicate 6 \<lparr>stats = [zero_stat ''A''\<lparr>q_sent := 2\<rparr>], index = []\<rparr>) =
   replicate 6 (5, [zero_stat ''A''\<lparr>q_sent := 2\<rparr>]) @ [(30, [zero_stat ''A''\<lparr>q_sent := 12\<rparr>])]"
proof -
  let ?tm = "\<lparr>stats = [zero_stat ''A''\<lparr>q_sent := 2\<rparr>], index = []\<rparr>"
  have m: "map mint (stats ?tm) = [''A'']" by (simp add: zero_stat_def)
  have six: "replicate 6 x = [x, x, x, x, x, x]" for x :: 'a by (simp add: numeral_eq_Suc)
  show ?thesis
    using half_hour_file_sums [OF m m m m m m, of "[]"]
    by (simp add: six zero_stat_def add_stat_def)
qed

section \<open>The index\<close>

lemma get_fold_insert:
  "hm_get (foldl (\<lambda>m (k, v). hm_insert k v m) m kvs) k = (case map_of (rev kvs) k of Some v \<Rightarrow> Some v | None \<Rightarrow> hm_get m k)"
  by (induction kvs arbitrary: m) (auto simp: hm_simps map_add_def split: option.split)

text \<open>
  The index is right: \<open>get\<close> finds a mint exactly when it is configured, and what it
  finds are the counters of that mint (of its last occurrence when it is configured twice).
\<close>

theorem tm_get_new_iff:
  "tm_get (token_metrics_new mints) m = Some i \<longleftrightarrow>
     i < length mints \<and> mints ! i = m \<and> m \<notin> set (drop (Suc i) mints)"
proof -
  have "map_of (rev (zip xs [0..<length xs])) m = Some i \<longleftrightarrow>
      i < length xs \<and> xs ! i = m \<and> m \<notin> set (drop (Suc i) xs)" for xs :: "string list" and i
  proof (induction xs rule: rev_induct)
    case (snoc x xs)
    have "rev (zip (xs @ [x]) [0..<length (xs @ [x])]) = (x, length xs) # rev (zip xs [0..<length xs])"
      by simp
    with snoc show ?case
      by (auto simp: nth_append not_less_eq less_Suc_eq split: if_splits)
  qed simp
  note * = this [of mints]
  have "tm_get (token_metrics_new mints) m = map_of (rev (zip mints [0..<length mints])) m"
  proof (cases "map_of (rev (zip mints [0..<length mints])) m")
    case (Some j)
    with * [of j] show ?thesis
      by (simp add: tm_get_def token_metrics_new_def Let_def get_fold_insert comp_def zero_stat_def)
  qed (simp add: tm_get_def token_metrics_new_def Let_def get_fold_insert comp_def zero_stat_def)
  with * [of i] show ?thesis by simp
qed

section \<open>The order of the rows\<close>

text \<open>
  The rows of a file are the snapshot, reordered: nothing is lost or invented, a row
  with more profitable checks comes first, and among equals the one with more routes.
\<close>

theorem report_order_sorted:
  "mset (report_order rows) = mset rows \<and>
   sorted_wrt (\<lambda>a b. profitable b < profitable a \<or> (profitable a = profitable b \<and> route_ok b \<le> route_ok a))
     (report_order rows)"
proof -
  have stable: "sorted_wrt (\<lambda>a b. f a < f b \<or> (f a = f b \<and> P a b)) (sort_key f xs)"
    if "sorted_wrt P xs" for f :: "token_stat \<Rightarrow> int" and P xs
    using that
  proof (induction xs)
    case (Cons x xs)
    have "sorted_wrt (\<lambda>a b. f a < f b \<or> (f a = f b \<and> P a b)) (insort_key f x ys)"
      if "sorted_wrt (\<lambda>a b. f a < f b \<or> (f a = f b \<and> P a b)) ys" "\<forall>y \<in> set ys. P x y" for ys
      using that by (induction ys) (auto simp: set_insort_key)
    with Cons show ?case by simp
  qed simp
  have "sorted_wrt (\<lambda>a b. route_ok b \<le> route_ok a) (sort_key (\<lambda>s. - int (unat (route_ok s))) rows)"
    using sorted_sort_key [of "\<lambda>s. - int (unat (route_ok s))" rows]
    by (simp add: sorted_map word_le_def)
  from stable [OF this, of "\<lambda>s. - int (unat (profitable s))"] show ?thesis
    by (simp add: report_order_def word_less_def word_uint_eq_iff [symmetric])
qed

end
