(* ===== verification/Config.thy ===== *)
theory Config
  imports Pipeline "HOL-Library.Monad_Syntax"
begin

text \<open>
  \<open>src/config.rs\<close>: the configuration and its defaults. The TOML parser is a parameter that yields a
  value; decoding a value into the structs is what \<open>serde\<close> documents for derived \<open>Deserialize\<close>: a
  missing field without \<open>default\<close> is an error, one with \<open>default\<close> takes it, an integer must fit its
  type, unknown keys are ignored. A failure is \<open>None\<close>, since \<open>load\<close> only passes it on. Floating
  point is the type \<open>'f\<close>, and \<open>of_i64\<close> converts an integer literal to it. A struct written as a TOML
  array of its fields is not considered.
\<close>

datatype 'f toml =
    TString string
  | TInteger int
  | TFloat 'f
  | TBoolean bool
  | TDatetime string
  | TArray "'f toml list"
  | TTable "(string \<times> 'f toml) list"

section \<open>Values\<close>

fun as_string :: "'f toml \<Rightarrow> string option" where
  "as_string (TString s) = Some s" | "as_string _ = None"

fun as_bool :: "'f toml \<Rightarrow> bool option" where
  "as_bool (TBoolean b) = Some b" | "as_bool _ = None"

fun as_uint :: "int \<Rightarrow> 'f toml \<Rightarrow> int option" where
  "as_uint bound (TInteger n) = (if 0 \<le> n \<and> n < bound then Some n else None)"
| "as_uint bound _ = None"

definition as_u64 :: "'f toml \<Rightarrow> u64 option" where
  "as_u64 v = map_option of_int (as_uint (2 ^ 64) v)"

definition as_u32 :: "'f toml \<Rightarrow> u32 option" where
  "as_u32 v = map_option of_int (as_uint (2 ^ 32) v)"

definition as_usize :: "'f toml \<Rightarrow> nat option" where
  "as_usize v = map_option nat (as_uint (2 ^ 64) v)"

fun as_f64 :: "(int \<Rightarrow> 'f) \<Rightarrow> 'f toml \<Rightarrow> 'f option" where
  "as_f64 of_i64 (TFloat x) = Some x"
| "as_f64 of_i64 (TInteger n) = Some (of_i64 n)"
| "as_f64 of_i64 _ = None"

fun all_some :: "('a \<Rightarrow> 'b option) \<Rightarrow> 'a list \<Rightarrow> 'b list option" where
  "all_some f [] = Some []"
| "all_some f (x # xs) = do { y \<leftarrow> f x; ys \<leftarrow> all_some f xs; Some (y # ys) }"

fun as_vec :: "('f toml \<Rightarrow> 'a option) \<Rightarrow> 'f toml \<Rightarrow> 'a list option" where
  "as_vec dec (TArray vs) = all_some dec vs" | "as_vec dec _ = None"

text \<open>The fields of a struct; \<open>optional\<close> is a field of type \<open>Option\<close>.\<close>

fun table_fields :: "'f toml \<Rightarrow> (string \<times> 'f toml) list option" where
  "table_fields (TTable kvs) = Some kvs" | "table_fields _ = None"

definition required :: "('f toml \<Rightarrow> 'a option) \<Rightarrow> string \<Rightarrow> (string \<times> 'f toml) list \<Rightarrow> 'a option" where
  "required dec k t = (case map_of t k of None \<Rightarrow> None | Some v \<Rightarrow> dec v)"

definition defaulted :: "('f toml \<Rightarrow> 'a option) \<Rightarrow> 'a \<Rightarrow> string \<Rightarrow> (string \<times> 'f toml) list \<Rightarrow> 'a option" where
  "defaulted dec d k t = (case map_of t k of None \<Rightarrow> Some d | Some v \<Rightarrow> dec v)"

definition optional :: "('f toml \<Rightarrow> 'a option) \<Rightarrow> string \<Rightarrow> (string \<times> 'f toml) list \<Rightarrow> 'a option option" where
  "optional dec k t = (case map_of t k of None \<Rightarrow> Some None | Some v \<Rightarrow> map_option Some (dec v))"

section \<open>The sections\<close>

record metis_config =
  mcf_url :: string
  mcf_binary_key :: string

record 'f trading_config =
  tr_min_amount_sol :: 'f
  tr_max_amount_sol :: 'f
  tr_step_sol :: 'f
  tr_min_profit_lamports :: u64
  tr_base_fee_lamports :: u64
  tr_tokens_file :: string

record 'f jito_config =
  ji_urls :: "string list"
  ji_uuid :: string
  ji_trading_keypair :: string
  ji_tip_min_lamports :: u64
  ji_tip_max_lamports :: u64
  ji_tip_profit_percent :: 'f
  ji_max_bundles_per_second :: u32

record rpc_config =
  rpc_url :: string

record yellowstone_config =
  yc_endpoint :: string
  yc_x_token :: string

record simulation_config =
  sc_enabled :: bool
  sc_so_dir :: string
  sc_dex_dir :: string
  sc_fail_closed :: bool
  sc_workers :: nat

record jito_grpc_config =
  jg_enabled :: bool
  jg_endpoints :: "string list"
  jg_auth_keypair :: string
  jg_max_bundles_per_second :: u32

record performance_config =
  pf_threads :: nat
  pf_quote_timeout_ms :: u64
  pf_cu_limits :: "u32 list"
  pf_max_concurrent_quotes :: nat
  pf_calc_workers :: nat
  pf_queue_max_age_ms :: u64
  pf_bot_cpu_cores :: "nat list"

record 'f config =
  cf_metis :: metis_config
  cf_trading :: "'f trading_config"
  cf_jito :: "'f jito_config"
  cf_rpc :: rpc_config
  cf_yellowstone_grpc :: yellowstone_config
  cf_performance :: performance_config
  cf_simulation :: simulation_config
  cf_jito_grpc :: jito_grpc_config
  cf_template_cache :: template_cache_config

section \<open>Defaults\<close>

definition default_so_dir :: string where
  "default_so_dir = ''/home/soluser/m/so''"

definition default_dex_dir :: string where
  "default_dex_dir = ''vendor/litesvm/dex''"

definition default_workers :: nat where
  "default_workers = 8"

definition default_jito_grpc_endpoints :: "string list" where
  "default_jito_grpc_endpoints =
     [''https://amsterdam.mainnet.block-engine.jito.wtf'',
      ''https://dublin.mainnet.block-engine.jito.wtf'',
      ''https://frankfurt.mainnet.block-engine.jito.wtf'',
      ''https://london.mainnet.block-engine.jito.wtf'',
      ''https://ny.mainnet.block-engine.jito.wtf'',
      ''https://slc.mainnet.block-engine.jito.wtf'',
      ''https://singapore.mainnet.block-engine.jito.wtf'',
      ''https://tokyo.mainnet.block-engine.jito.wtf'']"

definition default_grpc_rate :: u32 where
  "default_grpc_rate = 5"

definition default_max_concurrent_quotes :: nat where
  "default_max_concurrent_quotes = 512"

definition default_calc_workers :: nat where
  "default_calc_workers = 6"

definition default_queue_max_age_ms :: u64 where
  "default_queue_max_age_ms = 5000"

text \<open>The three \<open>Default\<close> implementations.\<close>

definition simulation_default :: simulation_config where
  "simulation_default = \<lparr>sc_enabled = False, sc_so_dir = default_so_dir, sc_dex_dir = default_dex_dir,
     sc_fail_closed = True, sc_workers = default_workers\<rparr>"

definition jito_grpc_default :: jito_grpc_config where
  "jito_grpc_default = \<lparr>jg_enabled = False, jg_endpoints = default_jito_grpc_endpoints,
     jg_auth_keypair = [], jg_max_bundles_per_second = default_grpc_rate\<rparr>"

definition template_cache_default :: template_cache_config where
  "template_cache_default = \<lparr>tc_save_new = False, tc_serve_route = False, tc_serve_from_metis = True\<rparr>"

section \<open>Decoding\<close>

definition decode_metis :: "'f toml \<Rightarrow> metis_config option" where
  "decode_metis v = do {
     t \<leftarrow> table_fields v;
     url \<leftarrow> required as_string ''url'' t;
     key \<leftarrow> required as_string ''binary_key'' t;
     Some \<lparr>mcf_url = url, mcf_binary_key = key\<rparr> }"

definition decode_trading :: "(int \<Rightarrow> 'f) \<Rightarrow> 'f toml \<Rightarrow> 'f trading_config option" where
  "decode_trading of_i64 v = do {
     t \<leftarrow> table_fields v;
     lo \<leftarrow> required (as_f64 of_i64) ''min_amount_sol'' t;
     hi \<leftarrow> required (as_f64 of_i64) ''max_amount_sol'' t;
     step \<leftarrow> required (as_f64 of_i64) ''step_sol'' t;
     profit \<leftarrow> required as_u64 ''min_profit_lamports'' t;
     fee \<leftarrow> required as_u64 ''base_fee_lamports'' t;
     file \<leftarrow> required as_string ''tokens_file'' t;
     Some \<lparr>tr_min_amount_sol = lo, tr_max_amount_sol = hi, tr_step_sol = step,
       tr_min_profit_lamports = profit, tr_base_fee_lamports = fee, tr_tokens_file = file\<rparr> }"

definition decode_jito :: "(int \<Rightarrow> 'f) \<Rightarrow> 'f toml \<Rightarrow> 'f jito_config option" where
  "decode_jito of_i64 v = do {
     t \<leftarrow> table_fields v;
     urls \<leftarrow> required (as_vec as_string) ''urls'' t;
     uuid \<leftarrow> required as_string ''uuid'' t;
     kp \<leftarrow> required as_string ''trading_keypair'' t;
     tip_min \<leftarrow> required as_u64 ''tip_min_lamports'' t;
     tip_max \<leftarrow> required as_u64 ''tip_max_lamports'' t;
     percent \<leftarrow> required (as_f64 of_i64) ''tip_profit_percent'' t;
     rate \<leftarrow> required as_u32 ''max_bundles_per_second'' t;
     Some \<lparr>ji_urls = urls, ji_uuid = uuid, ji_trading_keypair = kp, ji_tip_min_lamports = tip_min,
       ji_tip_max_lamports = tip_max, ji_tip_profit_percent = percent, ji_max_bundles_per_second = rate\<rparr> }"

definition decode_rpc :: "'f toml \<Rightarrow> rpc_config option" where
  "decode_rpc v = do { t \<leftarrow> table_fields v; url \<leftarrow> required as_string ''url'' t; Some \<lparr>rpc_url = url\<rparr> }"

definition decode_yellowstone :: "'f toml \<Rightarrow> yellowstone_config option" where
  "decode_yellowstone v = do {
     t \<leftarrow> table_fields v;
     endpoint \<leftarrow> required as_string ''endpoint'' t;
     token \<leftarrow> required as_string ''x_token'' t;
     Some \<lparr>yc_endpoint = endpoint, yc_x_token = token\<rparr> }"

definition decode_simulation :: "'f toml \<Rightarrow> simulation_config option" where
  "decode_simulation v = do {
     t \<leftarrow> table_fields v;
     enabled \<leftarrow> defaulted as_bool False ''enabled'' t;
     so_dir \<leftarrow> defaulted as_string default_so_dir ''so_dir'' t;
     dex_dir \<leftarrow> defaulted as_string default_dex_dir ''dex_dir'' t;
     fail_closed \<leftarrow> defaulted as_bool True ''fail_closed'' t;
     workers \<leftarrow> defaulted as_usize default_workers ''workers'' t;
     Some \<lparr>sc_enabled = enabled, sc_so_dir = so_dir, sc_dex_dir = dex_dir,
       sc_fail_closed = fail_closed, sc_workers = workers\<rparr> }"

definition decode_jito_grpc :: "'f toml \<Rightarrow> jito_grpc_config option" where
  "decode_jito_grpc v = do {
     t \<leftarrow> table_fields v;
     enabled \<leftarrow> defaulted as_bool False ''enabled'' t;
     endpoints \<leftarrow> defaulted (as_vec as_string) default_jito_grpc_endpoints ''endpoints'' t;
     kp \<leftarrow> defaulted as_string [] ''auth_keypair'' t;
     rate \<leftarrow> defaulted as_u32 default_grpc_rate ''max_bundles_per_second'' t;
     Some \<lparr>jg_enabled = enabled, jg_endpoints = endpoints, jg_auth_keypair = kp,
       jg_max_bundles_per_second = rate\<rparr> }"

definition decode_performance :: "'f toml \<Rightarrow> performance_config option" where
  "decode_performance v = do {
     t \<leftarrow> table_fields v;
     threads \<leftarrow> required as_usize ''threads'' t;
     timeout \<leftarrow> required as_u64 ''quote_timeout_ms'' t;
     cu \<leftarrow> required (as_vec as_u32) ''cu_limits'' t;
     quotes \<leftarrow> defaulted as_usize default_max_concurrent_quotes ''max_concurrent_quotes'' t;
     workers \<leftarrow> defaulted as_usize default_calc_workers ''calc_workers'' t;
     age \<leftarrow> defaulted as_u64 default_queue_max_age_ms ''queue_max_age_ms'' t;
     cores \<leftarrow> defaulted (as_vec as_usize) [] ''bot_cpu_cores'' t;
     Some \<lparr>pf_threads = threads, pf_quote_timeout_ms = timeout, pf_cu_limits = cu,
       pf_max_concurrent_quotes = quotes, pf_calc_workers = workers, pf_queue_max_age_ms = age,
       pf_bot_cpu_cores = cores\<rparr> }"

definition decode_template_cache :: "'f toml \<Rightarrow> template_cache_config option" where
  "decode_template_cache v = do {
     t \<leftarrow> table_fields v;
     save \<leftarrow> defaulted as_bool False ''save_new'' t;
     serve \<leftarrow> defaulted as_bool False ''serve_route'' t;
     metis \<leftarrow> defaulted as_bool True ''serve_from_metis'' t;
     Some \<lparr>tc_save_new = save, tc_serve_route = serve, tc_serve_from_metis = metis\<rparr> }"

definition decode_config :: "(int \<Rightarrow> 'f) \<Rightarrow> 'f toml \<Rightarrow> 'f config option" where
  "decode_config of_i64 v = do {
     t \<leftarrow> table_fields v;
     metis \<leftarrow> required decode_metis ''metis'' t;
     trading \<leftarrow> required (decode_trading of_i64) ''trading'' t;
     jito \<leftarrow> required (decode_jito of_i64) ''jito'' t;
     rpc \<leftarrow> required decode_rpc ''rpc'' t;
     yellowstone \<leftarrow> required decode_yellowstone ''yellowstone_grpc'' t;
     performance \<leftarrow> required decode_performance ''performance'' t;
     simulation \<leftarrow> defaulted decode_simulation simulation_default ''simulation'' t;
     jito_grpc \<leftarrow> defaulted decode_jito_grpc jito_grpc_default ''jito_grpc'' t;
     template_cache \<leftarrow> defaulted decode_template_cache template_cache_default ''template_cache'' t;
     Some \<lparr>cf_metis = metis, cf_trading = trading, cf_jito = jito, cf_rpc = rpc,
       cf_yellowstone_grpc = yellowstone, cf_performance = performance, cf_simulation = simulation,
       cf_jito_grpc = jito_grpc, cf_template_cache = template_cache\<rparr> }"

datatype config_error = Config_unreadable | Config_invalid

definition config_load ::
    "(string \<Rightarrow> string option) \<Rightarrow> (string \<Rightarrow> 'f toml option) \<Rightarrow> (int \<Rightarrow> 'f) \<Rightarrow> string \<Rightarrow>
     config_error + 'f config" where
  "config_load read_file parse of_i64 path =
     (case read_file path of
        None \<Rightarrow> Inl Config_unreadable
      | Some content \<Rightarrow>
          (case Option.bind (parse content) (decode_config of_i64) of
             None \<Rightarrow> Inl Config_invalid
           | Some c \<Rightarrow> Inr c))"

section \<open>Absent sections\<close>

text \<open>Each \<open>Default\<close> implementation agrees with the defaults of the fields.\<close>

lemma decode_empty [simp]:
  "decode_simulation (TTable []) = Some simulation_default"
  "decode_jito_grpc (TTable []) = Some jito_grpc_default"
  "decode_template_cache (TTable []) = Some template_cache_default"
  by (simp_all add: decode_simulation_def decode_jito_grpc_def decode_template_cache_def defaulted_def
      simulation_default_def jito_grpc_default_def template_cache_default_def)

text \<open>Appending an empty section for each of the names that has none.\<close>

definition with_section :: "string \<Rightarrow> (string \<times> 'f toml) list \<Rightarrow> (string \<times> 'f toml) list" where
  "with_section k t = (if map_of t k = None then t @ [(k, TTable [])] else t)"

lemma map_of_with_section:
  "map_of (with_section k t) k' =
     (if k' = k \<and> map_of t k = None then Some (TTable []) else map_of t k')"
  by (auto simp: with_section_def map_add_def split: option.split)

lemma required_with_section [simp]: "k \<noteq> k' \<Longrightarrow> required dec k (with_section k' t) = required dec k t"
  by (simp add: required_def map_of_with_section)

lemma defaulted_with_section [simp]: "k \<noteq> k' \<Longrightarrow> defaulted dec d k (with_section k' t) = defaulted dec d k t"
  by (simp add: defaulted_def map_of_with_section)

lemma defaulted_own_section [simp]:
  "dec (TTable []) = Some d \<Longrightarrow> defaulted dec d k (with_section k t) = defaulted dec d k t"
  by (auto simp: defaulted_def map_of_with_section split: option.split)

text \<open>
  Property C40. Leaving a section out is the same as leaving it empty: a file with any of the sections
  \<open>simulation\<close>, \<open>jito_grpc\<close>, \<open>template_cache\<close> missing decodes, or fails to decode, exactly as the file
  with empty sections in their place. The \<open>Default\<close> implementations and the per-field defaults,
  written down twice in the code, agree.
\<close>

theorem absent_sections_as_empty:
  "decode_config of_i64 (TTable t) =
   decode_config of_i64 (TTable (with_section ''simulation'' (with_section ''jito_grpc''
     (with_section ''template_cache'' t))))"
  by (simp add: decode_config_def)

end
