(* ===== verification/Template_Disk.thy ===== *)
theory Template_Disk
  imports Store_Properties
begin

text \<open>
  Persistence of the template store (\<open>src/template_cache.rs\<close>, the disk part): the records written
  to \<open>cache/routes.json\<close> and \<open>cache/hops/*.json\<close>, flushing and loading. A file system is the map
  from paths to contents, with a directory listing for \<open>hops/\<close>. The JSON encoding is \<open>serde\<close>'s and
  a parameter: its documented law is that decoding an encoded value yields an equal value, where
  equal maps may iterate in another order.
\<close>

record route_record =
  rr_sig :: string
  rr_swap_ixs :: swap_instructions_response
  rr_template_in_amount :: u64
  rr_template_quoted_out :: u64
  rr_in_offset :: "nat option"
  rr_out_offset :: "nat option"
  rr_seen_count :: u64
  rr_hit_count :: u64

record route_file =
  rf_schema_version :: u32
  rf_routes :: "route_record list"
  rf_hop_pairs :: "(string, string) hmap"

record dex_hop_file =
  df_schema_version :: u32
  df_dex :: dex_kind
  df_templates :: "(string, hop_template) hmap"

record serde =
  enc_routes :: "route_file \<Rightarrow> string option"
  dec_routes :: "string \<Rightarrow> route_file option"
  enc_hops :: "dex_hop_file \<Rightarrow> string option"
  dec_hops :: "string \<Rightarrow> dex_hop_file option"

definition same_map :: "('k, 'v) hmap \<Rightarrow> ('k, 'v) hmap \<Rightarrow> bool" where
  "same_map m m' \<longleftrightarrow> hm_wf m' \<and> hm_get m' = hm_get m"

text \<open>
  What \<open>serde_json\<close> documents for types of strings, integers, booleans, lists, options and string
  maps: encoding succeeds, and decoding the text gives back an equal value.
\<close>

definition serde_lawful :: "serde \<Rightarrow> bool" where
  "serde_lawful J \<longleftrightarrow>
     (\<forall>f. hm_wf (rf_hop_pairs f) \<longrightarrow> (\<exists>s hp. enc_routes J f = Some s \<and>
        dec_routes J s = Some (f\<lparr>rf_hop_pairs := hp\<rparr>) \<and> same_map (rf_hop_pairs f) hp)) \<and>
     (\<forall>f. hm_wf (df_templates f) \<longrightarrow> (\<exists>s ts. enc_hops J f = Some s \<and>
        dec_hops J s = Some (f\<lparr>df_templates := ts\<rparr>) \<and> same_map (df_templates f) ts))"

section \<open>Loading\<close>

text \<open>\<open>read_dir\<close> of a directory, with what reading each file in it gives.\<close>

type_synonym files = "(string, string) hmap"

definition list_dir :: "string \<Rightarrow> files \<Rightarrow> (string \<times> string option) list" where
  "list_dir dir fs =
     map (\<lambda>(p, c). (drop (length dir + 1) p, Some c))
       (filter (\<lambda>(p, c). prefix (dir @ ''/'') p \<and> CHR ''/'' \<notin> set (drop (length dir + 1) p)) fs)"

text \<open>\<open>Path::extension\<close> of a file name.\<close>

definition extension :: "string \<Rightarrow> string option" where
  "extension name =
     (let after = takeWhile (\<lambda>c. c \<noteq> CHR ''.'') (rev name);
          before = drop (length after + 1) (rev name)
      in if length after = length name \<or> before = [] then None else Some (rev after))"

definition load_template :: "(hop_key, hop_template) hmap \<Rightarrow> string \<times> hop_template \<Rightarrow> (hop_key, hop_template) hmap" where
  "load_template m = (\<lambda>(_, tmpl). hm_or_insert (template_key tmpl) tmpl m)"

text \<open>One directory entry: its name and its content, if readable.\<close>

definition load_hop_entry ::
    "serde \<Rightarrow> string \<times> string option \<Rightarrow> (hop_key, hop_template) hmap \<times> nat \<Rightarrow> (hop_key, hop_template) hmap \<times> nat" where
  "load_hop_entry J = (\<lambda>(name, content) (m, count).
     if extension name \<noteq> Some ''json'' then (m, count)
     else (case Option.bind content (dec_hops J) of
             None \<Rightarrow> (m, count)
           | Some file \<Rightarrow> (foldl load_template m (df_templates file), count + length (df_templates file))))"

definition load_from_disk :: "serde \<Rightarrow> (string \<times> string option) list option \<Rightarrow> store \<Rightarrow> nat \<times> store" where
  "load_from_disk J dir g =
     (case dir of
        None \<Rightarrow> (0, g)
      | Some entries \<Rightarrow>
          (let (m, count) = fold (load_hop_entry J) entries (hops g, 0) in (count, g\<lparr>hops := m\<rparr>)))"

definition template_of_record :: "u128 \<Rightarrow> route_record \<Rightarrow> route_template" where
  "template_of_record sig rec =
     \<lparr>rt_signature = sig, rt_swap_ixs = rr_swap_ixs rec,
      rt_template_in_amount = rr_template_in_amount rec,
      rt_template_quoted_out = rr_template_quoted_out rec,
      rt_in_offset = rr_in_offset rec, rt_out_offset = rr_out_offset rec,
      rt_amount_variants = [], rt_seen_count = rr_seen_count rec, rt_hit_count = rr_hit_count rec\<rparr>"

definition load_route :: "store \<times> nat \<Rightarrow> route_record \<Rightarrow> store \<times> nat" where
  "load_route = (\<lambda>(g, count) rec.
     case parse_u128 (rr_sig rec) of
       None \<Rightarrow> (g, count)
     | Some sig \<Rightarrow>
         if hm_contains (routes_hot g) sig \<or> hm_contains (routes_cold g) sig then (g, count)
         else (g\<lparr>routes_hot := hm_insert sig (template_of_record sig rec) (routes_hot g)\<rparr>, count + 1))"

definition load_pair :: "(string, u128) hmap \<Rightarrow> string \<times> string \<Rightarrow> (string, u128) hmap" where
  "load_pair m = (\<lambda>(pk, sig_str).
     case parse_u128 sig_str of Some sig \<Rightarrow> hm_or_insert pk sig m | None \<Rightarrow> m)"

definition load_routes_from_disk :: "serde \<Rightarrow> string option \<Rightarrow> store \<Rightarrow> nat \<times> store" where
  "load_routes_from_disk J content g =
     (case Option.bind content (dec_routes J) of
        None \<Rightarrow> (0, g)
      | Some file \<Rightarrow>
          (let (g1, count) = foldl load_route (g, 0) (rf_routes file)
           in (count, g1\<lparr>hop_pair_index := foldl load_pair (hop_pair_index g1) (rf_hop_pairs file)\<rparr>)))"

section \<open>Flushing\<close>

definition record_of_template :: "route_template \<Rightarrow> route_record" where
  "record_of_template t =
     \<lparr>rr_sig = string_of_u128 (rt_signature t), rr_swap_ixs = rt_swap_ixs t,
      rr_template_in_amount = rt_template_in_amount t,
      rr_template_quoted_out = rt_template_quoted_out t,
      rr_in_offset = rt_in_offset t, rr_out_offset = rt_out_offset t,
      rr_seen_count = rt_seen_count t, rr_hit_count = rt_hit_count t\<rparr>"

definition route_file_of :: "store \<Rightarrow> route_file" where
  "route_file_of g =
     \<lparr>rf_schema_version = 1,
      rf_routes = map record_of_template (hm_values (routes_hot g) @ hm_values (routes_cold g)),
      rf_hop_pairs = map (\<lambda>(k, v). (k, string_of_u128 v)) (hop_pair_index g)\<rparr>"

text \<open>Grouping the hops by DEX: one file per file stem, keyed by template id inside.\<close>

type_synonym dex_groups = "(string, dex_kind \<times> (string, hop_template) hmap) hmap"

definition group_hop :: "dex_groups \<Rightarrow> hop_key \<times> hop_template \<Rightarrow> dex_groups" where
  "group_hop groups = (\<lambda>(key, tmpl).
     hm_modify (file_stem (hk_dex key)) (\<lambda>(dex, m). (dex, hm_insert (template_id key) tmpl m))
       (hm_or_insert (file_stem (hk_dex key)) (hk_dex key, []) groups))"

definition hop_groups :: "store \<Rightarrow> dex_groups" where
  "hop_groups g = foldl group_hop [] (hops g)"

text \<open>
  Writing a file: the content goes to \<open>path.tmp\<close>, which then replaces \<open>path\<close>. Either operation may
  fail, or the process may die in it: the temporary file is not opened, holds some prefix of the
  content, or is complete and not renamed.
\<close>

datatype save_outcome = Open_failed | Write_failed nat | Rename_failed | Saved

definition save_file :: "save_outcome \<Rightarrow> string \<Rightarrow> string \<Rightarrow> files \<Rightarrow> files" where
  "save_file r path json fs =
     (case r of
        Open_failed \<Rightarrow> fs
      | Write_failed n \<Rightarrow> hm_insert (path @ ''.tmp'') (take n json) fs
      | Rename_failed \<Rightarrow> hm_insert (path @ ''.tmp'') json fs
      | Saved \<Rightarrow> hm_remove (path @ ''.tmp'') (hm_insert path json (hm_insert (path @ ''.tmp'') json fs)))"

definition routes_json_path :: string where
  "routes_json_path = ''/root/c/cache/routes.json''"

definition flush_routes_to_disk :: "serde \<Rightarrow> save_outcome \<Rightarrow> store \<Rightarrow> files \<Rightarrow> files" where
  "flush_routes_to_disk J r g fs =
     (case enc_routes J (route_file_of g) of
        None \<Rightarrow> fs
      | Some json \<Rightarrow> save_file r routes_json_path json fs)"

definition hops_dir :: string where
  "hops_dir = ''/root/c/cache/hops''"

definition hop_file_path :: "string \<Rightarrow> string" where
  "hop_file_path stem = hops_dir @ ''/'' @ stem @ ''.json''"

definition flush_group ::
    "serde \<Rightarrow> (string \<Rightarrow> save_outcome) \<Rightarrow> files \<Rightarrow> string \<times> dex_kind \<times> (string, hop_template) hmap \<Rightarrow> files" where
  "flush_group J r fs = (\<lambda>(stem, dex, templates).
     case enc_hops J \<lparr>df_schema_version = 1, df_dex = dex, df_templates = templates\<rparr> of
       None \<Rightarrow> fs
     | Some json \<Rightarrow> save_file (r stem) (hop_file_path stem) json fs)"

definition flush_to_disk :: "serde \<Rightarrow> save_outcome \<Rightarrow> (string \<Rightarrow> save_outcome) \<Rightarrow> store \<Rightarrow> files \<Rightarrow> files" where
  "flush_to_disk J r rs g fs =
     foldl (flush_group J rs) (flush_routes_to_disk J r g fs) (hop_groups g)"

end
