(* ===== verification/Alt_Tables.thy ===== *)
theory Alt_Tables
  imports Hash_Map
begin

text \<open>
  Address lookup tables: \<open>deserialize_alt_addresses\<close> of \<open>src/transaction.rs\<close> and the cache of
  \<open>src/alt_cache.rs\<close>. A \<open>Pubkey\<close> is its 32 bytes. The RPC client is a parameter: it answers an
  address with the data of the account or with nothing.
\<close>

type_synonym pubkey = bytes

datatype alt_error = Data_too_short nat | Bad_length nat

record alt_account =
  alt_key :: pubkey
  alt_addresses :: "pubkey list"

definition ALT_HEADER_SIZE :: nat where
  "ALT_HEADER_SIZE = 56"

text \<open>\<open>chunks_exact(32)\<close>: full chunks only, a shorter rest is dropped.\<close>

function chunks_exact :: "nat \<Rightarrow> 'a list \<Rightarrow> 'a list list" where
  "chunks_exact n xs =
     (if n = 0 \<or> length xs < n then [] else take n xs # chunks_exact n (drop n xs))"
  by pat_completeness auto
termination
  by (relation "measure (\<lambda>(n, xs). length xs)") auto

declare chunks_exact.simps [simp del]

definition deserialize_alt_addresses :: "bytes \<Rightarrow> alt_error + pubkey list" where
  "deserialize_alt_addresses data =
     (if length data < ALT_HEADER_SIZE then Inl (Data_too_short (length data))
      else
        (let addresses_data = drop ALT_HEADER_SIZE data in
         if length addresses_data mod 32 \<noteq> 0 then Inl (Bad_length (length addresses_data))
         else Inr (chunks_exact 32 addresses_data)))"

section \<open>The cache\<close>

record alt_cache =
  ac_inner :: "(pubkey, alt_account) hmap"
  ac_tip_pubkeys :: "pubkey list"

datatype fetch_error = Rpc_failed | Bad_table alt_error

definition alt_cache_new :: "pubkey list \<Rightarrow> alt_cache" where
  "alt_cache_new tips = \<lparr>ac_inner = [], ac_tip_pubkeys = tips\<rparr>"

definition alt_get_or_fetch ::
    "(pubkey \<Rightarrow> bytes option) \<Rightarrow> pubkey \<Rightarrow> alt_cache \<Rightarrow> (fetch_error + alt_account) \<times> alt_cache" where
  "alt_get_or_fetch rpc key c =
     (case hm_get (ac_inner c) key of
        Some alt \<Rightarrow> (Inr alt, c)
      | None \<Rightarrow>
          (case rpc key of
             None \<Rightarrow> (Inl Rpc_failed, c)
           | Some data \<Rightarrow>
               (case deserialize_alt_addresses data of
                  Inl e \<Rightarrow> (Inl (Bad_table e), c)
                | Inr addresses \<Rightarrow>
                    (let alt = \<lparr>alt_key = key,
                           alt_addresses = filter (\<lambda>a. \<not> List.member (ac_tip_pubkeys c) a) addresses\<rparr>
                     in (Inr alt, c\<lparr>ac_inner := hm_insert key alt (ac_inner c)\<rparr>)))))"

definition alt_clear :: "alt_cache \<Rightarrow> alt_cache" where
  "alt_clear c = c\<lparr>ac_inner := []\<rparr>"

section \<open>Decoding\<close>

lemma chunks_short: "length xs < n \<Longrightarrow> chunks_exact n xs = []"
  by (simp add: chunks_exact.simps)

lemma chunks_step:
  "n \<noteq> 0 \<Longrightarrow> n \<le> length xs \<Longrightarrow> chunks_exact n xs = take n xs # chunks_exact n (drop n xs)"
  by (subst chunks_exact.simps) simp

lemma chunks_exact_concat:
  "\<forall>k \<in> set keys. length k = 32 \<Longrightarrow> chunks_exact 32 (concat keys) = keys"
  by (induction keys) (simp_all add: chunks_short chunks_step)

lemma length_concat_keys: "\<forall>k \<in> set keys. length k = 32 \<Longrightarrow> length (concat keys) = 32 * length keys"
  by (induction keys) auto

lemma chunks_exact_parts:
  "length xs = n * k \<Longrightarrow> n \<noteq> 0 \<Longrightarrow>
   concat (chunks_exact n xs) = xs \<and> (\<forall>c \<in> set (chunks_exact n xs). length c = n)"
proof (induction k arbitrary: xs)
  case 0
  then show ?case by (simp add: chunks_short)
next
  case (Suc k)
  then have le: "n \<le> length xs" and d: "length (drop n xs) = n * k" by simp_all
  have c: "chunks_exact n xs = take n xs # chunks_exact n (drop n xs)"
    using Suc.prems(2) le by (rule chunks_step)
  have t: "length (take n xs) = n" using le by simp
  note IH = Suc.IH [OF d Suc.prems(2)]
  have "concat (chunks_exact n xs) = xs" by (simp add: c IH [THEN conjunct1])
  moreover have "\<forall>c \<in> set (chunks_exact n xs). length c = n"
    unfolding c list.set using IH t by blast
  ultimately show ?case ..
qed

text \<open>
  Decoding a lookup table inverts its layout: the account data is a 56-byte header
  followed by the 32-byte addresses in order, and decoding succeeds on exactly these, yielding
  exactly those addresses.
\<close>

theorem deserialize_alt_iff:
  "deserialize_alt_addresses data = Inr keys \<longleftrightarrow>
     (\<exists>header. length header = 56 \<and> data = header @ concat keys \<and> list_all (\<lambda>k. length k = 32) keys)"
proof
  assume "deserialize_alt_addresses data = Inr keys"
  then have l: "56 \<le> length data" and m: "length (drop 56 data) mod 32 = 0"
    and k: "keys = chunks_exact 32 (drop 56 data)"
    by (auto simp: deserialize_alt_addresses_def ALT_HEADER_SIZE_def Let_def split: if_splits)
  have "concat keys = drop 56 data \<and> (\<forall>c \<in> set keys. length c = 32)"
    unfolding k using m by (intro chunks_exact_parts [of _ _ "length (drop 56 data) div 32"]) (auto simp: mod_eq_0_iff_dvd)
  then have "data = take 56 data @ concat keys" "list_all (\<lambda>k. length k = 32) keys"
    by (simp_all add: list_all_iff)
  moreover have "length (take 56 data) = 56" using l by simp
  ultimately show "\<exists>header. length header = 56 \<and> data = header @ concat keys \<and> list_all (\<lambda>k. length k = 32) keys"
    by blast
next
  assume "\<exists>header. length header = 56 \<and> data = header @ concat keys \<and> list_all (\<lambda>k. length k = 32) keys"
  then obtain header where h: "length header = 56" "data = header @ concat keys"
      and k: "\<forall>k \<in> set keys. length k = 32"
    by (auto simp: list_all_iff)
  then show "deserialize_alt_addresses data = Inr keys"
    using chunks_exact_concat [OF k] length_concat_keys [OF k]
    by (simp add: deserialize_alt_addresses_def ALT_HEADER_SIZE_def Let_def)
qed

section \<open>What the cache holds\<close>

text \<open>Every cached table is filed under its own key and holds no tip account.\<close>

definition alt_cache_ok :: "alt_cache \<Rightarrow> bool" where
  "alt_cache_ok c \<longleftrightarrow>
     (\<forall>key alt. hm_get (ac_inner c) key = Some alt \<longrightarrow>
        alt_key alt = key \<and> set (alt_addresses alt) \<inter> set (ac_tip_pubkeys c) = {})"

lemma alt_cache_ok_new: "alt_cache_ok (alt_cache_new tips)"
  by (simp add: alt_cache_ok_def alt_cache_new_def)

lemma alt_get_or_fetch_ok:
  assumes "alt_cache_ok c" "alt_get_or_fetch rpc key c = (r, c')"
  shows "alt_cache_ok c'" "ac_tip_pubkeys c' = ac_tip_pubkeys c"
    "r = Inr alt \<Longrightarrow> alt_key alt = key \<and> set (alt_addresses alt) \<inter> set (ac_tip_pubkeys c) = {}"
  using assms
  by (auto simp: alt_get_or_fetch_def alt_cache_ok_def disjoint_iff Let_def hm_simps
      split: option.splits sum.splits if_splits)

text \<open>
  Filtering tip accounts out of a table moves the rest: when a fetched table lists a
  tip account at index \<open>i\<close> (its first), every later index of the cached table names the address
  that the table on the chain lists one place further on, so an index compiled from the cached
  table selects the wrong account there.
\<close>

theorem cached_table_shifts:
  assumes "hm_get (ac_inner c) key = None" "rpc key = Some data"
    and "deserialize_alt_addresses data = Inr (xs @ tip # ys)"
    and "List.member (ac_tip_pubkeys c) tip"
    and "list_all (\<lambda>a. \<not> List.member (ac_tip_pubkeys c) a) (xs @ ys)" "k < length ys"
  shows "\<exists>alt. fst (alt_get_or_fetch rpc key c) = Inr alt \<and>
    alt_addresses alt ! (length xs + k) = (xs @ tip # ys) ! Suc (length xs + k)"
proof -
  have "filter (\<lambda>a. \<not> List.member (ac_tip_pubkeys c) a) (xs @ tip # ys) = xs @ ys"
    using assms(4,5) by (simp add: list_all_iff)
  with assms(1-3,6) show ?thesis
    by (simp add: alt_get_or_fetch_def Let_def nth_append)
qed

definition sample_key_bytes :: "u8 \<Rightarrow> pubkey" where
  "sample_key_bytes b = replicate 32 b"

lemma sample_key_simps: "length (sample_key_bytes b) = 32" "sample_key_bytes a = sample_key_bytes b \<longleftrightarrow> a = b"
  by (simp_all add: sample_key_bytes_def replicate_eq_replicate)

theorem cached_table_shifts_witness:
  "\<exists>alt. fst (alt_get_or_fetch
       (\<lambda>_. Some (replicate 56 0 @ concat [sample_key_bytes 1, sample_key_bytes 9, sample_key_bytes 2]))
       (sample_key_bytes 5) (alt_cache_new [sample_key_bytes 9])) = Inr alt \<and>
     alt_addresses alt ! 1 = sample_key_bytes 2"
proof -
  let ?keys = "[sample_key_bytes 1, sample_key_bytes 9, sample_key_bytes 2]"
  let ?data = "replicate 56 0 @ concat ?keys" and ?c = "alt_cache_new [sample_key_bytes 9]"
  have k: "\<forall>k \<in> set ?keys. length k = 32" by (simp add: sample_key_simps)
  have d: "deserialize_alt_addresses ?data = Inr ([sample_key_bytes 1] @ sample_key_bytes 9 # [sample_key_bytes 2])"
    using chunks_exact_concat [OF k] length_concat_keys [OF k]
    by (simp add: deserialize_alt_addresses_def ALT_HEADER_SIZE_def Let_def del: concat.simps)
  have n: "hm_get (ac_inner ?c) (sample_key_bytes 5) = None"
    and m: "List.member (ac_tip_pubkeys ?c) (sample_key_bytes 9)"
    and f: "list_all (\<lambda>a. \<not> List.member (ac_tip_pubkeys ?c) a) ([sample_key_bytes 1] @ [sample_key_bytes 2])"
    by (simp_all add: alt_cache_new_def sample_key_simps)
  show ?thesis
    using cached_table_shifts [OF n refl d m f, of 0] by simp
qed

end
