(* ===== verification/Transaction.thy ===== *)
theory Transaction
  imports Alt_Tables Borsh_Patch
begin

text \<open>
  \<open>src/transaction.rs\<close>: turning a swap-instruction reply into a signed v0 transaction. The Solana
  SDK is third-party and a parameter (\<open>sdk\<close>): parsing of base-58 addresses, the system transfer,
  compilation of a message and signing. The random choice of a tip account is the argument
  \<open>choice\<close>. \<open>expect\<close> and \<open>unwrap\<close> failures are the value \<open>Panic\<close>.
\<close>

record sdk_account_meta =
  sm_pubkey :: pubkey
  sm_is_signer :: bool
  sm_is_writable :: bool

record sdk_instruction =
  si_program_id :: pubkey
  si_accounts :: "sdk_account_meta list"
  si_data :: bytes

record table_lookup =
  tl_account_key :: pubkey
  tl_writable_indexes :: "u8 list"
  tl_readonly_indexes :: "u8 list"

record v0_message =
  vm_account_keys :: "pubkey list"
  vm_table_lookups :: "table_lookup list"

datatype versioned_message = V0 v0_message | Legacy "pubkey list"

record versioned_transaction =
  vt_message :: versioned_message
  vt_signatures :: "bytes list"

record sdk =
  pubkey_from_str :: "string \<Rightarrow> pubkey option"
  sdk_base64 :: base64_engine
  system_transfer :: "pubkey \<Rightarrow> pubkey \<Rightarrow> u64 \<Rightarrow> sdk_instruction"
  try_compile :: "pubkey \<Rightarrow> sdk_instruction list \<Rightarrow> alt_account list \<Rightarrow> bytes \<Rightarrow> v0_message option"
  try_sign :: "versioned_message \<Rightarrow> versioned_transaction option"

datatype build_error =
    Bad_pubkey string
  | Bad_instruction_data
  | Alt_failed fetch_error
  | Compile_failed
  | Sign_failed
  | Panic

definition JITO_TIP_ACCOUNTS :: "string list" where
  "JITO_TIP_ACCOUNTS =
     [''96gYZGLnJYVFmbjzopPSU6QiEV5fGqZNyN9nmNhvrZU5'',
      ''HFqU5x63VTqvQss8hp11i4wVV8bD44PvwucfZ2bU7gRe'',
      ''Cw8CFyM9FkoMi7K7Crf6HNQqf4uEMzpKw6QNghXLvLkY'',
      ''ADaUMid9yfUytqMBgopwjb2DTLSokTSzL1zt6iGPaS49'',
      ''DfXygSm4jCyNCybVYYK6DwvWqjKee8pbDmJGcLWNDXjh'',
      ''ADuUkR4vqLUMWXxW9gh6D6L8pMSawimctcNZ5pGwDcEt'',
      ''DttWaMuVvTiduZRnguLF7jNxTgiMBZ1hyAumKUiL2KRL'',
      ''3AVi9Tg9Uo68tJfuvoKvqKNWKkC5wPdSSdeBnizKZ6jT'']"

definition jito_tip_pubkeys :: "sdk \<Rightarrow> pubkey list" where
  "jito_tip_pubkeys S = List.map_filter (pubkey_from_str S) JITO_TIP_ACCOUNTS"

section \<open>Instructions\<close>

text \<open>The accounts of an instruction; an address that does not parse panics.\<close>

fun sdk_accounts :: "sdk \<Rightarrow> account_meta_data list \<Rightarrow> build_error + sdk_account_meta list" where
  "sdk_accounts S [] = Inr []"
| "sdk_accounts S (a # as) =
     (case pubkey_from_str S (am_pubkey a) of
        None \<Rightarrow> Inl Panic
      | Some key \<Rightarrow>
          (case sdk_accounts S as of
             Inl e \<Rightarrow> Inl e
           | Inr ms \<Rightarrow>
               Inr (\<lparr>sm_pubkey = key, sm_is_signer = am_is_signer a, sm_is_writable = am_is_writable a\<rparr> # ms)))"

definition to_sdk_instruction :: "sdk \<Rightarrow> instruction_data \<Rightarrow> build_error + sdk_instruction" where
  "to_sdk_instruction S ix =
     (case pubkey_from_str S (ix_program_id ix) of
        None \<Rightarrow> Inl (Bad_pubkey (ix_program_id ix))
      | Some program_id \<Rightarrow>
          (case sdk_accounts S (ix_accounts ix) of
             Inl e \<Rightarrow> Inl e
           | Inr accounts \<Rightarrow>
               (case b64_decode (sdk_base64 S) (ix_data ix) of
                  None \<Rightarrow> Inl Bad_instruction_data
                | Some data \<Rightarrow>
                    Inr \<lparr>si_program_id = program_id, si_accounts = accounts, si_data = data\<rparr>)))"

definition cu_limit_data :: "u32 \<Rightarrow> bytes" where
  "cu_limit_data cu_limit = 2 # u32_to_le cu_limit"

section \<open>Lookup tables of a transaction\<close>

text \<open>Parsing the addresses in order, keeping the first occurrence of each.\<close>

fun parse_alts :: "sdk \<Rightarrow> string list \<Rightarrow> pubkey list \<Rightarrow> build_error + pubkey list" where
  "parse_alts S [] found = Inr found"
| "parse_alts S (addr # addrs) found =
     (case pubkey_from_str S addr of
        None \<Rightarrow> Inl (Bad_pubkey addr)
      | Some key \<Rightarrow>
          parse_alts S addrs (if \<not> List.member found key then found @ [key] else found))"

fun fetch_alts ::
    "(pubkey \<Rightarrow> bytes option) \<Rightarrow> pubkey list \<Rightarrow> alt_cache \<Rightarrow> (build_error + alt_account list) \<times> alt_cache" where
  "fetch_alts rpc [] c = (Inr [], c)"
| "fetch_alts rpc (k # ks) c =
     (case alt_get_or_fetch rpc k c of
        (Inl e, c1) \<Rightarrow> (Inl (Alt_failed e), c1)
      | (Inr alt, c1) \<Rightarrow>
          (case fetch_alts rpc ks c1 of
             (Inl e, c2) \<Rightarrow> (Inl e, c2)
           | (Inr alts, c2) \<Rightarrow> (Inr (alt # alts), c2)))"

section \<open>The transaction\<close>

definition build_arb_transaction ::
    "sdk \<Rightarrow> (pubkey \<Rightarrow> bytes option) \<Rightarrow> nat \<Rightarrow> swap_instructions_response \<Rightarrow> pubkey \<Rightarrow> u64 \<Rightarrow> u32 \<Rightarrow> bytes \<Rightarrow>
     alt_cache \<Rightarrow> (build_error + versioned_transaction) \<times> alt_cache" where
  "build_arb_transaction S rpc choice swap_ixs payer tip_lamports cu_limit recent_blockhash c =
     (case pubkey_from_str S ''ComputeBudget111111111111111111111111111111'' of
        None \<Rightarrow> (Inl (Bad_pubkey ''ComputeBudget111111111111111111111111111111''), c)
      | Some cb \<Rightarrow>
     (let cu_limit_ix = \<lparr>si_program_id = cb, si_accounts = [], si_data = cu_limit_data cu_limit\<rparr> in
      case to_sdk_instruction S (swap_instruction swap_ixs) of
        Inl e \<Rightarrow> (Inl e, c)
      | Inr swap_ix \<Rightarrow>
     (let addr = JITO_TIP_ACCOUNTS ! (choice mod length JITO_TIP_ACCOUNTS) in
      case pubkey_from_str S addr of
        None \<Rightarrow> (Inl (Bad_pubkey addr), c)
      | Some tip_account \<Rightarrow>
     (let instructions = [cu_limit_ix, swap_ix, system_transfer S payer tip_account tip_lamports] in
      case parse_alts S (address_lookup_table_addresses swap_ixs) [] of
        Inl e \<Rightarrow> (Inl e, c)
      | Inr alt_keys \<Rightarrow>
     (case fetch_alts rpc alt_keys c of
        (Inl e, c1) \<Rightarrow> (Inl e, c1)
      | (Inr tables, c1) \<Rightarrow>
     (case try_compile S payer instructions tables recent_blockhash of
        None \<Rightarrow> (Inl Compile_failed, c1)
      | Some message \<Rightarrow>
     (case try_sign S (V0 message) of
        None \<Rightarrow> (Inl Sign_failed, c1)
      | Some tx \<Rightarrow> (Inr tx, c1))))))))"

definition account_lock_count :: "versioned_transaction \<Rightarrow> nat" where
  "account_lock_count tx =
     (case vt_message tx of
        V0 msg \<Rightarrow>
          (let from_alt = sum_list (map (\<lambda>l. length (tl_writable_indexes l) + length (tl_readonly_indexes l))
                            (vm_table_lookups msg))
           in length (vm_account_keys msg) + from_alt)
      | Legacy keys \<Rightarrow> length keys)"

section \<open>What a built transaction contains\<close>

lemma parse_alts_spec:
  "parse_alts S addrs found = Inr ks \<Longrightarrow> distinct found \<Longrightarrow>
   distinct ks \<and> Some ` set ks = Some ` set found \<union> pubkey_from_str S ` set addrs"
proof (induction S addrs found arbitrary: ks rule: parse_alts.induct)
  case (2 S addr addrs found)
  then obtain key where k: "pubkey_from_str S addr = Some key" by (auto split: option.splits)
  let ?f = "if \<not> List.member found key then found @ [key] else found"
  have "parse_alts S addrs ?f = Inr ks" "distinct ?f" using 2(2,3) k by auto
  note IH = 2(1) [OF k this]
  have "Some ` set ?f = insert (Some key) (Some ` set found)" by auto
  with IH k show ?case by simp
qed simp

lemma fetch_alts_spec:
  "fetch_alts rpc ks c = (Inr tables, c') \<Longrightarrow> alt_cache_ok c \<Longrightarrow>
   map alt_key tables = ks \<and> (\<forall>t \<in> set tables. set (alt_addresses t) \<inter> set (ac_tip_pubkeys c) = {})"
proof (induction rpc ks c arbitrary: tables rule: fetch_alts.induct)
  case (2 rpc k ks c)
  from 2(2) obtain alt c1 alts where *: "alt_get_or_fetch rpc k c = (Inr alt, c1)"
      "fetch_alts rpc ks c1 = (Inr alts, c')" "tables = alt # alts"
    by (auto split: prod.splits sum.splits)
  from alt_get_or_fetch_ok [OF 2(3) *(1)] 2(1) [OF *(1)[symmetric] refl, of alts] * show ?case
    by auto
qed auto

lemma fetch_alts_cache_ok:
  "alt_cache_ok c \<Longrightarrow> alt_cache_ok (snd (fetch_alts rpc ks c)) \<and>
     ac_tip_pubkeys (snd (fetch_alts rpc ks c)) = ac_tip_pubkeys c"
proof (induction rpc ks c rule: fetch_alts.induct)
  case (2 rpc k ks c)
  then show ?case
    using alt_get_or_fetch_ok(1,2) [of c rpc k "fst (alt_get_or_fetch rpc k c)" "snd (alt_get_or_fetch rpc k c)"]
    by (cases "alt_get_or_fetch rpc k c") (auto split: sum.split prod.split)
qed simp

lemma build_shape:
  assumes "alt_cache_ok c"
    and "fst (build_arb_transaction S rpc choice ixs payer tip cu hash c) = Inr tx"
  shows "\<exists>cb swap tip_addr tip_key tables msg.
    pubkey_from_str S ''ComputeBudget111111111111111111111111111111'' = Some cb \<and>
    to_sdk_instruction S (swap_instruction ixs) = Inr swap \<and>
    tip_addr \<in> set JITO_TIP_ACCOUNTS \<and> pubkey_from_str S tip_addr = Some tip_key \<and>
    try_compile S payer [\<lparr>si_program_id = cb, si_accounts = [], si_data = 2 # u32_to_le cu\<rparr>, swap,
      system_transfer S payer tip_key tip] tables hash = Some msg \<and>
    try_sign S (V0 msg) = Some tx \<and> distinct (map alt_key tables) \<and>
    Some ` set (map alt_key tables) = pubkey_from_str S ` set (address_lookup_table_addresses ixs) \<and>
    (\<forall>t \<in> set tables. set (alt_addresses t) \<inter> set (ac_tip_pubkeys c) = {})"
proof -
  let ?addr = "JITO_TIP_ACCOUNTS ! (choice mod length JITO_TIP_ACCOUNTS)"
  from assms(2) obtain cb swap tip_key keys tables c1 msg where
      1: "pubkey_from_str S ''ComputeBudget111111111111111111111111111111'' = Some cb"
      "to_sdk_instruction S (swap_instruction ixs) = Inr swap" "pubkey_from_str S ?addr = Some tip_key"
    and p: "parse_alts S (address_lookup_table_addresses ixs) [] = Inr keys"
    and f: "fetch_alts rpc keys c = (Inr tables, c1)"
    and 2: "try_compile S payer [\<lparr>si_program_id = cb, si_accounts = [], si_data = cu_limit_data cu\<rparr>, swap,
      system_transfer S payer tip_key tip] tables hash = Some msg" "try_sign S (V0 msg) = Some tx"
    by (auto simp: build_arb_transaction_def Let_def split: option.splits sum.splits prod.splits)
  have a: "?addr \<in> set JITO_TIP_ACCOUNTS"
    by (rule nth_mem) (simp add: JITO_TIP_ACCOUNTS_def)
  from parse_alts_spec [OF p] have k: "distinct keys"
      "Some ` set keys = pubkey_from_str S ` set (address_lookup_table_addresses ixs)"
    by auto
  from fetch_alts_spec [OF f assms(1)] have t: "map alt_key tables = keys"
      "\<forall>t \<in> set tables. set (alt_addresses t) \<inter> set (ac_tip_pubkeys c) = {}"
    by auto
  show ?thesis
    using 1 2 a k t unfolding cu_limit_data_def
    by (intro exI [of _ cb] exI [of _ swap] exI [of _ ?addr] exI [of _ tip_key] exI [of _ tables] exI [of _ msg]) simp
qed

text \<open>
  Property C31. Shape of a built transaction: when building succeeds, what was compiled and signed
  is exactly the compute-unit limit, the swap instruction and the tip transfer, in this order (the
  tip last), paid by the payer, to one of the eight tip accounts, over the distinct lookup tables
  of the reply in their first order; no table offers a tip account to the compiler.
\<close>

theorem build_arb_transaction_shape:
  assumes "alt_cache_ok c"
    and "fst (build_arb_transaction S rpc choice ixs payer tip cu hash c) = Inr tx"
  shows "\<exists>cb swap tip_addr tip_key tables msg.
    pubkey_from_str S ''ComputeBudget111111111111111111111111111111'' = Some cb \<and>
    to_sdk_instruction S (swap_instruction ixs) = Inr swap \<and>
    tip_addr \<in> set JITO_TIP_ACCOUNTS \<and> pubkey_from_str S tip_addr = Some tip_key \<and>
    try_compile S payer [\<lparr>si_program_id = cb, si_accounts = [], si_data = 2 # u32_to_le cu\<rparr>, swap,
      system_transfer S payer tip_key tip] tables hash = Some msg \<and>
    try_sign S (V0 msg) = Some tx \<and> distinct (map alt_key tables) \<and>
    Some ` set (map alt_key tables) = pubkey_from_str S ` set (address_lookup_table_addresses ixs) \<and>
    (\<forall>t \<in> set tables. set (alt_addresses t) \<inter> set (ac_tip_pubkeys c) = {})"
  by (rule build_shape [OF assms])

definition sample_sdk :: sdk where
  "sample_sdk =
     \<lparr>pubkey_from_str = (\<lambda>s. Some (map of_char s)),
      sdk_base64 = \<lparr>b64_decode = (\<lambda>s. Some []), b64_encode = (\<lambda>d. [])\<rparr>,
      system_transfer = (\<lambda>a b l. \<lparr>si_program_id = [], si_accounts = [], si_data = []\<rparr>),
      try_compile = (\<lambda>p is ts h. Some \<lparr>vm_account_keys = [p], vm_table_lookups = []\<rparr>),
      try_sign = (\<lambda>m. Some \<lparr>vt_message = m, vt_signatures = []\<rparr>)\<rparr>"

definition sample_swap :: swap_instructions_response where
  "sample_swap = \<lparr>compute_budget_instructions = [], setup_instructions = [],
     swap_instruction = \<lparr>ix_program_id = ''JUP'', ix_accounts = [], ix_data = []\<rparr>,
     cleanup_instruction = None, address_lookup_table_addresses = []\<rparr>"

theorem build_arb_transaction_shape_witness:
  "\<exists>tx tip_addr tip_key msg. fst (build_arb_transaction sample_sdk (\<lambda>_. None) 3 sample_swap [7] 1600 200000 []
      (alt_cache_new [])) = Inr tx \<and>
    tip_addr \<in> set JITO_TIP_ACCOUNTS \<and> pubkey_from_str sample_sdk tip_addr = Some tip_key \<and>
    try_sign sample_sdk (V0 msg) = Some tx"
proof -
  obtain tx where tx: "fst (build_arb_transaction sample_sdk (\<lambda>_. None) 3 sample_swap [7] 1600 200000 []
      (alt_cache_new [])) = Inr tx"
    by (simp add: build_arb_transaction_def sample_sdk_def sample_swap_def to_sdk_instruction_def Let_def)
  from build_arb_transaction_shape [OF alt_cache_ok_new tx] tx show ?thesis
    by (elim exE conjE) (intro exI conjI; assumption)
qed

end
