(* ===== verification/Dex_Accounts.thy ===== *)
theory Dex_Accounts
  imports Config Template_Disk Transaction
begin

text \<open>
  \<open>src/dex_accounts.rs\<close>: the pool files \<open>dex_dir/DEX/pool.toml\<close> and the accounts they name. The TOML
  parser and the base58 parser of addresses are parameters; file names are UTF-8. A directory entry
  that cannot be read (\<open>flatten\<close> skips it) is not listed. \<open>sort_unstable\<close> followed by \<open>dedup\<close> is \<open>sort\<close>
  followed by \<open>remdups_adj\<close>: equal addresses are indistinguishable.
\<close>

record pool_file =
  pl_name :: "string option"
  pl_market :: "string option"
  pl_vault_a :: "string option"
  pl_vault_b :: "string option"
  pl_mint_a :: "string option"
  pl_mint_b :: "string option"
  pl_extra :: "string list"

record dex_pools =
  dx_all_accounts :: "pubkey list"
  dx_subscribe_accounts :: "pubkey list"

text \<open>An entry of the DEX directory: whether it is a directory, and its files if it can be listed.\<close>

record dex_entry =
  de_name :: string
  de_is_dir :: bool
  de_pools :: "(string \<times> string option) list option"

datatype dex_dir = Absent | Unreadable | Listing "dex_entry list"

definition decode_pool :: "'f toml \<Rightarrow> pool_file option" where
  "decode_pool v = do {
     t \<leftarrow> table_fields v;
     name \<leftarrow> optional as_string ''name'' t;
     market \<leftarrow> optional as_string ''market'' t;
     va \<leftarrow> optional as_string ''vault_a'' t;
     vb \<leftarrow> optional as_string ''vault_b'' t;
     ma \<leftarrow> optional as_string ''mint_a'' t;
     mb \<leftarrow> optional as_string ''mint_b'' t;
     ex \<leftarrow> defaulted (as_vec as_string) [] ''extra'' t;
     Some \<lparr>pl_name = name, pl_market = market, pl_vault_a = va, pl_vault_b = vb, pl_mint_a = ma,
       pl_mint_b = mb, pl_extra = ex\<rparr> }"

text \<open>The closure \<open>push\<close>: the accounts so far, all of them and those to subscribe.\<close>

definition push_account ::
    "(string \<Rightarrow> pubkey option) \<Rightarrow> string option \<times> bool \<Rightarrow> pubkey list \<times> pubkey list \<Rightarrow> pubkey list \<times> pubkey list" where
  "push_account parse = (\<lambda>(s, is_vault) (all, subs).
     case Option.bind s parse of
       None \<Rightarrow> (all, subs)
     | Some pk \<Rightarrow> (all @ [pk], if is_vault then subs @ [pk] else subs))"

definition pool_addresses :: "pool_file \<Rightarrow> (string option \<times> bool) list" where
  "pool_addresses p =
     [(pl_market p, False), (pl_vault_a p, True), (pl_vault_b p, True), (pl_mint_a p, False),
      (pl_mint_b p, False)] @ map (\<lambda>a. (Some a, False)) (pl_extra p)"

definition skips_file :: "string \<Rightarrow> bool" where
  "skips_file fname \<longleftrightarrow> prefix ''_'' fname \<or> extension fname \<noteq> Some ''toml''"

definition read_pool :: "(string \<Rightarrow> 'f toml option) \<Rightarrow> string \<times> string option \<Rightarrow> pool_file option" where
  "read_pool toml = (\<lambda>(fname, content).
     if skips_file fname then None
     else Option.bind (Option.bind content toml) decode_pool)"

definition load_pool ::
    "(string \<Rightarrow> 'f toml option) \<Rightarrow> (string \<Rightarrow> pubkey option) \<Rightarrow> string \<times> string option \<Rightarrow>
     pubkey list \<times> pubkey list \<Rightarrow> pubkey list \<times> pubkey list" where
  "load_pool toml parse file acc =
     (case read_pool toml file of
        None \<Rightarrow> acc
      | Some pool \<Rightarrow> fold (push_account parse) (pool_addresses pool) acc)"

definition load_dex ::
    "(string \<Rightarrow> 'f toml option) \<Rightarrow> (string \<Rightarrow> pubkey option) \<Rightarrow> dex_entry \<Rightarrow>
     pubkey list \<times> pubkey list \<Rightarrow> pubkey list \<times> pubkey list" where
  "load_dex toml parse e acc =
     (if \<not> de_is_dir e then acc
      else (case de_pools e of None \<Rightarrow> acc | Some files \<Rightarrow> fold (load_pool toml parse) files acc))"

definition dex_load :: "(string \<Rightarrow> 'f toml option) \<Rightarrow> (string \<Rightarrow> pubkey option) \<Rightarrow> dex_dir \<Rightarrow> dex_pools" where
  "dex_load toml parse dir =
     (case dir of
        Listing entries \<Rightarrow>
          (case fold (load_dex toml parse) entries ([], []) of
             (all, subs) \<Rightarrow>
               \<lparr>dx_all_accounts = remdups_adj (sort all), dx_subscribe_accounts = remdups_adj (sort subs)\<rparr>)
      | _ \<Rightarrow> \<lparr>dx_all_accounts = [], dx_subscribe_accounts = []\<rparr>)"

section \<open>What is loaded\<close>

text \<open>The pools of a directory that count, and the accounts of a pool.\<close>

definition pools_of :: "(string \<Rightarrow> 'f toml option) \<Rightarrow> dex_entry list \<Rightarrow> pool_file list" where
  "pools_of toml entries =
     List.map_filter (read_pool toml)
       (concat (map (\<lambda>e. if de_is_dir e then (case de_pools e of None \<Rightarrow> [] | Some fs \<Rightarrow> fs) else []) entries))"

definition accounts_of :: "(string \<Rightarrow> pubkey option) \<Rightarrow> (string option \<times> bool) list \<Rightarrow> pubkey list" where
  "accounts_of parse as = List.map_filter (\<lambda>(s, _). Option.bind s parse) as"

lemma accounts_of_simps [simp]:
  "accounts_of parse [] = []"
  "accounts_of parse ((s, v) # as) =
     (case Option.bind s parse of None \<Rightarrow> accounts_of parse as | Some pk \<Rightarrow> pk # accounts_of parse as)"
  by (auto simp: accounts_of_def List.map_filter_simps split: option.split)

lemma accounts_of_append [simp]: "accounts_of parse (as @ bs) = accounts_of parse as @ accounts_of parse bs"
  by (induction as) (auto split: option.split)

lemma fold_push:
  "fold (push_account parse) as (all, subs) =
     (all @ accounts_of parse as, subs @ accounts_of parse (filter snd as))"
  by (induction as arbitrary: all subs) (auto simp: push_account_def split: option.split)

lemma fold_pools:
  "fold (load_pool toml parse) files (all, subs) =
     (let as = concat (map pool_addresses (List.map_filter (read_pool toml) files))
      in (all @ accounts_of parse as, subs @ accounts_of parse (filter snd as)))"
proof (induction files arbitrary: all subs)
  case (Cons x files)
  then show ?case
    by (cases "read_pool toml x") (simp_all add: load_pool_def fold_push Let_def List.map_filter_simps)
qed (simp add: List.map_filter_simps)

lemma map_filter_append: "List.map_filter f (xs @ ys) = List.map_filter f xs @ List.map_filter f ys"
  by (simp add: List.map_filter_def)

lemma pools_of_simps:
  "pools_of toml [] = []"
  "pools_of toml (e # es) =
     (if de_is_dir e then (case de_pools e of None \<Rightarrow> [] | Some fs \<Rightarrow> List.map_filter (read_pool toml) fs) else [])
       @ pools_of toml es"
proof -
  show "pools_of toml [] = []" by (simp add: pools_of_def)
  show "pools_of toml (e # es) =
     (if de_is_dir e then (case de_pools e of None \<Rightarrow> [] | Some fs \<Rightarrow> List.map_filter (read_pool toml) fs) else [])
       @ pools_of toml es"
    unfolding pools_of_def list.map concat.simps map_filter_append
    by (cases "de_is_dir e"; cases "de_pools e"; simp)
qed

lemma fold_dexes:
  "fold (load_dex toml parse) es (all, subs) =
     (let as = concat (map pool_addresses (pools_of toml es))
      in (all @ accounts_of parse as, subs @ accounts_of parse (filter snd as)))"
proof (induction es arbitrary: all subs)
  case (Cons e es)
  then show ?case
    by (cases "de_is_dir e"; cases "de_pools e"; simp add: load_dex_def fold_pools pools_of_simps(2) Let_def)
qed (simp add: pools_of_simps(1))

lemma set_accounts_of: "set (accounts_of parse as) = {pk. \<exists>s v. (Some s, v) \<in> set as \<and> parse s = Some pk}"
proof (induction as)
  case (Cons a as)
  then show ?case
    by (cases a; cases "fst a"; cases "parse (the (fst a))") auto
qed simp

text \<open>The accounts a pool file names, and its vaults.\<close>

definition named_accounts :: "pool_file \<Rightarrow> string set" where
  "named_accounts p = {s. Some s \<in> {pl_market p, pl_vault_a p, pl_vault_b p, pl_mint_a p, pl_mint_b p}}
     \<union> set (pl_extra p)"

definition vaults :: "pool_file \<Rightarrow> string set" where
  "vaults p = {s. Some s \<in> {pl_vault_a p, pl_vault_b p}}"

lemma pool_addresses_named: "{s. \<exists>v. (Some s, v) \<in> set (pool_addresses p)} = named_accounts p"
  by (auto simp: pool_addresses_def named_accounts_def)

lemma pool_addresses_vaults: "{s. (Some s, True) \<in> set (pool_addresses p)} = vaults p"
  by (auto simp: pool_addresses_def vaults_def)

lemma image_parse: "Some ` {pk. \<exists>x \<in> A. \<exists>s \<in> B x. parse s = Some pk} = parse ` \<Union> (B ` A) - {None}"
proof (intro set_eqI iffI)
  fix r assume "r \<in> Some ` {pk. \<exists>x \<in> A. \<exists>s \<in> B x. parse s = Some pk}"
  then obtain pk x s where "r = Some pk" "x \<in> A" "s \<in> B x" "parse s = Some pk" by blast
  then show "r \<in> parse ` \<Union> (B ` A) - {None}" by (metis DiffI UN_I image_eqI option.distinct(1) singletonD)
next
  fix r assume r: "r \<in> parse ` \<Union> (B ` A) - {None}"
  then obtain x s where "x \<in> A" "s \<in> B x" "r = parse s" by blast
  with r show "r \<in> Some ` {pk. \<exists>x \<in> A. \<exists>s \<in> B x. parse s = Some pk}" by (cases r) auto
qed

lemma set_concat_accounts:
  "set (accounts_of parse (concat (map f ps))) =
     {pk. \<exists>p \<in> set ps. \<exists>s \<in> {s. \<exists>v. (Some s, v) \<in> set (f p)}. parse s = Some pk}"
  unfolding set_accounts_of by auto

lemma set_filter_snd: "(\<exists>v. (Some s, v) \<in> set (filter snd as)) \<longleftrightarrow> (Some s, True) \<in> set as"
  by auto

text \<open>
  Property C39. The registry of pool accounts is exactly what the files say: \<open>all_accounts\<close> lists,
  strictly ascending and without duplicates, the valid addresses of every readable \<open>.toml\<close> file whose name does
  not start with an underscore, and \<open>subscribe_accounts\<close> those of them that are vaults of a pool. A
  bad file or a bad address costs nothing but itself.
\<close>

theorem dex_load_exact:
  "(let pools = set (pools_of toml entries); d = dex_load toml parse (Listing entries) in
     sorted_wrt (<) (dx_all_accounts d) \<and> sorted_wrt (<) (dx_subscribe_accounts d) \<and>
     Some ` set (dx_all_accounts d) = (parse ` \<Union> (named_accounts ` pools)) - {None} \<and>
     Some ` set (dx_subscribe_accounts d) = (parse ` \<Union> (vaults ` pools)) - {None})"
proof -
  define as where "as = concat (map pool_addresses (pools_of toml entries))"
  have d: "dex_load toml parse (Listing entries) =
      \<lparr>dx_all_accounts = remdups_adj (sort (accounts_of parse as)),
       dx_subscribe_accounts = remdups_adj (sort (accounts_of parse (filter snd as)))\<rparr>"
    by (simp add: dex_load_def fold_dexes as_def Let_def)
  have strict: "sorted_wrt (<) (remdups_adj (sort xs))" for xs :: "pubkey list"
    by (simp add: strict_remdups_adj)
  have "Some ` set (accounts_of parse as) = parse ` \<Union> (named_accounts ` set (pools_of toml entries)) - {None}"
    unfolding as_def set_concat_accounts pool_addresses_named by (rule image_parse)
  moreover have "Some ` set (accounts_of parse (filter snd as)) =
      parse ` \<Union> (vaults ` set (pools_of toml entries)) - {None}"
    unfolding as_def filter_concat map_map set_concat_accounts comp_def set_filter_snd pool_addresses_vaults
    by (rule image_parse)
  ultimately show ?thesis
    by (simp add: d strict)
qed

end
