(* ===== verification/Blockhash_Cache.thy ===== *)
theory Blockhash_Cache
  imports Prelude
begin

text \<open>
  \<open>src/blockhash_cache.rs\<close>: the recent blockhash the builders sign over. The RPC client is a parameter:
  one answer for the constructor and one per tick of the refresh task. A panicking RPC call ends the
  process (\<open>panic = "abort"\<close>), so that answer of \<open>spawn_blocking\<close> is not listed.
\<close>

type_synonym blockhash = bytes

text \<open>\<open>Hash::default()\<close>: 32 zero bytes.\<close>

definition default_hash :: blockhash where
  "default_hash = replicate 32 0"

record blockhash_cache =
  bc_inner :: blockhash

definition blockhash_new :: "blockhash option \<Rightarrow> blockhash_cache" where
  "blockhash_new initial = \<lparr>bc_inner = (case initial of Some h \<Rightarrow> h | None \<Rightarrow> default_hash)\<rparr>"

definition refresh_tick :: "blockhash option \<Rightarrow> blockhash_cache \<Rightarrow> blockhash_cache" where
  "refresh_tick result c = (case result of Some h \<Rightarrow> c\<lparr>bc_inner := h\<rparr> | None \<Rightarrow> c)"

definition blockhash_get :: "blockhash_cache \<Rightarrow> blockhash" where
  "blockhash_get c = bc_inner c"

lemma refresh_ticks:
  "blockhash_get (fold refresh_tick results c) = last (blockhash_get c # List.map_filter (\<lambda>r. r) results)"
proof (induction results arbitrary: c)
  case (Cons r rs)
  then show ?case by (cases r) (simp_all add: refresh_tick_def blockhash_get_def)
qed (simp add: blockhash_get_def)

text \<open>
  A builder signs over the newest blockhash the node ever returned: after any number of
  ticks the cache holds the last successful answer, failed ones change nothing, and before the first
  success it is the all-zero hash, which no validator accepts.
\<close>

theorem blockhash_is_latest:
  "blockhash_get (fold refresh_tick results (blockhash_new initial)) =
     (case List.map_filter (\<lambda>r. r) (initial # results) of [] \<Rightarrow> default_hash | hs \<Rightarrow> last hs)"
proof (cases initial)
  case None
  then show ?thesis by (cases "List.map_filter (\<lambda>r. r) results")
      (simp_all add: refresh_ticks, simp_all add: blockhash_get_def blockhash_new_def)
next
  case (Some h)
  then show ?thesis
    by (simp add: refresh_ticks) (simp add: blockhash_get_def blockhash_new_def)
qed

end
