(* ===== verification/Token_File.thy ===== *)
theory Token_File
  imports Prelude
begin

text \<open>
  \<open>src/tokens.rs\<close>: the list of token mints, one per line, with comments. White space is that of
  ASCII, which is what \<open>trim\<close> removes from ASCII text.
\<close>

datatype token_file_error = Read_failed | No_tokens

definition newline :: char where
  "newline = CHR 0x0A"

definition carriage_return :: char where
  "carriage_return = CHR 0x0D"

definition hash_sign :: char where
  "hash_sign = CHR 0x23"

definition blank :: char where
  "blank = CHR 0x20"

definition is_space :: "char \<Rightarrow> bool" where
  "is_space c \<longleftrightarrow> (of_char c :: nat) = 32 \<or> (9 \<le> (of_char c :: nat) \<and> (of_char c :: nat) \<le> 13)"

text \<open>\<open>str::split\<close> at a character: always at least one piece.\<close>

fun split_char :: "char \<Rightarrow> string \<Rightarrow> string list" where
  "split_char d [] = [[]]"
| "split_char d (c # cs) =
     (if c = d then [] # split_char d cs
      else (case split_char d cs of p # ps \<Rightarrow> (c # p) # ps | [] \<Rightarrow> [[c]]))"

text \<open>\<open>str::lines\<close>: terminated lines lose a carriage return, an empty rest is no line.\<close>

definition strip_cr :: "string \<Rightarrow> string" where
  "strip_cr l = (if l \<noteq> [] \<and> last l = carriage_return then butlast l else l)"

definition str_lines :: "string \<Rightarrow> string list" where
  "str_lines s =
     (let ps = split_char newline s
      in map strip_cr (butlast ps) @ (if last ps = [] then [] else [last ps]))"

definition str_trim :: "string \<Rightarrow> string" where
  "str_trim s = rev (dropWhile is_space (rev (dropWhile is_space s)))"

definition token_of_line :: "string \<Rightarrow> string" where
  "token_of_line l = str_trim (hd (split_char hash_sign l))"

definition load_tokens :: "string option \<Rightarrow> token_file_error + string list" where
  "load_tokens file =
     (case file of
        None \<Rightarrow> Inl Read_failed
      | Some content \<Rightarrow>
          (let tokens = filter (\<lambda>l. l \<noteq> []) (map token_of_line (str_lines content))
           in if tokens = [] then Inl No_tokens else Inr tokens))"

section \<open>Splitting\<close>

lemma split_char_not_Nil [simp]: "split_char d s \<noteq> []"
  by (induction d s rule: split_char.induct) (auto split: list.split)

lemma split_char_none: "d \<notin> set s \<Longrightarrow> split_char d s = [s]"
  by (induction s) auto

lemma split_char_append: "d \<notin> set s \<Longrightarrow> split_char d (s @ d # r) = s # split_char d r"
  by (induction s) auto

lemma split_char_hd: "hd (split_char d s) = takeWhile (\<lambda>c. c \<noteq> d) s"
  by (induction s) (auto split: list.split)

lemma str_lines_unlines:
  assumes "list_all (\<lambda>l. newline \<notin> set l) ls"
  shows "str_lines (concat (map (\<lambda>l. l @ [newline]) ls)) = map strip_cr ls"
proof -
  have "split_char newline (concat (map (\<lambda>l. l @ [newline]) ls)) = ls @ [[]]"
    using assms by (induction ls) (simp_all add: split_char_append)
  then show ?thesis by (simp add: str_lines_def)
qed

section \<open>Token files\<close>

text \<open>A line of a token file: spaces, a mint or nothing, spaces, and perhaps a comment.\<close>

type_synonym token_line = "nat \<times> string \<times> nat \<times> string option"

definition blanks :: "nat \<Rightarrow> string" where
  "blanks n = replicate n blank"

definition render_line :: "token_line \<Rightarrow> string" where
  "render_line = (\<lambda>(a, t, b, c). blanks a @ t @ blanks b @ (case c of None \<Rightarrow> [] | Some c \<Rightarrow> hash_sign # c))"

definition line_ok :: "token_line \<Rightarrow> bool" where
  "line_ok = (\<lambda>(a, t, b, c). list_all (\<lambda>x. \<not> is_space x \<and> x \<noteq> hash_sign) t \<and>
     (case c of None \<Rightarrow> True | Some c \<Rightarrow> newline \<notin> set c))"

definition render_file :: "token_line list \<Rightarrow> string" where
  "render_file ls = concat (map (\<lambda>l. render_line l @ [newline]) ls)"

lemma space_chars [simp]: "is_space blank" "is_space newline" "is_space carriage_return" "\<not> is_space hash_sign"
  by (simp_all add: is_space_def newline_def blank_def hash_sign_def carriage_return_def)

lemma dropWhile_spaces: "list_all is_space xs \<Longrightarrow> dropWhile is_space (xs @ ys) = dropWhile is_space ys"
  by (induction xs) auto

lemma dropWhile_all_spaces: "list_all is_space xs \<Longrightarrow> dropWhile is_space xs = []"
  by (induction xs) auto

lemma dropWhile_no_space: "list_all (\<lambda>x. \<not> is_space x) t \<Longrightarrow> t \<noteq> [] \<Longrightarrow> dropWhile is_space (t @ ys) = t @ ys"
  by (cases t) auto

lemma char_distinct [simp]: "newline \<noteq> blank" "newline \<noteq> hash_sign"
  "carriage_return \<noteq> hash_sign" "hash_sign \<noteq> carriage_return" "blank \<noteq> hash_sign" "hash_sign \<noteq> blank"
  by (simp_all add: newline_def blank_def hash_sign_def carriage_return_def)

lemma trim_token:
  assumes "list_all (\<lambda>x. \<not> is_space x) t" "list_all is_space pre" "list_all is_space post"
  shows "str_trim (pre @ t @ post) = t"
proof (cases "t = []")
  case True
  then show ?thesis
    by (simp add: str_trim_def dropWhile_spaces [OF assms(2)] dropWhile_all_spaces [OF assms(3)])
next
  case False
  have "list_all is_space (rev post)" using assms(3) by (simp add: list_all_iff)
  moreover have "dropWhile is_space (rev t @ []) = rev t @ []"
    using assms(1) False by (intro dropWhile_no_space) (simp_all add: list_all_iff)
  ultimately have "dropWhile is_space (rev post @ rev t) = rev t"
    by (simp add: dropWhile_spaces)
  then show ?thesis
    by (simp add: str_trim_def dropWhile_spaces [OF assms(2)] dropWhile_no_space [OF assms(1) False])
qed

lemma str_trim_cr: "str_trim (s @ [carriage_return]) = str_trim s"
proof (cases "list_all is_space s")
  case True
  then have "list_all is_space (s @ [carriage_return])" by simp
  then show ?thesis unfolding str_trim_def by (simp only: dropWhile_all_spaces True)
next
  case False
  then have "dropWhile is_space (s @ [carriage_return]) = dropWhile is_space s @ [carriage_return]"
    by (induction s) auto
  then show ?thesis by (simp add: str_trim_def)
qed

lemma token_of_cr: "token_of_line (strip_cr l) = token_of_line l"
proof (cases "l \<noteq> [] \<and> last l = carriage_return")
  case True
  then obtain l' where l: "l = l' @ [carriage_return]" by (metis append_butlast_last_id)
  have tw: "takeWhile (\<lambda>c. c \<noteq> hash_sign) (l' @ [carriage_return]) =
      (if hash_sign \<in> set l' then takeWhile (\<lambda>c. c \<noteq> hash_sign) l' else l' @ [carriage_return])"
    by (induction l') auto
  have no: "takeWhile (\<lambda>c. c \<noteq> hash_sign) l' = l'" if "hash_sign \<notin> set l'"
    using that by (induction l') auto
  have "token_of_line l = token_of_line l'"
  proof (cases "hash_sign \<in> set l'")
    case True
    then show ?thesis by (simp add: token_of_line_def split_char_hd l tw)
  next
    case False
    then show ?thesis by (simp only: token_of_line_def split_char_hd l tw no [OF False] False str_trim_cr if_False)
  qed
  then show ?thesis by (simp add: strip_cr_def l)
qed (auto simp: strip_cr_def)

lemma token_of_render:
  assumes "line_ok (a, t, b, c)"
  shows "token_of_line (render_line (a, t, b, c)) = t"
proof -
  have nohash: "hash_sign \<notin> set (blanks a @ t @ blanks b)"
    using assms by (auto simp: line_ok_def blanks_def list_all_iff)
  have "hd (split_char hash_sign (render_line (a, t, b, c))) = blanks a @ t @ blanks b"
    using split_char_none [OF nohash] split_char_append [OF nohash]
    by (cases c) (simp_all add: render_line_def)
  moreover have "list_all (\<lambda>x. \<not> is_space x) t"
    using assms by (auto simp: line_ok_def list_all_iff)
  ultimately show ?thesis
    by (simp add: token_of_line_def trim_token blanks_def list_all_iff)
qed

lemma newline_render:
  assumes "line_ok l"
  shows "newline \<notin> set (render_line l)"
proof -
  obtain a t b c where l: "l = (a, t, b, c)" by (cases l) auto
  have "newline \<notin> set t"
    using assms space_chars(2) unfolding l line_ok_def list_all_iff by auto
  then show ?thesis
    using assms unfolding l line_ok_def render_line_def blanks_def by (cases c) auto
qed

text \<open>
  A token file reads as written: for lines of optional blanks, a mint or nothing,
  blanks and an optional comment, exactly the mints that are there are loaded, in order; comments,
  indentation and empty lines leave no trace, and a file without any mint is an error.
\<close>

theorem load_tokens_render:
  assumes "list_all line_ok ls"
  shows "load_tokens (Some (render_file ls)) =
    (case filter (\<lambda>t. t \<noteq> []) (map (\<lambda>(a, t, b, c). t) ls) of [] \<Rightarrow> Inl No_tokens | ts \<Rightarrow> Inr ts)"
proof -
  have "list_all (\<lambda>l. newline \<notin> set l) (map render_line ls)"
    using assms newline_render by (auto simp: list_all_iff)
  from str_lines_unlines [OF this]
  have "str_lines (render_file ls) = map strip_cr (map render_line ls)"
    by (simp add: render_file_def comp_def)
  moreover have "map token_of_line (map strip_cr (map render_line ls)) = map (\<lambda>(a, t, b, c). t) ls"
    using assms by (auto simp: token_of_cr token_of_render list_all_iff)
  ultimately have "map token_of_line (str_lines (render_file ls)) = map (\<lambda>(a, t, b, c). t) ls"
    by (simp only:)
  then show ?thesis
    unfolding load_tokens_def option.case Let_def by (simp only:) (auto split: list.split)
qed

theorem load_tokens_render_witness:
  "load_tokens (Some (render_file [(0, ''EPj'', 2, Some '' USDC''), (3, [], 0, None), (1, ''USD1'', 0, None)])) =
     Inr [''EPj'', ''USD1'']"
proof -
  have "list_all line_ok [(0, ''EPj'', 2, Some '' USDC''), (3, [], 0, None), (1, ''USD1'', 0, None)]"
    by code_simp
  from load_tokens_render [OF this] show ?thesis by simp
qed

end
