(* ===== verification/Account_Cache.thy ===== *)
theory Account_Cache
  imports Alt_Tables
begin

text \<open>
  \<open>src/account_cache.rs\<close>: the accounts the simulator reads, filled by the Yellowstone stream and, for
  accounts that are not streamed, by RPC. The gRPC client and the RPC client are parameters: a
  connection either fails or yields a sequence of messages that ends or breaks, and \<open>rpc\<close> answers
  an address. The \<open>DashMap\<close> is one map; \<open>get_or_fetch\<close> is its lookup section and its insert section
  around the RPC call.
\<close>

record chain_account =
  ca_lamports :: u64
  ca_data :: bytes
  ca_owner :: bytes
  ca_executable :: bool
  ca_rent_epoch :: u64

record account_cache =
  cc_inner :: "(pubkey, chain_account) hmap"
  cc_stream_slot :: u64

definition cache_new :: account_cache where
  "cache_new = \<lparr>cc_inner = [], cc_stream_slot = 0\<rparr>"

definition seed_slot :: "u64 \<Rightarrow> account_cache \<Rightarrow> account_cache" where
  "seed_slot slot c = c\<lparr>cc_stream_slot := slot\<rparr>"

definition cache_get :: "account_cache \<Rightarrow> pubkey \<Rightarrow> chain_account option" where
  "cache_get c key = hm_get (cc_inner c) key"

definition cache_len :: "account_cache \<Rightarrow> nat" where
  "cache_len c = hm_len (cc_inner c)"

section \<open>Fetching\<close>

definition cache_insert :: "pubkey \<Rightarrow> chain_account \<Rightarrow> account_cache \<Rightarrow> account_cache" where
  "cache_insert key acct c = c\<lparr>cc_inner := hm_insert key acct (cc_inner c)\<rparr>"

lemma cache_get_insert: "cache_get (cache_insert k a c) k' = (if k' = k then Some a else cache_get c k')"
  by (simp add: cache_get_def cache_insert_def hm_simps)

definition get_or_fetch ::
    "(pubkey \<Rightarrow> chain_account option) \<Rightarrow> pubkey \<Rightarrow> account_cache \<Rightarrow> chain_account option \<times> account_cache" where
  "get_or_fetch rpc key c =
     (case cache_get c key of
        Some a \<Rightarrow> (Some a, c)
      | None \<Rightarrow>
          (case rpc key of
             None \<Rightarrow> (None, c)
           | Some acct \<Rightarrow> (Some acct, cache_insert key acct c)))"

definition prefetch :: "(pubkey \<Rightarrow> chain_account option) \<Rightarrow> pubkey list \<Rightarrow> account_cache \<Rightarrow> account_cache" where
  "prefetch rpc keys c = foldl (\<lambda>c key. snd (get_or_fetch rpc key c)) c keys"

section \<open>The stream\<close>

record account_info =
  inf_pubkey :: bytes
  inf_lamports :: u64
  inf_data :: bytes
  inf_owner :: bytes
  inf_executable :: bool
  inf_rent_epoch :: u64

datatype update = Account_update u64 "account_info option" | Ping | Other_update

text \<open>The subscription request: its two account filters, the first by owner, the second by address.\<close>

record account_filter =
  af_account :: "string list"
  af_owner :: "string list"

definition accounts_filter :: "string list \<Rightarrow> string list \<Rightarrow> (string, account_filter) hmap" where
  "accounts_filter dex_program_ids extra_accounts =
     (let f = hm_insert ''dex_pools'' \<lparr>af_account = [], af_owner = dex_program_ids\<rparr> []
      in if extra_accounts \<noteq> [] then hm_insert ''extras'' \<lparr>af_account = extra_accounts, af_owner = []\<rparr> f
         else f)"

definition account_of_info :: "account_info \<Rightarrow> chain_account" where
  "account_of_info info =
     \<lparr>ca_lamports = inf_lamports info, ca_data = inf_data info,
      ca_owner = (if length (inf_owner info) = 32 then inf_owner info else replicate 32 0),
      ca_executable = inf_executable info, ca_rent_epoch = inf_rent_epoch info\<rparr>"

text \<open>One message: what it does to the cache, and whether a ping is answered.\<close>

definition apply_update :: "update \<Rightarrow> account_cache \<Rightarrow> account_cache \<times> bool" where
  "apply_update u c =
     (case u of
        Account_update slot a \<Rightarrow>
          (let c1 = c\<lparr>cc_stream_slot := slot\<rparr> in
           case a of
             None \<Rightarrow> (c1, False)
           | Some info \<Rightarrow>
               if length (inf_pubkey info) \<noteq> 32 then (c1, False)
               else (cache_insert (inf_pubkey info) (account_of_info info) c1, False))
      | Ping \<Rightarrow> (c, True)
      | Other_update \<Rightarrow> (c, False))"

text \<open>The receiving loop: \<open>Inl\<close> is a message the stream yields as an error, which ends the session.\<close>

fun run_messages :: "(string + update) list \<Rightarrow> account_cache \<Rightarrow> (string + unit) \<times> account_cache" where
  "run_messages [] c = (Inr (), c)"
| "run_messages (Inl e # ms) c = (Inl e, c)"
| "run_messages (Inr u # ms) c = run_messages ms (fst (apply_update u c))"

datatype session = Connect_failed string | Connected "(string + update) list"

definition run_stream :: "session \<Rightarrow> account_cache \<Rightarrow> (string + unit) \<times> account_cache" where
  "run_stream s c = (case s of Connect_failed e \<Rightarrow> (Inl e, c) | Connected ms \<Rightarrow> run_messages ms c)"

text \<open>
  The reconnect loop over the sessions the network gives it; the delays are in milliseconds and
  never ends in the code, so a finite list of sessions is a prefix of its life.
\<close>

definition next_backoff :: "nat \<Rightarrow> nat" where
  "next_backoff backoff = min (backoff * 2) 10000"

fun subscription_loop :: "nat \<Rightarrow> session list \<Rightarrow> account_cache \<Rightarrow> nat list \<times> account_cache" where
  "subscription_loop backoff [] c = ([], c)"
| "subscription_loop backoff (s # ss) c =
     (let (_, c1) = run_stream s c;
          (delays, c2) = subscription_loop (next_backoff backoff) ss c1
      in (backoff # delays, c2))"

definition spawn_subscription :: "session list \<Rightarrow> account_cache \<Rightarrow> nat list \<times> account_cache" where
  "spawn_subscription ss c = subscription_loop 500 ss c"

section \<open>What the stream leaves in the cache\<close>

text \<open>The account a message carries for \<open>key\<close>, and the messages a session delivers.\<close>

definition update_for :: "pubkey \<Rightarrow> update \<Rightarrow> chain_account option" where
  "update_for key u =
     (case u of
        Account_update slot (Some info) \<Rightarrow>
          if inf_pubkey info = key \<and> length key = 32 then Some (account_of_info info) else None
      | _ \<Rightarrow> None)"

fun delivered :: "(string + update) list \<Rightarrow> update list" where
  "delivered [] = []"
| "delivered (Inl e # ms) = []"
| "delivered (Inr u # ms) = u # delivered ms"

definition session_updates :: "session \<Rightarrow> update list" where
  "session_updates s = (case s of Connect_failed _ \<Rightarrow> [] | Connected ms \<Rightarrow> delivered ms)"

definition last_for :: "pubkey \<Rightarrow> update list \<Rightarrow> chain_account option" where
  "last_for key us =
     (case List.map_filter (update_for key) us of [] \<Rightarrow> None | as \<Rightarrow> Some (last as))"

lemma cache_get_apply:
  "cache_get (fst (apply_update u c)) key =
     (case update_for key u of Some a \<Rightarrow> Some a | None \<Rightarrow> cache_get c key)"
  by (cases u) (auto simp: apply_update_def update_for_def cache_get_def cache_insert_def hm_simps
      Let_def split: option.splits)

lemma last_for_Cons:
  "last_for key (u # us) = (case last_for key us of Some a \<Rightarrow> Some a | None \<Rightarrow> update_for key u)"
  by (auto simp: last_for_def List.map_filter_simps split: option.splits list.splits)

lemma cache_get_updates:
  "cache_get (foldl (\<lambda>c u. fst (apply_update u c)) c us) key =
     (case last_for key us of Some a \<Rightarrow> Some a | None \<Rightarrow> cache_get c key)"
proof (induction us arbitrary: c)
  case (Cons u us)
  then show ?case by (simp add: last_for_Cons cache_get_apply split: option.split)
qed (simp add: last_for_def List.map_filter_simps)

lemma run_messages_foldl:
  "snd (run_messages ms c) = foldl (\<lambda>c u. fst (apply_update u c)) c (delivered ms)"
  by (induction ms c rule: run_messages.induct) auto

lemma run_stream_foldl:
  "snd (run_stream s c) = foldl (\<lambda>c u. fst (apply_update u c)) c (session_updates s)"
  by (cases s) (simp_all add: run_stream_def session_updates_def run_messages_foldl)

lemma subscription_cache:
  "snd (subscription_loop b ss c) = foldl (\<lambda>c u. fst (apply_update u c)) c (concat (map session_updates ss))"
  by (induction ss arbitrary: b c) (simp_all add: run_stream_foldl case_prod_unfold Let_def)

text \<open>
  Property C34. The cache follows the stream across reconnects: after any sequence of sessions,
  whether they end, break or never connect, the cache holds for every address the account of the
  last message delivered for it, and what it held before where there was none.
\<close>

theorem stream_keeps_latest:
  "cache_get (snd (spawn_subscription ss c)) key =
     (case last_for key (concat (map session_updates ss)) of Some a \<Rightarrow> Some a | None \<Rightarrow> cache_get c key)"
  by (simp add: spawn_subscription_def subscription_cache cache_get_updates)

section \<open>Backoff\<close>

lemma backoff_loop:
  "fst (subscription_loop b ss c) = map (\<lambda>i. (next_backoff ^^ i) b) [0..<length ss]"
proof (induction ss arbitrary: b c)
  case (Cons s ss)
  have "map (\<lambda>i. (next_backoff ^^ i) (next_backoff b)) [0..<length ss]
      = map (\<lambda>i. (next_backoff ^^ i) b) (map Suc [0..<length ss])"
    by (simp add: funpow_swap1)
  with Cons show ?case
    by (simp add: case_prod_unfold Let_def upt_rec [of 0 "Suc (length ss)"] map_Suc_upt del: upt_Suc)
qed simp

lemma next_backoff_power: "(next_backoff ^^ i) 500 = min (500 * 2 ^ i) 10000"
  by (induction i) (simp_all add: next_backoff_def min_def)

text \<open>
  The delays before reconnecting are 500 ms doubled each time up to ten seconds, and
  they depend on nothing but the number of sessions so far: a session that ran for hours does not
  reset them, so from the sixth reconnect on every drop of the stream costs ten seconds.
\<close>

theorem reconnect_delays:
  "fst (spawn_subscription ss c) = map (\<lambda>i. min (500 * 2 ^ i) 10000) [0..<length ss]"
  by (simp add: spawn_subscription_def backoff_loop next_backoff_power)

section \<open>Fetching against the stream\<close>

text \<open>
  A fetch can undo the stream: when the lookup misses and the stream delivers the
  account while the RPC call is under way, the insert that ends the fetch puts the older RPC answer
  over the streamed account, although the stream slot has moved on.
\<close>

theorem fetch_overwrites_stream:
  assumes "cache_get c key = None" "rpc key = Some old"
    and "last_for key (session_updates s) = Some fresh"
  shows "cache_get (snd (run_stream s c)) key = Some fresh \<and>
    cache_get (cache_insert key old (snd (run_stream s c))) key = Some old \<and>
    get_or_fetch rpc key c = (Some old, cache_insert key old c)"
  using assms by (simp add: run_stream_foldl cache_get_updates get_or_fetch_def)
    (simp add: cache_get_def cache_insert_def hm_simps)

definition sample_info :: "u64 \<Rightarrow> account_info" where
  "sample_info n = \<lparr>inf_pubkey = replicate 32 7, inf_lamports = n, inf_data = [], inf_owner = [],
     inf_executable = False, inf_rent_epoch = 0\<rparr>"

theorem fetch_overwrites_stream_witness:
  "\<exists>s fresh old. cache_get (snd (run_stream s cache_new)) (replicate 32 7) = Some fresh \<and>
     cache_get (cache_insert (replicate 32 7) old (snd (run_stream s cache_new))) (replicate 32 7) = Some old \<and>
     ca_lamports fresh = 2 \<and> ca_lamports old = 1"
proof -
  let ?s = "Connected [Inr (Account_update 9 (Some (sample_info 2)))]"
  have "last_for (replicate 32 7) (session_updates ?s) = Some (account_of_info (sample_info 2))"
    by (simp add: session_updates_def last_for_def update_for_def sample_info_def List.map_filter_simps)
  from fetch_overwrites_stream [OF _ _ this, of cache_new "\<lambda>_. Some (account_of_info (sample_info 1))"]
  have "cache_get (snd (run_stream ?s cache_new)) (replicate 32 7) = Some (account_of_info (sample_info 2)) \<and>
    cache_get (cache_insert (replicate 32 7) (account_of_info (sample_info 1))
      (snd (run_stream ?s cache_new))) (replicate 32 7) = Some (account_of_info (sample_info 1))"
    by (simp add: cache_new_def cache_get_def)
  moreover have "ca_lamports (account_of_info (sample_info n)) = n" for n
    by (simp add: account_of_info_def sample_info_def)
  ultimately show ?thesis by blast
qed

end
