(* ===== verification/Litesvm_Sim.thy ===== *)
theory Litesvm_Sim
  imports Account_Cache Transaction Bot_Metrics Program_Registry Metis_Client
begin

text \<open>
  \<open>src/litesvm_sim.rs\<close>: the local simulation gate. LiteSVM is third-party and a parameter (\<open>svm_ops\<close>)
  over an abstract machine state; so are the conversion of a transaction to its types (a \<open>bincode\<close>
  round trip) and the files of the program binaries. A simulator runs under its mutex, so
  \<open>simulate\<close> is one function of the machine, the account cache and the counters; the lazy fetches
  before the lock are its first part.
\<close>

record exec_info =
  xi_post_accounts :: "(pubkey \<times> chain_account) list"
  xi_compute_units :: u64

record exec_failure =
  xf_err :: string
  xf_compute_units :: u64

record ('v, 't) svm_ops =
  svm_warp_to_slot :: "u64 \<Rightarrow> 'v \<Rightarrow> 'v"
  svm_set_account :: "pubkey \<Rightarrow> chain_account \<Rightarrow> 'v \<Rightarrow> 'v option"
  svm_get_account :: "'v \<Rightarrow> pubkey \<Rightarrow> chain_account option"
  svm_add_program :: "pubkey \<Rightarrow> string \<Rightarrow> 'v \<Rightarrow> 'v option"
  svm_simulate :: "'v \<Rightarrow> 't \<Rightarrow> exec_failure + exec_info"
  svm_of_tx :: "versioned_transaction \<Rightarrow> 't option"

record 'v simulator =
  sim_svm :: 'v
  sim_wsol_ata :: pubkey
  sim_fail_closed :: bool

record sim_outcome =
  so_compute_units :: u64
  so_wsol_after :: u64

datatype sim_error = Boundary_failed | Unprofitable u64 u64 | Reverted string

section \<open>Reading token accounts\<close>

definition parse_token_amount :: "bytes \<Rightarrow> u64 option" where
  "parse_token_amount data =
     (if length data < 72 then None else Some (u64_from_le (slice 64 8 data)))"

definition parse_wsol_amount :: "('v, 't) svm_ops \<Rightarrow> 'v \<Rightarrow> pubkey \<Rightarrow> u64" where
  "parse_wsol_amount V svm ata =
     (case Option.bind (svm_get_account V svm ata) (\<lambda>a. parse_token_amount (ca_data a)) of
        Some n \<Rightarrow> n | None \<Rightarrow> 0)"

section \<open>The accounts of a transaction\<close>

definition static_account_keys :: "versioned_message \<Rightarrow> pubkey list" where
  "static_account_keys m = (case m of V0 v \<Rightarrow> vm_account_keys v | Legacy keys \<Rightarrow> keys)"

definition table_entries :: "pubkey list \<Rightarrow> u8 list \<Rightarrow> pubkey list" where
  "table_entries addresses idxs =
     List.map_filter (\<lambda>i. if unat i < length addresses then Some (addresses ! unat i) else None) idxs"

definition lookup_accounts :: "alt_account list \<Rightarrow> table_lookup \<Rightarrow> pubkey list" where
  "lookup_accounts alts l =
     (case find (\<lambda>a. alt_key a = tl_account_key l) alts of
        None \<Rightarrow> []
      | Some alt \<Rightarrow> table_entries (alt_addresses alt) (tl_writable_indexes l)
          @ table_entries (alt_addresses alt) (tl_readonly_indexes l))"

definition collect_tx_accounts :: "versioned_transaction \<Rightarrow> alt_account list \<Rightarrow> pubkey list" where
  "collect_tx_accounts tx alts =
     (let out = static_account_keys (vt_message tx)
            @ (case vt_message tx of V0 v \<Rightarrow> concat (map (lookup_accounts alts) (vm_table_lookups v)) | Legacy _ \<Rightarrow> [])
      in remdups_adj (sort out))"

section \<open>The gate\<close>

text \<open>The lazy fetches; the second component counts the RPC calls.\<close>

definition lazy_fetch ::
    "(pubkey \<Rightarrow> chain_account option) \<Rightarrow> account_cache \<times> nat \<Rightarrow> pubkey \<Rightarrow> account_cache \<times> nat" where
  "lazy_fetch rpc = (\<lambda>(c, n) key.
     if cache_get c key = None then (snd (get_or_fetch rpc key c), n + 1) else (c, n))"

definition set_or_keep :: "('v, 't) svm_ops \<Rightarrow> pubkey \<Rightarrow> chain_account \<Rightarrow> 'v \<Rightarrow> 'v" where
  "set_or_keep V key acct svm = (case svm_set_account V key acct svm of Some svm' \<Rightarrow> svm' | None \<Rightarrow> svm)"

definition inject_alts :: "('v, 't) svm_ops \<Rightarrow> account_cache \<Rightarrow> alt_account list \<Rightarrow> 'v \<Rightarrow> 'v" where
  "inject_alts V c alts svm =
     foldl (\<lambda>svm alt. case cache_get c (alt_key alt) of
                        Some raw \<Rightarrow> set_or_keep V (alt_key alt) raw svm | None \<Rightarrow> svm) svm alts"

definition inject_accounts :: "('v, 't) svm_ops \<Rightarrow> account_cache \<Rightarrow> pubkey list \<Rightarrow> 'v \<Rightarrow> 'v" where
  "inject_accounts V c keys svm =
     foldl (\<lambda>svm key. case cache_get c key of
                        Some acct \<Rightarrow> if ca_executable acct then svm else set_or_keep V key acct svm
                      | None \<Rightarrow> svm) svm keys"

definition judge_run ::
    "bool \<Rightarrow> pubkey \<Rightarrow> u64 \<Rightarrow> u64 \<Rightarrow> metrics \<Rightarrow> exec_failure + exec_info \<Rightarrow>
     (sim_error + sim_outcome) \<times> metrics" where
  "judge_run fail_closed ata wsol_before min_acceptable_out m result =
     (case result of
        Inr info \<Rightarrow>
          (let wsol_after = (case Option.bind (find (\<lambda>(k, _). k = ata) (xi_post_accounts info))
                  (\<lambda>(_, acc). parse_token_amount (ca_data acc)) of Some n \<Rightarrow> n | None \<Rightarrow> wsol_before)
           in if wsol_after < min_acceptable_out
              then (Inl (Unprofitable wsol_after min_acceptable_out), m\<lparr>tx_dropped := tx_dropped m + 1\<rparr>)
              else (Inr \<lparr>so_compute_units = xi_compute_units info, so_wsol_after = wsol_after\<rparr>, m))
      | Inl failure \<Rightarrow>
          if fail_closed then (Inl (Reverted (xf_err failure)), m)
          else (Inr \<lparr>so_compute_units = xf_compute_units failure, so_wsol_after = 0\<rparr>, m))"

definition simulate ::
    "('v, 't) svm_ops \<Rightarrow> (pubkey \<Rightarrow> chain_account option) \<Rightarrow> 'v simulator \<Rightarrow> versioned_transaction \<Rightarrow>
     alt_account list \<Rightarrow> account_cache \<Rightarrow> u64 \<Rightarrow> metrics \<Rightarrow>
     (sim_error + sim_outcome) \<times> 'v simulator \<times> account_cache \<times> metrics" where
  "simulate V rpc s tx alts c min_acceptable_out m =
     (let accounts = collect_tx_accounts tx alts;
          c1 = fst (foldl (lazy_fetch rpc) (c, 0) accounts);
          svm1 = svm_warp_to_slot V (cc_stream_slot c1) (sim_svm s);
          svm2 = inject_alts V c1 alts svm1;
          svm3 = inject_accounts V c1 accounts svm2;
          s' = s\<lparr>sim_svm := svm3\<rparr>;
          wsol_before = parse_wsol_amount V svm3 (sim_wsol_ata s)
      in case svm_of_tx V tx of
           None \<Rightarrow> (Inl Boundary_failed, s', c1, m)
         | Some t \<Rightarrow>
             (case judge_run (sim_fail_closed s) (sim_wsol_ata s) wsol_before min_acceptable_out m
                     (svm_simulate V svm3 t) of
                (r, m') \<Rightarrow> (r, s', c1, m')))"

section \<open>Building simulators\<close>

text \<open>One entry of the program table; \<open>files\<close> tells whether a binary exists.\<close>

definition load_program ::
    "('v, 't) svm_ops \<Rightarrow> (string \<Rightarrow> pubkey option) \<Rightarrow> (string \<Rightarrow> bool) \<Rightarrow> string \<Rightarrow> string \<times> string \<Rightarrow>
     'v \<times> nat \<times> nat \<Rightarrow> (string + 'v \<times> nat \<times> nat)" where
  "load_program V parse exists so_dir = (\<lambda>(pid_str, fname) (svm, loaded, missing).
     if fname = [] then Inr (svm, loaded, missing)
     else
       (let path = trim_end_slashes so_dir @ ''/'' @ fname in
        if \<not> exists path then Inr (svm, loaded, missing + 1)
        else
          (case parse pid_str of
             None \<Rightarrow> Inl pid_str
           | Some pid \<Rightarrow>
               (case svm_add_program V pid path svm of
                  Some svm' \<Rightarrow> Inr (svm', loaded + 1, missing)
                | None \<Rightarrow> Inr (svm, loaded, missing + 1)))))"

fun load_programs ::
    "('v, 't) svm_ops \<Rightarrow> (string \<Rightarrow> pubkey option) \<Rightarrow> (string \<Rightarrow> bool) \<Rightarrow> string \<Rightarrow> (string \<times> string) list \<Rightarrow>
     'v \<times> nat \<times> nat \<Rightarrow> (string + 'v \<times> nat \<times> nat)" where
  "load_programs V parse exists so_dir [] st = Inr st"
| "load_programs V parse exists so_dir (p # ps) st =
     (case load_program V parse exists so_dir p st of
        Inl e \<Rightarrow> Inl e | Inr st' \<Rightarrow> load_programs V parse exists so_dir ps st')"

definition simulator_new ::
    "('v, 't) svm_ops \<Rightarrow> (string \<Rightarrow> pubkey option) \<Rightarrow> (string \<Rightarrow> bool) \<Rightarrow> 'v \<Rightarrow> string \<Rightarrow> pubkey \<Rightarrow> bool \<Rightarrow> u64 \<Rightarrow>
     string + 'v simulator" where
  "simulator_new V parse exists blank so_dir wsol_ata fail_closed current_slot =
     (case load_programs V parse exists so_dir PROGRAMS (svm_warp_to_slot V current_slot blank, 0, 0) of
        Inl e \<Rightarrow> Inl e
      | Inr (svm, loaded, missing) \<Rightarrow>
          Inr \<lparr>sim_svm = svm, sim_wsol_ata = wsol_ata, sim_fail_closed = fail_closed\<rparr>)"

record 'v simulator_pool =
  sp_sims :: "'v simulator list"
  sp_next :: u64

definition pool_new :: "nat \<Rightarrow> string + 'v simulator \<Rightarrow> string + 'v simulator_pool" where
  "pool_new workers built =
     (case built of
        Inl e \<Rightarrow> Inl e
      | Inr s \<Rightarrow> Inr \<lparr>sp_sims = replicate (max workers 1) s, sp_next = 0\<rparr>)"

text \<open>The index \<open>acquire\<close> picks, and the counter it leaves (\<open>usize\<close> is 64 bits wide).\<close>

definition acquire :: "'v simulator_pool \<Rightarrow> nat \<times> 'v simulator_pool" where
  "acquire p = (unat (sp_next p) mod length (sp_sims p), p\<lparr>sp_next := sp_next p + 1\<rparr>)"

fun resolve_alts ::
    "(string \<Rightarrow> pubkey option) \<Rightarrow> (pubkey \<Rightarrow> bytes option) \<Rightarrow> string list \<Rightarrow> alt_cache \<Rightarrow>
     (build_error + alt_account list) \<times> alt_cache" where
  "resolve_alts parse rpc [] c = (Inr [], c)"
| "resolve_alts parse rpc (s # ss) c =
     (case parse s of
        None \<Rightarrow> (Inl (Bad_pubkey s), c)
      | Some pk \<Rightarrow>
          (case alt_get_or_fetch rpc pk c of
             (Inl e, c1) \<Rightarrow> (Inl (Alt_failed e), c1)
           | (Inr alt, c1) \<Rightarrow>
               (case resolve_alts parse rpc ss c1 of
                  (Inl e, c2) \<Rightarrow> (Inl e, c2)
                | (Inr alts, c2) \<Rightarrow> (Inr (alt # alts), c2))))"

end
