(* ===== verification/Fan_Out.thy ===== *)
theory Fan_Out
  imports Prelude "HOL-Library.Multiset"
begin

text \<open>
  Sending to every endpoint at once and keeping the first success, as \<open>src/jito.rs\<close> and
  \<open>src/jito_grpc.rs\<close> both do with a \<open>FuturesUnordered\<close>. The futures complete in an order the
  network decides: a \<open>completion\<close> is any permutation of the endpoints. The interface
  \<open>bundle_sender\<close> states what the worker needs of a submission path.
\<close>

text \<open>The \<open>while let Some(result)\<close> loop over the completed futures, with its \<open>last_err\<close>.\<close>

fun collect_first :: "'e option \<Rightarrow> ('e + 'a) list \<Rightarrow> 'e option + 'a" where
  "collect_first last_err [] = Inl last_err"
| "collect_first last_err (Inr x # rs) = Inr x"
| "collect_first last_err (Inl e # rs) = collect_first (Some e) rs"

type_synonym 't completion = "'t list \<Rightarrow> 't list"

definition permutes :: "'t completion \<Rightarrow> 't list \<Rightarrow> bool" where
  "permutes order ts \<longleftrightarrow> mset (order ts) = mset ts"

section \<open>The loop\<close>

lemma collect_first_Inr:
  "collect_first l rs = Inr x \<longleftrightarrow>
     (\<exists>es rest. rs = map Inl es @ Inr x # rest)"
proof (induction l rs rule: collect_first.induct)
  case (3 l e rs)
  have "(\<exists>es rest. Inl e # rs = map Inl es @ Inr x # rest) \<longleftrightarrow> (\<exists>es rest. rs = map Inl es @ Inr x # rest)"
  proof
    assume "\<exists>es rest. Inl e # rs = map Inl es @ Inr x # rest"
    then obtain es rest where "Inl e # rs = map Inl es @ Inr x # rest" by blast
    then show "\<exists>es rest. rs = map Inl es @ Inr x # rest" by (cases es) auto
  next
    assume "\<exists>es rest. rs = map Inl es @ Inr x # rest"
    then obtain es rest where "rs = map Inl es @ Inr x # rest" by blast
    then have "Inl e # rs = map Inl (e # es) @ Inr x # rest" by simp
    then show "\<exists>es rest. Inl e # rs = map Inl es @ Inr x # rest" by blast
  qed
  with 3 show ?case by simp
qed (auto simp: Cons_eq_append_conv)

lemma collect_first_Inl:
  "collect_first l rs = Inl e \<longleftrightarrow>
     (\<exists>es. rs = map Inl es \<and> e = (if es = [] then l else Some (last es)))"
proof (induction l rs rule: collect_first.induct)
  case (3 l e' rs)
  show ?case
  proof
    assume "collect_first l (Inl e' # rs) = Inl e"
    with 3 obtain es where "rs = map Inl es" "e = (if es = [] then Some e' else Some (last es))" by auto
    then have "Inl e' # rs = map Inl (e' # es) \<and> e = Some (last (e' # es))" by auto
    then show "\<exists>es. Inl e' # rs = map Inl es \<and> e = (if es = [] then l else Some (last es))"
      by (intro exI [of _ "e' # es"]) simp
  next
    assume "\<exists>es. Inl e' # rs = map Inl es \<and> e = (if es = [] then l else Some (last es))"
    then obtain es where "Inl e' # rs = map Inl (e' # es)" "e = Some (last (e' # es))"
      by (auto simp: Cons_eq_map_conv)
    with 3 show "collect_first l (Inl e' # rs) = Inl e" by (auto split: if_splits)
  qed
qed auto

lemma collect_first_error_only:
  "(\<exists>e. collect_first l rs = Inl e) \<longleftrightarrow> (\<forall>r \<in> set rs. \<exists>e. r = Inl e)"
proof (induction l rs rule: collect_first.induct)
  case (3 l e rs)
  then show ?case by simp
qed auto

section \<open>The interface\<close>

text \<open>
  \<open>attempt\<close> is what one target answers, \<open>send\<close> the whole submission under a completion order. A
  success is some target's success, an overall failure means every target failed.
\<close>

locale bundle_sender =
  fixes targets :: "'c \<Rightarrow> 't list"
    and attempt :: "'c \<Rightarrow> 'm \<Rightarrow> 't \<Rightarrow> 'e + 'id"
    and send :: "'t completion \<Rightarrow> 'c \<Rightarrow> 'm \<Rightarrow> 'f + 'id"
  assumes send_Inr: "permutes order (targets c) \<Longrightarrow> send order c m = Inr i \<Longrightarrow>
      \<exists>t \<in> set (targets c). attempt c m t = Inr i"
    and send_Inl: "permutes order (targets c) \<Longrightarrow> send order c m = Inl f \<Longrightarrow> t \<in> set (targets c) \<Longrightarrow>
      \<exists>e. attempt c m t = Inl e"
begin

definition accepted_by :: "'c \<Rightarrow> 'm \<Rightarrow> 't \<Rightarrow> bool" where
  "accepted_by c m t \<longleftrightarrow> t \<in> set (targets c) \<and> (\<exists>i. attempt c m t = Inr i)"

lemma sent_iff_accepted:
  assumes "permutes order (targets c)"
  shows "(\<exists>i. send order c m = Inr i) \<longleftrightarrow> (\<exists>t. accepted_by c m t)"
proof
  assume "\<exists>i. send order c m = Inr i"
  then show "\<exists>t. accepted_by c m t"
    using send_Inr [OF assms] unfolding accepted_by_def by blast
next
  assume "\<exists>t. accepted_by c m t"
  then obtain t i where t: "t \<in> set (targets c)" "attempt c m t = Inr i"
    by (auto simp: accepted_by_def)
  show "\<exists>i. send order c m = Inr i"
  proof (cases "send order c m")
    case (Inl f)
    with send_Inl [OF assms Inl t(1)] t(2) show ?thesis by simp
  qed simp
qed

text \<open>Whether a bundle is submitted does not depend on which endpoint answers first.\<close>

lemma outcome_order_independent:
  assumes "permutes order (targets c)" "permutes order' (targets c)"
  shows "(\<exists>i. send order c m = Inr i) \<longleftrightarrow> (\<exists>i. send order' c m = Inr i)"
  using assms by (simp add: sent_iff_accepted)

text \<open>One healthy target is enough.\<close>

lemma one_target_suffices:
  assumes "permutes order (targets c)" "t \<in> set (targets c)" "attempt c m t = Inr i"
  shows "\<exists>i. send order c m = Inr i"
  using assms by (auto simp: sent_iff_accepted accepted_by_def)

end

text \<open>The common body: attempts at all targets, collected in completion order.\<close>

definition race :: "'t completion \<Rightarrow> 't list \<Rightarrow> ('t \<Rightarrow> 'e + 'a) \<Rightarrow> 'e option + 'a" where
  "race order ts f = collect_first None (map f (order ts))"

lemma permutes_set: "permutes order ts \<Longrightarrow> set (order ts) = set ts"
  unfolding permutes_def by (rule mset_eq_setD)

lemma race_Inr:
  assumes "permutes order ts" "race order ts f = Inr x"
  shows "\<exists>t \<in> set ts. f t = Inr x"
proof -
  from assms(2) obtain es rest where "map f (order ts) = map Inl es @ Inr x # rest"
    by (auto simp: race_def collect_first_Inr)
  then have "Inr x \<in> set (map f (order ts))" by (metis in_set_conv_decomp)
  with permutes_set [OF assms(1)] show ?thesis by auto
qed

lemma race_Inl:
  assumes "permutes order ts" "race order ts f = Inl e" "t \<in> set ts"
  shows "\<exists>e. f t = Inl e"
proof -
  from assms(2) have "\<forall>r \<in> set (map f (order ts)). \<exists>e. r = Inl e"
    unfolding collect_first_error_only [of None, symmetric] race_def by blast
  with assms(3) permutes_set [OF assms(1)] show ?thesis by auto
qed

text \<open>The reported error is the one that completed last.\<close>

lemma race_error:
  assumes "race order ts f = Inl e"
  shows "e = (if order ts = [] then None else Some (projl (f (last (order ts)))))"
proof -
  from assms obtain es where es: "map f (order ts) = map Inl es" "e = (if es = [] then None else Some (last es))"
    by (auto simp: race_def collect_first_Inl)
  show ?thesis
  proof (cases "es = []")
    case False
    then have ne: "order ts \<noteq> []" using es(1) by auto
    have "f (last (order ts)) = last (map f (order ts))" using ne by (simp add: last_map)
    also have "\<dots> = Inl (last es)" using False es(1) by (simp add: last_map)
    finally show ?thesis using False ne es(2) by simp
  qed (use es in simp)
qed

end
