(* ===== verification/Jito_Rest.thy ===== *)
theory Jito_Rest
  imports Fan_Out Metis_Client Borsh_Patch Transaction
begin

text \<open>
  \<open>src/jito.rs\<close>: the JSON-RPC client that sends a bundle of one transaction to every block-engine
  URL. HTTP, \<open>bincode\<close> and base64 are parameters: \<open>post\<close> answers a URL and a body, \<open>bytes\<close> is the
  serialized transaction when \<open>bincode\<close> accepts it.
\<close>

record jito_client =
  bundle_urls :: "string list"

record rpc_error =
  re_code :: i64
  re_message :: string

record rpc_response =
  rr_result :: "string option"
  rr_error :: "rpc_error option"

datatype endpoint_error =
    Post_failed string
  | Http_error string u16 string
  | Bad_response
  | Rpc_error string i64 string
  | No_result

datatype send_error = Serialize_failed | No_endpoints | Endpoint endpoint_error

type_synonym post = "string \<Rightarrow> json \<Rightarrow> http_send_error + rpc_response http_response"

definition jito_new :: "string list \<Rightarrow> string \<Rightarrow> jito_client" where
  "jito_new base_urls uuid =
     \<lparr>bundle_urls = map (\<lambda>url. trim_end_slashes url @ ''/api/v1/bundles?uuid='' @ uuid) base_urls\<rparr>"

definition send_bundle_request :: "string \<Rightarrow> json" where
  "send_bundle_request tx_base64 =
     JObject [(''jsonrpc'', JString ''2.0''), (''id'', JNumber ''1''),
       (''method'', JString ''sendBundle''),
       (''params'', JArray [JArray [JString tx_base64], JObject [(''encoding'', JString ''base64'')]])]"

definition send_to_endpoint :: "post \<Rightarrow> string \<Rightarrow> string \<Rightarrow> endpoint_error + string" where
  "send_to_endpoint post url tx_base64 =
     (case post url (send_bundle_request tx_base64) of
        Inl _ \<Rightarrow> Inl (Post_failed url)
      | Inr resp \<Rightarrow>
          if \<not> rsp_is_success resp then Inl (Http_error url (rsp_status resp) (rsp_text resp))
          else
            (case rsp_json resp of
               None \<Rightarrow> Inl Bad_response
             | Some rpc_resp \<Rightarrow>
                 (case rr_error rpc_resp of
                    Some err \<Rightarrow> Inl (Rpc_error url (re_code err) (re_message err))
                  | None \<Rightarrow> (case rr_result rpc_resp of None \<Rightarrow> Inl No_result | Some bundle_id \<Rightarrow> Inr bundle_id))))"

definition jito_send_bundle ::
    "base64_engine \<Rightarrow> post \<Rightarrow> string completion \<Rightarrow> jito_client \<Rightarrow> bytes option \<Rightarrow> send_error + string" where
  "jito_send_bundle B post order J bytes =
     (case bytes of
        None \<Rightarrow> Inl Serialize_failed
      | Some tx_bytes \<Rightarrow>
          (let tx_base64 = b64_encode B tx_bytes in
           case race order (bundle_urls J) (\<lambda>url. send_to_endpoint post url tx_base64) of
             Inr bundle_id \<Rightarrow> Inr bundle_id
           | Inl (Some e) \<Rightarrow> Inl (Endpoint e)
           | Inl None \<Rightarrow> Inl No_endpoints))"

text \<open>What one URL answers to a serialized transaction; nothing is sent when that failed.\<close>

definition rest_attempt ::
    "base64_engine \<Rightarrow> post \<Rightarrow> jito_client \<Rightarrow> bytes option \<Rightarrow> string \<Rightarrow> endpoint_error + string" where
  "rest_attempt B post J bytes url =
     (case bytes of None \<Rightarrow> Inl Bad_response | Some b \<Rightarrow> send_to_endpoint post url (b64_encode B b))"

interpretation rest: bundle_sender bundle_urls "rest_attempt B post" "jito_send_bundle B post" for B post
proof
  fix order c m i
  assume "permutes order (bundle_urls c)" "jito_send_bundle B post order c m = Inr i"
  then show "\<exists>t \<in> set (bundle_urls c). rest_attempt B post c m t = Inr i"
    by (auto simp: jito_send_bundle_def rest_attempt_def Let_def dest: race_Inr
        split: option.splits sum.splits)
next
  fix order c m f t
  assume "permutes order (bundle_urls c)" "jito_send_bundle B post order c m = Inl f" "t \<in> set (bundle_urls c)"
  then show "\<exists>e. rest_attempt B post c m t = Inl e"
    by (auto simp: jito_send_bundle_def rest_attempt_def Let_def dest: race_Inl
        split: option.splits sum.splits)
qed

text \<open>An endpoint accepts exactly a 2xx reply without an error object and with a result.\<close>

lemma send_to_endpoint_Inr:
  "send_to_endpoint post url b = Inr i \<longleftrightarrow>
     (\<exists>resp rpc. post url (send_bundle_request b) = Inr resp \<and> rsp_is_success resp \<and>
        rsp_json resp = Some rpc \<and> rr_error rpc = None \<and> rr_result rpc = Some i)"
  by (auto simp: send_to_endpoint_def split: sum.splits option.splits if_splits)

end
