(* ===== verification/Jito_Grpc.thy ===== *)
theory Jito_Grpc
  imports Jito_Rest
begin

text \<open>
  \<open>src/jito_grpc.rs\<close>: the gRPC client. Per region it holds a channel and, when the
  challenge/sign/exchange handshake succeeded, the tokens a background task keeps fresh. The
  generated gRPC stubs, the transport and the wallet are parameters: a channel answers each call
  with a status or a reply. An authentication logs the calls it makes, in order. Times are unix
  seconds.
\<close>

record tokens =
  tk_access :: string
  tk_access_expires_at :: u64
  tk_refresh :: string
  tk_refresh_expires_at :: u64

text \<open>The protobuf messages: a token with its optional expiry, the reply of the exchange.\<close>

record token_msg =
  tm_value :: string
  tm_expires_at_utc :: "i64 option"

record auth_tokens_reply =
  ar_access :: "token_msg option"
  ar_refresh :: "token_msg option"

record keypair =
  kp_pubkey :: bytes
  kp_base58 :: string
  kp_sign :: "bytes \<Rightarrow> bytes"

datatype auth_call =
    Generate_challenge bytes
  | Generate_tokens string bytes bytes
  | Refresh_access string

text \<open>The auth service of one channel; a status is its rendered code, message and metadata.\<close>

record auth_service =
  as_challenge :: "bytes \<Rightarrow> string + string"
  as_tokens :: "string \<Rightarrow> bytes \<Rightarrow> bytes \<Rightarrow> string + auth_tokens_reply"
  as_refresh :: "string \<Rightarrow> string + token_msg option"

datatype auth_error = Rpc_status string string | No_access_token | No_refresh_token

definition timestamp_secs :: "i64 option \<Rightarrow> u64" where
  "timestamp_secs ts = (case ts of Some s \<Rightarrow> if sint s < 0 then 0 else s | None \<Rightarrow> 0)"

definition status_to_anyhow :: "string \<Rightarrow> string \<Rightarrow> auth_error" where
  "status_to_anyhow rpc status = Rpc_status rpc status"

text \<open>\<open>str::as_bytes\<close> of the challenge text.\<close>

definition text_bytes :: "string \<Rightarrow> bytes" where
  "text_bytes s = map of_char s"

definition authenticate :: "auth_service \<Rightarrow> keypair \<Rightarrow> (auth_error + tokens) \<times> auth_call list" where
  "authenticate S kp =
     (let pubkey = kp_pubkey kp; call1 = Generate_challenge pubkey in
      case as_challenge S pubkey of
        Inl status \<Rightarrow> (Inl (status_to_anyhow ''GenerateAuthChallenge'' status), [call1])
      | Inr raw \<Rightarrow>
          (let challenge = kp_base58 kp @ ''-'' @ raw;
               signed_bytes = kp_sign kp (text_bytes challenge);
               call2 = Generate_tokens challenge pubkey signed_bytes
           in case as_tokens S challenge pubkey signed_bytes of
                Inl status \<Rightarrow> (Inl (status_to_anyhow ''GenerateAuthTokens'' status), [call1, call2])
              | Inr token_resp \<Rightarrow>
                  (case ar_access token_resp of
                     None \<Rightarrow> (Inl No_access_token, [call1, call2])
                   | Some access \<Rightarrow>
                       (case ar_refresh token_resp of
                          None \<Rightarrow> (Inl No_refresh_token, [call1, call2])
                        | Some refresh \<Rightarrow>
                            (Inr \<lparr>tk_access = tm_value access,
                                  tk_access_expires_at = timestamp_secs (tm_expires_at_utc access),
                                  tk_refresh = tm_value refresh,
                                  tk_refresh_expires_at = timestamp_secs (tm_expires_at_utc refresh)\<rparr>,
                             [call1, call2])))))"

section \<open>The client\<close>

record region =
  rg_endpoint :: string
  rg_tokens :: "tokens option"

datatype client_error = Keypair_unreadable | No_regions

text \<open>
  \<open>connect_region\<close>: \<open>None\<close> when the channel cannot be opened; otherwise the region and whether it
  authenticated, which is when its refresh task is spawned.
\<close>

definition connect_region ::
    "(string \<Rightarrow> auth_service option) \<Rightarrow> keypair \<Rightarrow> string \<Rightarrow> (region \<times> bool) option" where
  "connect_region dial kp endpoint =
     (case dial endpoint of
        None \<Rightarrow> None
      | Some S \<Rightarrow>
          (case fst (authenticate S kp) of
             Inr initial \<Rightarrow> Some (\<lparr>rg_endpoint = endpoint, rg_tokens = Some initial\<rparr>, True)
           | Inl _ \<Rightarrow> Some (\<lparr>rg_endpoint = endpoint, rg_tokens = None\<rparr>, False)))"

record jito_grpc_client =
  gc_regions :: "region list"

fun connect_all ::
    "(string \<Rightarrow> auth_service option) \<Rightarrow> keypair \<Rightarrow> string list \<Rightarrow> region list \<times> nat \<times> nat \<Rightarrow>
     region list \<times> nat \<times> nat" where
  "connect_all dial kp [] acc = acc"
| "connect_all dial kp (endpoint # es) (regions, authed, no_auth) =
     (case connect_region dial kp endpoint of
        Some (region, was_authed) \<Rightarrow>
          connect_all dial kp es
            (regions @ [region], if was_authed then authed + 1 else authed,
             if was_authed then no_auth else no_auth + 1)
      | None \<Rightarrow> connect_all dial kp es (regions, authed, no_auth))"

definition grpc_new ::
    "(string \<Rightarrow> keypair option) \<Rightarrow> (string \<Rightarrow> auth_service option) \<Rightarrow> string list \<Rightarrow> string \<Rightarrow>
     client_error + jito_grpc_client" where
  "grpc_new read_keypair dial endpoints keypair_path =
     (case read_keypair keypair_path of
        None \<Rightarrow> Inl Keypair_unreadable
      | Some kp \<Rightarrow>
          (case connect_all dial kp endpoints ([], 0, 0) of
             (regions, authed, no_auth) \<Rightarrow>
               if regions = [] then Inl No_regions else Inr \<lparr>gc_regions = regions\<rparr>))"

section \<open>Sending\<close>

datatype region_error = Invalid_access_token | Send_timed_out string | Send_rejected string
datatype grpc_send_error = Grpc_serialize_failed | Grpc_no_regions | Region_failed region_error
datatype rpc_outcome = Timed_out | Status string | Uuid string

text \<open>
  \<open>valid_metadata\<close> is the parser of a header value; \<open>call\<close> answers an endpoint, the authorization
  header and the packet data of the one-packet bundle.
\<close>

record grpc_env =
  ge_valid_metadata :: "string \<Rightarrow> bool"
  ge_call :: "string \<Rightarrow> string option \<Rightarrow> bytes \<Rightarrow> rpc_outcome"

definition auth_header :: "grpc_env \<Rightarrow> region \<Rightarrow> region_error + string option" where
  "auth_header E rg =
     (case rg_tokens rg of
        None \<Rightarrow> Inr None
      | Some t \<Rightarrow>
          (let v = ''Bearer '' @ tk_access t in
           if ge_valid_metadata E v then Inr (Some v) else Inl Invalid_access_token))"

definition send_to_region :: "grpc_env \<Rightarrow> region \<Rightarrow> bytes \<Rightarrow> region_error + string" where
  "send_to_region E rg tx_bytes =
     (case auth_header E rg of
        Inl e \<Rightarrow> Inl e
      | Inr header \<Rightarrow>
          (case ge_call E (rg_endpoint rg) header tx_bytes of
             Timed_out \<Rightarrow> Inl (Send_timed_out (rg_endpoint rg))
           | Status s \<Rightarrow> Inl (Send_rejected (rg_endpoint rg))
           | Uuid u \<Rightarrow> Inr u))"

definition grpc_send_bundle ::
    "grpc_env \<Rightarrow> region completion \<Rightarrow> jito_grpc_client \<Rightarrow> bytes option \<Rightarrow> grpc_send_error + string" where
  "grpc_send_bundle E order c bytes =
     (case bytes of
        None \<Rightarrow> Inl Grpc_serialize_failed
      | Some tx_bytes \<Rightarrow>
          (case race order (gc_regions c) (\<lambda>rg. send_to_region E rg tx_bytes) of
             Inr uuid \<Rightarrow> Inr uuid
           | Inl (Some e) \<Rightarrow> Inl (Region_failed e)
           | Inl None \<Rightarrow> Inl Grpc_no_regions))"

definition grpc_attempt :: "grpc_env \<Rightarrow> jito_grpc_client \<Rightarrow> bytes option \<Rightarrow> region \<Rightarrow> region_error + string" where
  "grpc_attempt E c bytes rg =
     (case bytes of None \<Rightarrow> Inl Invalid_access_token | Some b \<Rightarrow> send_to_region E rg b)"

interpretation grpc: bundle_sender gc_regions "grpc_attempt E" "grpc_send_bundle E" for E
proof
  fix order c m i
  assume "permutes order (gc_regions c)" "grpc_send_bundle E order c m = Inr i"
  then show "\<exists>t \<in> set (gc_regions c). grpc_attempt E c m t = Inr i"
    by (auto simp: grpc_send_bundle_def grpc_attempt_def dest: race_Inr split: option.splits sum.splits)
next
  fix order c m f t
  assume "permutes order (gc_regions c)" "grpc_send_bundle E order c m = Inl f" "t \<in> set (gc_regions c)"
  then show "\<exists>e. grpc_attempt E c m t = Inl e"
    by (auto simp: grpc_send_bundle_def grpc_attempt_def dest: race_Inl split: option.splits sum.splits)
qed

section \<open>The refresh task\<close>

text \<open>
  One round of \<open>token_refresh_loop\<close>, a task only an authenticated region has and the only writer of
  its tokens: the sleep before it, then the round itself at the time it wakes. A round answers the
  tokens it leaves, the extra sleep it ends with and the calls it made.
\<close>

definition refresh_sleep :: "tokens option \<Rightarrow> u64 \<Rightarrow> u64" where
  "refresh_sleep tks now =
     (case tks of
        Some t \<Rightarrow> min (max (saturating_sub (saturating_sub (tk_access_expires_at t) now) 60) 10) 300
      | None \<Rightarrow> 300)"

definition needs_full_reauth :: "tokens option \<Rightarrow> u64 \<Rightarrow> bool" where
  "needs_full_reauth tks now =
     (case tks of Some t \<Rightarrow> saturating_sub (tk_refresh_expires_at t) now < 120 | None \<Rightarrow> True)"

definition full_reauth :: "auth_service \<Rightarrow> keypair \<Rightarrow> tokens option \<Rightarrow> tokens option \<times> u64 \<times> auth_call list" where
  "full_reauth S kp tks =
     (case authenticate S kp of
        (Inr new, calls) \<Rightarrow> (Some new, 0, calls)
      | (Inl _, calls) \<Rightarrow> (tks, 30, calls))"

definition refresh_round ::
    "auth_service \<Rightarrow> keypair \<Rightarrow> u64 \<Rightarrow> tokens option \<Rightarrow> tokens option \<times> u64 \<times> auth_call list" where
  "refresh_round S kp now tks =
     (if needs_full_reauth tks now then full_reauth S kp tks
      else
        (case map_option tk_refresh tks of
           None \<Rightarrow> (tks, 0, [])
         | Some refresh_token \<Rightarrow>
             (case as_refresh S refresh_token of
                Inr (Some new_access) \<Rightarrow>
                  (map_option (\<lambda>t. t\<lparr>tk_access_expires_at := timestamp_secs (tm_expires_at_utc new_access),
                     tk_access := tm_value new_access\<rparr>) tks, 0, [Refresh_access refresh_token])
              | Inr None \<Rightarrow> (tks, 0, [Refresh_access refresh_token])
              | Inl status \<Rightarrow>
                  (case full_reauth S kp tks of
                     (tks', s, calls) \<Rightarrow> (tks', s, Refresh_access refresh_token # calls)))))"

end
