(* ===== verification/Worker.thy ===== *)
theory Worker
  imports Pipeline Transaction Rate_Limiter
begin

text \<open>
  The worker pool of \<open>src/arbitrage.rs\<close> (\<open>spawn_workers\<close>) as a step relation. Any number of
  workers and pushers run concurrently on the shared queue, its semaphore, the two limiters and
  the counters; a \<open>point\<close> is where a thread stands between two accesses to shared state, \<open>advance\<close>
  is the code up to the next access, and a step lets one thread advance. Time, the result of
  building a transaction and the answer of Jito come from the environment of the step; the length
  of a transaction's \<open>bincode\<close> form is a parameter. A pusher is \<open>push_to_queue\<close> of the scanner or of an answered Metis request.
\<close>

record pool =
  p_lifo :: "ready_instruction list"
  p_permits :: nat
  p_metrics :: metrics
  p_jito :: rate_limiter
  p_grpc :: "rate_limiter option"

datatype point =
    Waiting
  | Popping
  | Counting_pop ready_instruction
  | Holding ready_instruction
  | Acquiring ready_instruction
  | Acquiring_grpc ready_instruction
  | Refused ready_instruction
  | Count_requeued
  | Permit_requeued
  | Sleeping
  | Building bool ready_instruction
  | Built bool versioned_transaction
  | Sending bool versioned_transaction
  | Push_item ready_instruction
  | Push_count_in
  | Push_count_depth
  | Push_permit
  | Push_done

record step_env =
  e_now :: int
  e_build :: "swap_instructions_response \<Rightarrow> u32 \<Rightarrow> versioned_transaction option"
  e_send_ok :: bool

record worker_config =
  wc_max_age_ms :: u64
  wc_cu_limits :: "u32 list"
  wc_has_grpc_client :: bool
  wc_serialized_size :: "versioned_transaction \<Rightarrow> nat option"

definition MAX_TX_ACCOUNT_LOCKS :: nat where
  "MAX_TX_ACCOUNT_LOCKS = 64"

definition MAX_TX_SIZE :: nat where
  "MAX_TX_SIZE = 1232"

text \<open>\<open>item.arrived_at.elapsed().as_millis() as u64\<close>; instants are nanoseconds, elapsed saturates at 0.\<close>

definition age_ms :: "int \<Rightarrow> ready_instruction \<Rightarrow> u64" where
  "age_ms now item = of_int (max 0 (now - ri_arrived_at item) div 1000000)"

abbreviation pool_metrics :: "(metrics \<Rightarrow> metrics) \<Rightarrow> pool \<Rightarrow> pool" where
  "pool_metrics f s \<equiv> s\<lparr>p_metrics := f (p_metrics s)\<rparr>"

definition count_drop :: "metrics \<Rightarrow> metrics" where
  "count_drop m = m\<lparr>tx_dropped := tx_dropped m + 1\<rparr>"

section \<open>One advance of a thread\<close>

fun advance :: "worker_config \<Rightarrow> step_env \<Rightarrow> point \<Rightarrow> pool \<Rightarrow> (point \<times> pool) option" where
  "advance W E Waiting s =
     (if p_permits s > 0 then Some (Popping, s\<lparr>p_permits := p_permits s - 1\<rparr>) else None)"
| "advance W E Popping s =
     (if p_lifo s = [] then Some (Waiting, s)
      else Some (Counting_pop (last (p_lifo s)), s\<lparr>p_lifo := butlast (p_lifo s)\<rparr>))"
| "advance W E (Counting_pop item) s =
     Some (Holding item, pool_metrics (\<lambda>m. m\<lparr>queue_depth := queue_depth m - 1\<rparr>) s)"
| "advance W E (Holding item) s =
     (if age_ms (e_now E) item > wc_max_age_ms W
      then Some (Waiting, pool_metrics (\<lambda>m. count_drop (m\<lparr>dropped_stale := dropped_stale m + 1\<rparr>)) s)
      else Some (Acquiring item, s))"
| "advance W E (Acquiring item) s =
     (case try_acquire (e_now E) (p_jito s) of
        (ok, r) \<Rightarrow> Some (if ok then Building False item else Acquiring_grpc item, s\<lparr>p_jito := r\<rparr>))"
| "advance W E (Acquiring_grpc item) s =
     (case p_grpc s of
        None \<Rightarrow> Some (Refused item, s)
      | Some gl \<Rightarrow>
          (case try_acquire (e_now E) gl of
             (ok, r) \<Rightarrow> Some (if ok then Building True item else Refused item, s\<lparr>p_grpc := Some r\<rparr>)))"
| "advance W E (Refused item) s =
     (let s1 = (if \<not> ri_waited_for_slot item
                then pool_metrics (\<lambda>m. m\<lparr>rate_requeued := rate_requeued m + 1\<rparr>) s else s)
      in Some (Count_requeued, s1\<lparr>p_lifo := p_lifo s1 @ [item\<lparr>ri_waited_for_slot := True\<rparr>]\<rparr>))"
| "advance W E Count_requeued s =
     Some (Permit_requeued, pool_metrics (\<lambda>m. m\<lparr>queue_depth := queue_depth m + 1\<rparr>) s)"
| "advance W E Permit_requeued s = Some (Sleeping, s\<lparr>p_permits := p_permits s + 1\<rparr>)"
| "advance W E Sleeping s = Some (Waiting, s)"
| "advance W E (Building use_grpc item) s =
     (case e_build E (ri_swap_ixs item) (lookup_cu_limit (ri_hop_count item) (wc_cu_limits W)) of
        None \<Rightarrow> Some (Waiting, pool_metrics (\<lambda>m. count_drop (m\<lparr>tx_build_failed := tx_build_failed m + 1\<rparr>)) s)
      | Some tx \<Rightarrow> Some (Built use_grpc tx, s))"
| "advance W E (Built use_grpc tx) s =
     (if account_lock_count tx > MAX_TX_ACCOUNT_LOCKS
      then Some (Waiting, pool_metrics (\<lambda>m. count_drop (m\<lparr>dropped_account_locks := dropped_account_locks m + 1\<rparr>)) s)
      else
        (case wc_serialized_size W tx of
           None \<Rightarrow> Some (Waiting, pool_metrics (\<lambda>m. count_drop (m\<lparr>tx_build_failed := tx_build_failed m + 1\<rparr>)) s)
         | Some n \<Rightarrow>
             if n > MAX_TX_SIZE
             then Some (Waiting, pool_metrics (\<lambda>m. count_drop (m\<lparr>tx_too_large := tx_too_large m + 1\<rparr>)) s)
             else Some (Sending use_grpc tx, pool_metrics (\<lambda>m. m\<lparr>calc_done := calc_done m + 1\<rparr>) s)))"
| "advance W E (Sending use_grpc tx) s =
     Some (Waiting,
       if e_send_ok E then pool_metrics (\<lambda>m. m\<lparr>jito_sent := jito_sent m + 1\<rparr>) s
       else pool_metrics (\<lambda>m. count_drop (m\<lparr>jito_send_failed := jito_send_failed m + 1\<rparr>)) s)"
| "advance W E (Push_item item) s = Some (Push_count_in, s\<lparr>p_lifo := p_lifo s @ [item]\<rparr>)"
| "advance W E Push_count_in s =
     Some (Push_count_depth, pool_metrics (\<lambda>m. m\<lparr>queue_in := queue_in m + 1\<rparr>) s)"
| "advance W E Push_count_depth s =
     Some (Push_permit, pool_metrics (\<lambda>m. m\<lparr>queue_depth := queue_depth m + 1\<rparr>) s)"
| "advance W E Push_permit s = Some (Push_done, s\<lparr>p_permits := p_permits s + 1\<rparr>)"
| "advance W E Push_done s = None"

text \<open>Which client a send goes through.\<close>

definition uses_grpc_client :: "worker_config \<Rightarrow> point \<Rightarrow> bool" where
  "uses_grpc_client W p =
     (case p of Sending use_grpc tx \<Rightarrow> use_grpc \<and> wc_has_grpc_client W | _ \<Rightarrow> False)"

section \<open>The pool\<close>

text \<open>\<open>spawn_workers\<close>: an empty queue, no permit, every worker at its \<open>acquire\<close>.\<close>

definition spawn_workers ::
    "nat \<Rightarrow> u32 \<Rightarrow> u32 option \<Rightarrow> pool \<times> point list" where
  "spawn_workers worker_count rate grpc_rate =
     (\<lparr>p_lifo = [], p_permits = 0, p_metrics = metrics_new, p_jito = rl_new rate,
       p_grpc = map_option rl_new grpc_rate\<rparr>, replicate worker_count Waiting)"

inductive pool_step :: "worker_config \<Rightarrow> pool \<times> point list \<Rightarrow> pool \<times> point list \<Rightarrow> bool"
  for W where
  thread: "i < length ps \<Longrightarrow> advance W E (ps ! i) s = Some (p, s') \<Longrightarrow> pool_step W (s, ps) (s', ps[i := p])"
| pusher: "pool_step W (s, ps) (s, ps @ [Push_item (new_item now ixs hop_count)])"

inductive_cases pool_stepE: "pool_step W (s, ps) st'"

inductive pool_reach :: "worker_config \<Rightarrow> pool \<times> point list \<Rightarrow> pool \<times> point list \<Rightarrow> bool"
  for W st0 where
  start: "pool_reach W st0 st0"
| step: "pool_reach W st0 st \<Longrightarrow> pool_step W st st' \<Longrightarrow> pool_reach W st0 st'"

end
