(* ===== verification/Worker_Properties.thy ===== *)
theory Worker_Properties
  imports Worker
begin

text \<open>
  What the worker pool guarantees in every interleaving: queue, semaphore and gauge agree, no
  opportunity is lost or processed twice, only transactions within Solana's limits are sent, and
  no path exceeds its rate.
\<close>

section \<open>Tallies of program points\<close>

definition tally :: "(point \<Rightarrow> nat) \<Rightarrow> point list \<Rightarrow> nat" where
  "tally f ps = sum_list (map f ps)"

lemma tally_append [simp]: "tally f (ps @ qs) = tally f ps + tally f qs" "tally f [] = 0"
    "tally f [p] = f p"
  by (simp_all add: tally_def)

lemma tally_replicate [simp]: "tally f (replicate n p) = n * f p"
  by (simp add: tally_def sum_list_replicate)

lemma tally_update:
  "i < length ps \<Longrightarrow> tally f (ps[i := p]) + f (ps ! i) = tally f ps + f p"
proof (induction ps arbitrary: i)
  case (Cons q ps)
  then show ?case by (cases i) (auto simp: tally_def add.commute add.left_commute)
qed simp

lemma tally_update_word:
  assumes "i < length ps"
  shows "(of_nat (tally f (ps[i := p])) :: u64) = of_nat (tally f ps) + of_nat (f p) - of_nat (f (ps ! i))"
proof -
  have "(of_nat (tally f (ps[i := p]) + f (ps ! i)) :: u64) = of_nat (tally f ps + f p)"
    using tally_update [OF assms] by simp
  then show ?thesis by (simp add: algebra_simps)
qed

text \<open>Threads between taking a permit and popping; between pushing and adding the permit.\<close>

fun popping :: "point \<Rightarrow> nat" where
  "popping Popping = 1" | "popping _ = 0"

fun unposted :: "point \<Rightarrow> nat" where
  "unposted Count_requeued = 1" | "unposted Permit_requeued = 1" | "unposted Push_count_in = 1"
| "unposted Push_count_depth = 1" | "unposted Push_permit = 1" | "unposted _ = 0"

text \<open>Threads that popped but did not lower the gauge; that pushed but did not raise it.\<close>

fun gauge_high :: "point \<Rightarrow> nat" where
  "gauge_high (Counting_pop _) = 1" | "gauge_high _ = 0"

fun gauge_low :: "point \<Rightarrow> nat" where
  "gauge_low Count_requeued = 1" | "gauge_low Push_count_in = 1" | "gauge_low Push_count_depth = 1"
| "gauge_low _ = 0"

text \<open>Threads that hold an opportunity; that pushed a new one but did not count it; that send.\<close>

fun holding :: "point \<Rightarrow> nat" where
  "holding (Counting_pop _) = 1" | "holding (Holding _) = 1" | "holding (Acquiring _) = 1"
| "holding (Acquiring_grpc _) = 1" | "holding (Refused _) = 1" | "holding (Building _ _) = 1"
| "holding (Built _ _) = 1" | "holding (Sending _ _) = 1" | "holding _ = 0"

fun uncounted :: "point \<Rightarrow> nat" where
  "uncounted Push_count_in = 1" | "uncounted _ = 0"

fun sending :: "point \<Rightarrow> nat" where
  "sending (Sending _ _) = 1" | "sending _ = 0"

section \<open>The queue and its semaphore\<close>

definition queue_inv :: "pool \<times> point list \<Rightarrow> bool" where
  "queue_inv = (\<lambda>(s, ps). length (p_lifo s) = p_permits s + tally popping ps + tally unposted ps)"

definition books_inv :: "pool \<times> point list \<Rightarrow> bool" where
  "books_inv = (\<lambda>(s, ps). let m = p_metrics s; n = (\<lambda>f. of_nat (tally f ps) :: u64) in
     queue_depth m + n gauge_low = of_nat (length (p_lifo s)) + n gauge_high \<and>
     queue_in m + n uncounted = of_nat (length (p_lifo s)) + n holding + dropped_stale m
       + tx_build_failed m + dropped_account_locks m + tx_too_large m + jito_sent m + jito_send_failed m \<and>
     calc_done m = jito_sent m + jito_send_failed m + n sending \<and>
     tx_dropped m = dropped_stale m + tx_build_failed m + dropped_account_locks m + tx_too_large m
       + jito_send_failed m)"

lemma tally_member: "i < length ps \<Longrightarrow> f (ps ! i) \<le> tally f ps"
proof (induction ps arbitrary: i)
  case (Cons q ps)
  then show ?case by (cases i) (fastforce simp: tally_def)+
qed simp

lemma popping_nonempty:
  "queue_inv (s, ps) \<Longrightarrow> i < length ps \<Longrightarrow> ps ! i = Popping \<Longrightarrow> p_lifo s \<noteq> []"
  using tally_member [of i ps popping] by (auto simp: queue_inv_def)

lemma queue_inv_thread:
  assumes "queue_inv (s, ps)" "i < length ps" "advance W E (ps ! i) s = Some (p, s')"
  shows "queue_inv (s', ps[i := p])"
proof -
  note up = tally_update [OF assms(2), of popping p] tally_update [OF assms(2), of unposted p]
  show ?thesis
    using assms(1,3) up popping_nonempty [OF assms(1,2)]
    by (cases "ps ! i") (auto simp: queue_inv_def Let_def split: if_splits option.splits prod.splits)
qed

lemma books_inv_thread:
  assumes "books_inv (s, ps)" "queue_inv (s, ps)" "i < length ps" "advance W E (ps ! i) s = Some (p, s')"
  shows "books_inv (s', ps[i := p])"
proof (cases "ps ! i")
  case Popping
  then obtain x xs where l: "p_lifo s = xs @ [x]"
    using popping_nonempty [OF assms(2,3)] by (metis append_butlast_last_id)
  show ?thesis
    using assms(1,4) Popping
    by (auto simp: l books_inv_def Let_def tally_update_word [OF assms(3)] algebra_simps)
qed (use assms(1,4) in \<open>auto simp: books_inv_def Let_def tally_update_word [OF assms(3)] count_drop_def
    algebra_simps split: if_splits option.splits prod.splits\<close>)

definition tx_ok :: "worker_config \<Rightarrow> point \<Rightarrow> bool" where
  "tx_ok W p \<longleftrightarrow> (case p of
     Sending use_grpc tx \<Rightarrow> account_lock_count tx \<le> 64 \<and> (\<exists>n \<le> 1232. wc_serialized_size W tx = Some n)
   | _ \<Rightarrow> True)"

definition pool_inv :: "worker_config \<Rightarrow> pool \<times> point list \<Rightarrow> bool" where
  "pool_inv W st \<longleftrightarrow> queue_inv st \<and> books_inv st \<and> (\<forall>p \<in> set (snd st). tx_ok W p)"

lemma tx_ok_advance: "advance W E q s = Some (p, s') \<Longrightarrow> tx_ok W p"
  by (cases q) (auto simp: tx_ok_def Let_def MAX_TX_ACCOUNT_LOCKS_def MAX_TX_SIZE_def not_less
      split: if_splits option.splits prod.splits)

lemma pool_inv_spawn: "pool_inv W (spawn_workers n rate grpc)"
  by (auto simp: pool_inv_def spawn_workers_def queue_inv_def books_inv_def metrics_new_def tx_ok_def)

lemma pool_inv_step: "pool_inv W st \<Longrightarrow> pool_step W st st' \<Longrightarrow> pool_inv W st'"
proof (erule pool_step.cases)
  fix i ps E s p s'
  assume "pool_inv W st" "st = (s, ps)" "st' = (s', ps[i := p])" "i < length ps"
    "advance W E (ps ! i) s = Some (p, s')"
  then show "pool_inv W st'"
    using queue_inv_thread books_inv_thread tx_ok_advance
    by (auto simp: pool_inv_def dest!: set_update_subset_insert [THEN subsetD])
next
  fix s ps now ixs hop_count
  assume "pool_inv W st" "st = (s, ps)" "st' = (s, ps @ [Push_item (new_item now ixs hop_count)])"
  then show "pool_inv W st'"
    by (simp add: pool_inv_def queue_inv_def books_inv_def tx_ok_def Let_def)
qed

lemma pool_inv_reach: "pool_reach W (spawn_workers n rate grpc) st \<Longrightarrow> pool_inv W st"
  by (induction rule: pool_reach.induct) (auto simp: pool_inv_spawn pool_inv_step)

text \<open>
  Property C8. The semaphore counts the queue: in every interleaving of workers, requeues and
  pushes, the queue holds exactly one item for each permit, for each worker that took a permit and
  has not popped, and for each thread that pushed and has not yet added its permit. So a worker that took a
  permit always finds an item (the \<open>None => continue\<close> branch never runs), and when all threads
  wait, every queued item has a permit.
\<close>

theorem queue_matches_semaphore:
  assumes "pool_reach W (spawn_workers n rate grpc) (s, ps)"
  shows "length (p_lifo s) = p_permits s + tally popping ps + tally unposted ps \<and>
    (i < length ps \<longrightarrow> ps ! i = Popping \<longrightarrow> p_lifo s \<noteq> []) \<and>
    (set ps \<subseteq> {Waiting, Push_done} \<longrightarrow> p_permits s = length (p_lifo s))"
proof -
  have q: "queue_inv (s, ps)" using pool_inv_reach [OF assms] by (simp add: pool_inv_def)
  have "set ps \<subseteq> {Waiting, Push_done} \<Longrightarrow> tally popping ps = 0 \<and> tally unposted ps = 0"
    unfolding tally_def by (induction ps) auto
  with q popping_nonempty [OF q, of i] show ?thesis by (auto simp: queue_inv_def)
qed


text \<open>
  Only sendable transactions reach Jito: every transaction a worker is about to send
  locks at most 64 accounts and serializes to at most 1232 bytes.
\<close>

theorem sent_transactions_within_limits:
  assumes "pool_reach W (spawn_workers n rate grpc) (s, ps)" "Sending use_grpc tx \<in> set ps"
  shows "account_lock_count tx \<le> 64 \<and> (\<exists>size \<le> 1232. wc_serialized_size W tx = Some size)"
  using pool_inv_reach [OF assms(1)] assms(2) by (fastforce simp: pool_inv_def tx_ok_def)

section \<open>The submission rates\<close>

text \<open>A grant is an advance from asking a limiter to building for its path.\<close>

fun rest_grant :: "point \<Rightarrow> point \<Rightarrow> bool" where
  "rest_grant (Acquiring _) (Building use_grpc _) = (\<not> use_grpc)" | "rest_grant _ _ = False"

fun grpc_grant :: "point \<Rightarrow> point \<Rightarrow> bool" where
  "grpc_grant (Acquiring_grpc _) (Building use_grpc _) = use_grpc" | "grpc_grant _ _ = False"

text \<open>Runs along a clock that does not go back, with the instants of the grants of either path.\<close>

inductive pool_trace ::
    "worker_config \<Rightarrow> pool \<times> point list \<Rightarrow> pool \<times> point list \<Rightarrow> int list \<Rightarrow> int list \<Rightarrow> int \<Rightarrow> bool"
  for W st0 where
  start: "pool_trace W st0 st0 [] [] t"
| thread: "pool_trace W st0 (s, ps) gs gg t \<Longrightarrow> i < length ps \<Longrightarrow> t \<le> e_now E \<Longrightarrow>
    advance W E (ps ! i) s = Some (p, s') \<Longrightarrow>
    pool_trace W st0 (s', ps[i := p]) (if rest_grant (ps ! i) p then gs @ [e_now E] else gs)
      (if grpc_grant (ps ! i) p then gg @ [e_now E] else gg) (e_now E)"
| pusher: "pool_trace W st0 (s, ps) gs gg t \<Longrightarrow>
    pool_trace W st0 (s, ps @ [Push_item (new_item now ixs hop_count)]) gs gg t"

fun granted :: "point \<Rightarrow> nat" where
  "granted (Building _ _) = 1" | "granted (Built _ _) = 1" | "granted (Sending _ _) = 1"
| "granted _ = 0"

definition rates_inv :: "u32 \<Rightarrow> u32 option \<Rightarrow> pool \<times> point list \<Rightarrow> int list \<Rightarrow> int list \<Rightarrow> int \<Rightarrow> bool" where
  "rates_inv rate grpc = (\<lambda>(s, ps) gs gg t.
     rate_ok rate (p_jito s) gs t \<and>
     (case grpc of None \<Rightarrow> p_grpc s = None \<and> gg = []
      | Some g \<Rightarrow> (\<exists>r. p_grpc s = Some r \<and> rate_ok g r gg t)) \<and>
     (let m = p_metrics s in
        (of_nat (length gs + length gg) :: u64) = of_nat (tally granted ps) + tx_build_failed m
          + dropped_account_locks m + tx_too_large m + jito_sent m + jito_send_failed m))"

lemma rates_inv_spawn: "rates_inv rate grpc (spawn_workers n rate grpc) [] [] t"
  by (cases grpc) (simp_all add: rates_inv_def spawn_workers_def rate_ok_new metrics_new_def)

lemma rates_inv_thread:
  assumes "rates_inv rate grpc (s, ps) gs gg t" "i < length ps" "t \<le> e_now E"
    and "advance W E (ps ! i) s = Some (p, s')"
  shows "rates_inv rate grpc (s', ps[i := p]) (if rest_grant (ps ! i) p then gs @ [e_now E] else gs)
      (if grpc_grant (ps ! i) p then gg @ [e_now E] else gg) (e_now E)"
proof -
  have later: "rates_inv rate grpc (s, ps) gs gg (e_now E)"
    using assms(1,3) rate_ok_later by (auto simp: rates_inv_def split: option.splits)
  note up = tally_update_word [OF assms(2), of granted]
  show ?thesis
  proof (cases "ps ! i")
    case (Acquiring item)
    obtain ok r where r: "try_acquire (e_now E) (p_jito s) = (ok, r)" by force
    have "rate_ok rate (p_jito s) gs t" using assms(1) by (simp add: rates_inv_def)
    from rate_ok_acquire [OF this assms(3) r] later show ?thesis
      using assms(4) Acquiring r
      by (cases ok) (auto simp: rates_inv_def up Let_def algebra_simps split: option.splits)
  next
    case (Acquiring_grpc item)
    show ?thesis
    proof (cases grpc)
      case None
      with later assms(4) Acquiring_grpc show ?thesis
        by (auto simp: rates_inv_def up Let_def)
    next
      case (Some g)
      with assms(1) obtain gl where gl: "p_grpc s = Some gl" "rate_ok g gl gg t"
        by (auto simp: rates_inv_def)
      obtain ok r where r: "try_acquire (e_now E) gl = (ok, r)" by force
      from rate_ok_acquire [OF gl(2) assms(3) r] later show ?thesis
        using assms(4) Acquiring_grpc r gl(1) Some
        by (cases ok) (auto simp: rates_inv_def up Let_def algebra_simps)
    qed
  qed (use later assms(4) in \<open>auto simp: rates_inv_def up Let_def count_drop_def algebra_simps
      split: if_splits option.splits prod.splits\<close>)
qed

lemma rates_inv_trace:
  "pool_trace W (spawn_workers n rate grpc) st gs gg t \<Longrightarrow> rates_inv rate grpc st gs gg t"
proof (induction rule: pool_trace.induct)
  case (start t)
  show ?case by (rule rates_inv_spawn)
next
  case (thread s ps gs gg t i E p s')
  then show ?case by (intro rates_inv_thread)
next
  case (pusher s ps gs gg t now ixs hop_count)
  then show ?case by (simp add: rates_inv_def)
qed

text \<open>
  Neither path exceeds its rate: in every interleaving along a clock that does not go
  back, no one-second window contains more REST grants than the REST limit or more gRPC grants
  than the gRPC limit (none at all without a gRPC limiter), and each attempt beyond the limiters
  used exactly one grant: grants are the attempts in progress plus those that ended in a build
  failure, a limit violation or an answer of Jito. (The latter modulo \<open>2^64\<close>.)
\<close>

theorem submission_rates_bounded:
  assumes "pool_trace W (spawn_workers n rate grpc) (s, ps) gs gg t"
  shows "length (filter (in_window w) gs) \<le> unat rate \<and>
    length (filter (in_window w) gg) \<le> (case grpc of None \<Rightarrow> 0 | Some g \<Rightarrow> unat g) \<and>
    (let m = p_metrics s in (of_nat (length gs + length gg) :: u64) = of_nat (tally granted ps)
       + tx_build_failed m + dropped_account_locks m + tx_too_large m + jito_sent m + jito_send_failed m)"
  using rates_inv_trace [OF assms] by (cases grpc) (auto simp: rates_inv_def rate_ok_def)

section \<open>A run\<close>

definition sample_config :: worker_config where
  "sample_config = \<lparr>wc_max_age_ms = 5000, wc_cu_limits = [170000], wc_has_grpc_client = False,
     wc_serialized_size = (\<lambda>tx. Some 900)\<rparr>"

definition sample_tx :: versioned_transaction where
  "sample_tx = \<lparr>vt_message = Legacy [], vt_signatures = []\<rparr>"

definition sample_env :: step_env where
  "sample_env = \<lparr>e_now = 10, e_build = (\<lambda>ixs cu. Some sample_tx), e_send_ok = True\<rparr>"

definition sample_item :: ready_instruction where
  "sample_item = new_item 5 sample_swap 2"

text \<open>Letting thread \<open>i\<close> advance in the sample environment.\<close>

definition run_thread :: "nat \<Rightarrow> pool \<times> point list \<Rightarrow> pool \<times> point list" where
  "run_thread i = (\<lambda>(s, ps). case advance sample_config sample_env (ps ! i) s of
     Some (p, s') \<Rightarrow> (s', ps[i := p]) | None \<Rightarrow> (s, ps))"

definition sample_schedule :: "nat list" where
  "sample_schedule = [1, 1, 1, 1, 0, 0, 0, 0, 0, 0, 0]"

definition sample_end :: "pool \<times> point list" where
  "sample_end = fold run_thread sample_schedule
     (let (s, ps) = spawn_workers 1 5 None in (s, ps @ [Push_item sample_item]))"

lemma trace_run_thread:
  assumes "pool_trace sample_config st0 st gs gg t" "i < length (snd st)" "t \<le> 10"
  shows "\<exists>gs gg t. t \<le> 10 \<and> pool_trace sample_config st0 (run_thread i st) gs gg t"
proof (cases st)
  case (Pair s ps)
  show ?thesis
  proof (cases "advance sample_config sample_env (ps ! i) s")
    case None
    with assms Pair show ?thesis by (auto simp: run_thread_def)
  next
    case (Some r)
    obtain p s' where r: "r = (p, s')" by force
    have "e_now sample_env = 10" by (simp add: sample_env_def)
    with pool_trace.thread [of sample_config st0 s ps gs gg t i sample_env p s'] assms Pair Some r
    show ?thesis by (auto simp: run_thread_def)
  qed
qed

lemma length_run_thread: "length (snd (run_thread i st)) = length (snd st)"
  by (auto simp: run_thread_def split: prod.split option.split)

lemma trace_run_threads:
  "pool_trace sample_config st0 st gs gg t \<Longrightarrow> \<forall>i \<in> set is. i < length (snd st) \<Longrightarrow> t \<le> 10 \<Longrightarrow>
   \<exists>gs gg t. pool_trace sample_config st0 (fold run_thread is st) gs gg t"
proof (induction "is" arbitrary: st gs gg t)
  case (Cons i "is")
  with trace_run_thread [OF Cons.prems(1), of i] length_run_thread [of i st] show ?case by fastforce
qed auto

lemma sample_trace: "\<exists>gs gg t. pool_trace sample_config (spawn_workers 1 5 None) sample_end gs gg t"
proof -
  obtain s ps where sp: "spawn_workers 1 5 None = (s, ps)" by force
  then have l: "length ps = 1" by (auto simp: spawn_workers_def)
  have "pool_trace sample_config (spawn_workers 1 5 None) (s, ps @ [Push_item sample_item]) [] [] 10"
    unfolding sample_item_def sp by (intro pool_trace.pusher pool_trace.start)
  moreover have "\<forall>i \<in> set sample_schedule. i < length (snd (s, ps @ [Push_item sample_item]))"
    by (simp add: sample_schedule_def l)
  ultimately have "\<exists>gs gg t. pool_trace sample_config (spawn_workers 1 5 None)
      (fold run_thread sample_schedule (s, ps @ [Push_item sample_item])) gs gg t"
    by (rule trace_run_threads) simp
  then show ?thesis unfolding sample_end_def Let_def sp prod.case .
qed

lemma trace_reach: "pool_trace W st0 st gs gg t \<Longrightarrow> pool_reach W st0 st"
  by (induction rule: pool_trace.induct) (auto intro: pool_reach.intros pool_step.intros)

lemma sample_reach: "pool_reach sample_config (spawn_workers 1 5 None) sample_end"
  using sample_trace trace_reach by blast

lemma sample_end_sending: "Sending False sample_tx \<in> set (snd sample_end)"
  by code_simp

theorem queue_matches_semaphore_witness:
  "p_permits (fst sample_end) = 0 \<and> length (p_lifo (fst sample_end)) = tally popping (snd sample_end) + tally unposted (snd sample_end)"
proof -
  have p: "p_permits (fst sample_end) = 0" by code_simp
  from queue_matches_semaphore [of sample_config 1 5 None "fst sample_end" "snd sample_end" 0] sample_reach p
  show ?thesis by simp
qed


theorem sent_transactions_within_limits_witness:
  "account_lock_count sample_tx \<le> 64 \<and> (\<exists>size \<le> 1232. wc_serialized_size sample_config sample_tx = Some size)"
  using sent_transactions_within_limits [of sample_config 1 5 None "fst sample_end" "snd sample_end" False sample_tx]
    sample_reach sample_end_sending by simp

theorem submission_rates_bounded_witness:
  "\<exists>gs gg t. pool_trace sample_config (spawn_workers 1 5 None) sample_end gs gg t \<and>
     length (filter (in_window 10) gs) \<le> 5 \<and> length (filter (in_window 10) gg) \<le> 0"
proof -
  obtain gs gg t where tr: "pool_trace sample_config (spawn_workers 1 5 None) sample_end gs gg t"
    using sample_trace by blast
  with submission_rates_bounded [of sample_config 1 5 None "fst sample_end" "snd sample_end" gs gg t 10]
  show ?thesis by (intro exI [of _ gs] exI [of _ gg] exI [of _ t]) (simp add: Let_def)
qed

end
