(* ===== verification/Startup.thy ===== *)
theory Startup
  imports Dex_Accounts Blockhash_Cache Token_File Sim_Properties Jito_Grpc Worker_Properties
    Token_Metrics Metis_Client
begin

text \<open>
  \<open>src/main.rs\<close>, \<open>src/wallet.rs\<close> and \<open>CalcCtx\<close> of \<open>src/arbitrage.rs\<close>: how the bot is put together from its
  configuration. What the outside world answers during startup is the record \<open>boot_env\<close>: files, the
  node, the gRPC endpoints, the associated-token-address derivation, the simulator. Logging and the
  printed summary but its capacity figure are left out.
\<close>

record ('v, 't) boot_env =
  be_read_file :: "string \<Rightarrow> string option"
  be_json_bytes :: "string \<Rightarrow> bytes option"
  be_keypair_of_bytes :: "bytes \<Rightarrow> keypair option"
  be_pubkey_of_str :: "string \<Rightarrow> pubkey option"
  be_wsol_mint :: pubkey
  be_ata :: "pubkey \<Rightarrow> pubkey \<Rightarrow> pubkey"
  be_tip_pubkeys :: "pubkey list"
  be_serde :: serde
  be_hops_dir :: "(string \<times> string option) list option"
  be_routes_file :: "string option"
  be_blockhash :: "blockhash option"
  be_slot :: "u64 option"
  be_account :: "pubkey \<Rightarrow> chain_account option"
  be_dial :: "string \<Rightarrow> auth_service option"
  be_dex_dir :: "string \<Rightarrow> dex_dir"
  be_svm_ops :: "('v, 't) svm_ops"
  be_svm_blank :: 'v
  be_file_exists :: "string \<Rightarrow> bool"

definition read_keypair :: "('v, 't) boot_env \<Rightarrow> string \<Rightarrow> keypair option" where
  "read_keypair E path =
     Option.bind (be_read_file E path) (\<lambda>data. Option.bind (be_json_bytes E data) (be_keypair_of_bytes E))"

section \<open>The runtime\<close>

definition worker_threads :: "'f config \<Rightarrow> nat" where
  "worker_threads c = max (pf_threads (cf_performance c)) 1"

text \<open>The core the \<open>idx\<close>-th runtime thread is pinned to, if any.\<close>

definition pin_core :: "nat list \<Rightarrow> nat list \<Rightarrow> nat \<Rightarrow> nat option" where
  "pin_core cores available idx =
     (if cores = [] then None
      else (let target = cores ! (idx mod length cores) in find (\<lambda>c. c = target) available))"

section \<open>The parts\<close>

definition store_start :: "('v, 't) boot_env \<Rightarrow> template_cache_config \<Rightarrow> store" where
  "store_start E tc =
     (if tc_save_new tc \<or> tc_serve_route tc
      then snd (load_routes_from_disk (be_serde E) (be_routes_file E)
             (snd (load_from_disk (be_serde E) (be_hops_dir E) store_new)))
      else store_new)"

text \<open>
  \<open>spawn_flush_task\<close>: the first tick only starts the clock, every later one flushes. A tick brings the
  store at that moment and how the writes end; \<open>secs\<close> is the period.
\<close>

definition flush_period :: "u64 \<Rightarrow> u64" where
  "flush_period secs = max secs 1"

definition flush_task ::
    "serde \<Rightarrow> (save_outcome \<times> (string \<Rightarrow> save_outcome) \<times> store) list \<Rightarrow> files \<Rightarrow> files" where
  "flush_task J ticks fs = foldl (\<lambda>fs (r, rs, g). flush_to_disk J r rs g fs) fs (drop 1 ticks)"

definition grpc_start ::
    "('v, 't) boot_env \<Rightarrow> jito_grpc_config \<Rightarrow> jito_grpc_client option \<times> rate_limiter option" where
  "grpc_start E g =
     (if jg_enabled g
      then (case grpc_new (read_keypair E) (be_dial E) (jg_endpoints g) (jg_auth_keypair g) of
              Inr client \<Rightarrow> (Some client, Some (rl_new (jg_max_bundles_per_second g)))
            | Inl e \<Rightarrow> (None, None))
      else (None, None))"

definition live_accounts :: "pubkey \<Rightarrow> dex_pools \<Rightarrow> pubkey list" where
  "live_accounts wsol_ata d = wsol_ata # dx_subscribe_accounts d"

definition warm_accounts ::
    "('v, 't) boot_env \<Rightarrow> string list \<Rightarrow> pubkey \<Rightarrow> pubkey \<Rightarrow> dex_pools \<Rightarrow> pubkey list" where
  "warm_accounts E token_mints user wsol_ata d =
     (let mints = List.map_filter (be_pubkey_of_str E) token_mints
      in mints @ [be_wsol_mint E, wsol_ata, user] @ map (be_ata E user) mints @ dx_all_accounts d)"

record 'v sim_parts =
  sm_cache :: account_cache
  sm_live :: "pubkey list"
  sm_pool :: "'v simulator_pool"

definition sim_start ::
    "('v, 't) boot_env \<Rightarrow> (string \<Rightarrow> 'f toml option) \<Rightarrow> simulation_config \<Rightarrow> string list \<Rightarrow> pubkey \<Rightarrow> pubkey \<Rightarrow>
     string + 'v sim_parts option" where
  "sim_start E toml sc token_mints user wsol_ata =
     (if \<not> sc_enabled sc then Inr None
      else
        (let cache = (case be_slot E of Some s \<Rightarrow> seed_slot s cache_new | None \<Rightarrow> cache_new);
             d = dex_load toml (be_pubkey_of_str E) (be_dex_dir E (sc_dex_dir sc));
             cache' = prefetch (be_account E) (warm_accounts E token_mints user wsol_ata d) cache
         in case pool_new (sc_workers sc)
               (simulator_new (be_svm_ops E) (be_pubkey_of_str E) (be_file_exists E) (be_svm_blank E)
                  (sc_so_dir sc) wsol_ata (sc_fail_closed sc) (cc_stream_slot cache')) of
              Inl e \<Rightarrow> Inl e
            | Inr pool \<Rightarrow>
                Inr (Some \<lparr>sm_cache = cache', sm_live = live_accounts wsol_ata d, sm_pool = pool\<rparr>)))"

section \<open>The whole\<close>

record 'v calc_ctx =
  cx_metis :: metis_client
  cx_blockhash_cache :: blockhash_cache
  cx_trading_keypair :: keypair
  cx_alt_cache :: alt_cache
  cx_jito :: jito_client
  cx_jito_grpc :: "jito_grpc_client option"
  cx_jito_limiter :: rate_limiter
  cx_jito_grpc_limiter :: "rate_limiter option"
  cx_cu_limits :: "u32 list"
  cx_user_pubkey :: string
  cx_sim :: "'v sim_parts option"
  cx_template_store :: store

datatype start_error = Bad_tokens token_file_error | Bad_keypair | Bad_simulator string

text \<open>
  The figure printed as \<open>jito_capacity_per_sec\<close>, the number of workers, and the pool they start as,
  over the limiters of the context.
\<close>

definition jito_capacity :: "'f config \<Rightarrow> rate_limiter option \<Rightarrow> nat" where
  "jito_capacity c grpc_limiter =
     unat (ji_max_bundles_per_second (cf_jito c))
     + (case grpc_limiter of Some _ \<Rightarrow> unat (jg_max_bundles_per_second (cf_jito_grpc c)) | None \<Rightarrow> 0)"

definition worker_count :: "'f config \<Rightarrow> nat" where
  "worker_count c = max (pf_calc_workers (cf_performance c)) 1"

definition start_pipeline :: "'f config \<Rightarrow> 'v calc_ctx \<Rightarrow> pool \<times> point list" where
  "start_pipeline c x =
     (case spawn_workers (worker_count c) (max_per_second (cx_jito_limiter x))
         (map_option max_per_second (cx_jito_grpc_limiter x)) of
        (s, ps) \<Rightarrow> (s\<lparr>p_jito := cx_jito_limiter x, p_grpc := cx_jito_grpc_limiter x\<rparr>, ps))"

text \<open>What the workers read of the context and the configuration.\<close>

definition worker_config_of ::
    "'f config \<Rightarrow> 'v calc_ctx \<Rightarrow> (versioned_transaction \<Rightarrow> nat option) \<Rightarrow> worker_config" where
  "worker_config_of c x serialized =
     \<lparr>wc_max_age_ms = pf_queue_max_age_ms (cf_performance c), wc_cu_limits = cx_cu_limits x,
      wc_has_grpc_client = (cx_jito_grpc x \<noteq> None), wc_serialized_size = serialized\<rparr>"

definition async_main ::
    "('v, 't) boot_env \<Rightarrow> (string \<Rightarrow> 'f toml option) \<Rightarrow> 'f config \<Rightarrow>
     start_error + string list \<times> token_metrics \<times> 'v calc_ctx" where
  "async_main E toml c =
     (case load_tokens (be_read_file E (tr_tokens_file (cf_trading c))) of
        Inl e \<Rightarrow> Inl (Bad_tokens e)
      | Inr token_mints \<Rightarrow>
          (case read_keypair E (ji_trading_keypair (cf_jito c)) of
             None \<Rightarrow> Inl Bad_keypair
           | Some kp \<Rightarrow>
               (let user = kp_pubkey kp;
                    wsol_ata = be_ata E user (be_wsol_mint E);
                    (client, grpc_limiter) = grpc_start E (cf_jito_grpc c)
                in case sim_start E toml (cf_simulation c) token_mints user wsol_ata of
                     Inl e \<Rightarrow> Inl (Bad_simulator e)
                   | Inr sim \<Rightarrow>
                       Inr (token_mints, token_metrics_new token_mints,
                         \<lparr>cx_metis = metis_new (mcf_url (cf_metis c)),
                          cx_blockhash_cache = blockhash_new (be_blockhash E),
                          cx_trading_keypair = kp, cx_alt_cache = alt_cache_new (be_tip_pubkeys E),
                          cx_jito = jito_new (ji_urls (cf_jito c)) (ji_uuid (cf_jito c)),
                          cx_jito_grpc = client,
                          cx_jito_limiter = rl_new (ji_max_bundles_per_second (cf_jito c)),
                          cx_jito_grpc_limiter = grpc_limiter,
                          cx_cu_limits = pf_cu_limits (cf_performance c),
                          cx_user_pubkey = kp_base58 kp, cx_sim = sim,
                          cx_template_store = store_start E (cf_template_cache c)\<rparr>))))"

section \<open>The warm cache\<close>

lemma get_or_fetch_get:
  "cache_get (snd (get_or_fetch rpc k c)) k' =
     (if k' = k \<and> cache_get c k = None then rpc k else cache_get c k')"
  by (auto simp: get_or_fetch_def cache_get_insert split: option.split)

lemma prefetch_get:
  "cache_get (prefetch rpc ks c) k = (if k \<in> set ks \<and> cache_get c k = None then rpc k else cache_get c k)"
proof (induction ks arbitrary: c)
  case (Cons k' ks)
  have "cache_get (prefetch rpc (k' # ks) c) k = cache_get (prefetch rpc ks (snd (get_or_fetch rpc k' c))) k"
    by (simp add: prefetch_def)
  then show ?case
    unfolding Cons.IH get_or_fetch_get by (cases "cache_get c k"; cases "rpc k") auto
qed (simp add: prefetch_def)

lemma cache_get_fresh [simp]: "cache_get cache_new k = None" "cache_get (seed_slot s c) k = cache_get c k"
  by (simp_all add: cache_new_def cache_get_def seed_slot_def)

lemma set_map_filter: "set (List.map_filter f xs) = {y. \<exists>x \<in> set xs. f x = Some y}"
  by (induction xs) (auto split: option.split)


section \<open>The submission paths\<close>

lemma grpc_start_both:
  "grpc_start E g = (client, limiter) \<Longrightarrow>
     (client = None \<longleftrightarrow> limiter = None) \<and> (\<forall>l. limiter = Some l \<longrightarrow> l = rl_new (jg_max_bundles_per_second g))"
  by (auto simp: grpc_start_def split: if_splits sum.splits)

lemma async_main_paths:
  assumes "async_main E toml c = Inr (mints, tm, x)"
  shows "cx_jito_limiter x = rl_new (ji_max_bundles_per_second (cf_jito c))"
    and "(cx_jito_grpc x, cx_jito_grpc_limiter x) = grpc_start E (cf_jito_grpc c)"
  using assms by (auto simp: async_main_def Let_def split: sum.splits option.splits prod.splits)

lemma rl_new_rate [simp]: "rl_new (max_per_second (rl_new r)) = rl_new r" "max_per_second (rl_new r) = r"
  by (simp_all add: rl_new_def)

lemma start_pipeline_spawn:
  assumes "async_main E toml c = Inr (mints, tm, x)"
  shows "start_pipeline c x = spawn_workers (worker_count c) (ji_max_bundles_per_second (cf_jito c))
           (map_option max_per_second (cx_jito_grpc_limiter x))"
proof -
  have "map_option (\<lambda>l. rl_new (max_per_second l)) (cx_jito_grpc_limiter x) = cx_jito_grpc_limiter x"
    using grpc_start_both [OF async_main_paths(2) [OF assms, symmetric]]
    by (cases "cx_jito_grpc_limiter x") auto
  then show ?thesis
    by (simp add: start_pipeline_def async_main_paths(1) [OF assms] spawn_workers_def option.map_comp comp_def)
qed

text \<open>
  Property C9. The printed capacity is a true bound: whatever the interleaving of the started workers,
  no one-second window holds more grants of the two limiters together than \<open>jito_capacity_per_sec\<close>,
  and without a gRPC client no grant is made for gRPC at all.
\<close>

theorem capacity_never_exceeded:
  assumes "async_main E toml c = Inr (mints, tm, x)"
    and "pool_trace (worker_config_of c x serialized) (start_pipeline c x) st gs gg t"
  shows "length (filter (in_window w) gs) + length (filter (in_window w) gg) \<le>
      jito_capacity c (cx_jito_grpc_limiter x) \<and> (cx_jito_grpc x = None \<longrightarrow> gg = [])"
proof -
  let ?rate = "ji_max_bundles_per_second (cf_jito c)"
  let ?grpc = "map_option max_per_second (cx_jito_grpc_limiter x)"
  note both = grpc_start_both [OF async_main_paths(2) [OF assms(1), symmetric]]
  obtain s ps where st: "st = (s, ps)" by force
  have inv: "rates_inv ?rate ?grpc (s, ps) gs gg t"
    using rates_inv_trace assms(2) unfolding start_pipeline_spawn [OF assms(1)] st by blast
  then have "length (filter (in_window w) gs) \<le> unat ?rate"
    by (auto simp: rates_inv_def rate_ok_def)
  moreover have "length (filter (in_window w) gg) \<le>
      (case cx_jito_grpc_limiter x of Some _ \<Rightarrow> unat (jg_max_bundles_per_second (cf_jito_grpc c)) | None \<Rightarrow> 0)"
    using inv both by (cases "cx_jito_grpc_limiter x") (auto simp: rates_inv_def rate_ok_def)
  moreover have "cx_jito_grpc x = None \<longrightarrow> gg = []"
    using inv both by (auto simp: rates_inv_def)
  ultimately show ?thesis by (simp add: jito_capacity_def)
qed

section \<open>A startup\<close>

definition boot_wallet :: keypair where
  "boot_wallet = \<lparr>kp_pubkey = replicate 32 1, kp_base58 = ''4vJ9'', kp_sign = (\<lambda>m. m)\<rparr>"

definition boot_mint :: pubkey where
  "boot_mint = replicate 32 2"

definition boot_service :: auth_service where
  "boot_service = \<lparr>as_challenge = (\<lambda>_. Inl ''unauthenticated''), as_tokens = (\<lambda>_ _ _. Inl ''unauthenticated''),
     as_refresh = (\<lambda>_. Inl ''unauthenticated'')\<rparr>"

definition sample_boot :: "(pubkey \<Rightarrow> chain_account option, versioned_transaction) boot_env" where
  "sample_boot =
     \<lparr>be_read_file = (\<lambda>_. Some ''EPj''), be_json_bytes = (\<lambda>_. Some []),
      be_keypair_of_bytes = (\<lambda>_. Some boot_wallet), be_pubkey_of_str = (\<lambda>_. Some boot_mint),
      be_wsol_mint = replicate 32 3, be_ata = (\<lambda>user mint. take 16 user @ take 16 mint),
      be_tip_pubkeys = [], be_serde = \<lparr>enc_routes = (\<lambda>_. None), dec_routes = (\<lambda>_. None),
        enc_hops = (\<lambda>_. None), dec_hops = (\<lambda>_. None)\<rparr>,
      be_hops_dir = None, be_routes_file = None, be_blockhash = None, be_slot = Some 7,
      be_account = (\<lambda>k. if k = boot_mint then Some sim_sample_account else None),
      be_dial = (\<lambda>_. Some boot_service), be_dex_dir = (\<lambda>_. Absent), be_svm_ops = map_svm_ops,
      be_svm_blank = (\<lambda>_. None), be_file_exists = (\<lambda>_. False)\<rparr>"

definition boot_section :: simulation_config where
  "boot_section = simulation_default\<lparr>sc_enabled := True\<rparr>"

definition sample_bot_config :: "unit config" where
  "sample_bot_config =
     \<lparr>cf_metis = \<lparr>mcf_url = ''u'', mcf_binary_key = []\<rparr>,
      cf_trading = \<lparr>tr_min_amount_sol = (), tr_max_amount_sol = (), tr_step_sol = (),
        tr_min_profit_lamports = 0, tr_base_fee_lamports = 5000, tr_tokens_file = ''tokens.txt''\<rparr>,
      cf_jito = \<lparr>ji_urls = [''r''], ji_uuid = [], ji_trading_keypair = ''k'', ji_tip_min_lamports = 0,
        ji_tip_max_lamports = 0, ji_tip_profit_percent = (), ji_max_bundles_per_second = 5\<rparr>,
      cf_rpc = \<lparr>rpc_url = ''n''\<rparr>, cf_yellowstone_grpc = \<lparr>yc_endpoint = ''y'', yc_x_token = []\<rparr>,
      cf_performance = \<lparr>pf_threads = 4, pf_quote_timeout_ms = 500, pf_cu_limits = [170000],
        pf_max_concurrent_quotes = 512, pf_calc_workers = 6, pf_queue_max_age_ms = 5000, pf_bot_cpu_cores = []\<rparr>,
      cf_simulation = simulation_default, cf_jito_grpc = jito_grpc_default\<lparr>jg_enabled := True\<rparr>,
      cf_template_cache = template_cache_default\<rparr>"

lemma no_binaries: "load_programs V parse (\<lambda>_. False) dir ps (svm, l, m) = Inr (svm, l, m + length (filter (\<lambda>p. snd p \<noteq> []) ps))"
  by (induction ps arbitrary: m) (auto simp: load_program_def Let_def split: prod.split)

lemma boot_sim_start: "\<exists>p. sim_start sample_boot (\<lambda>_. None :: unit toml option) boot_section [''EPj''] [] [] = Inr (Some p)"
  by (simp add: sim_start_def boot_section_def simulator_new_def sample_boot_def no_binaries pool_new_def Let_def)


lemma boot_start: "\<exists>mints tm x. async_main sample_boot (\<lambda>_. None) sample_bot_config = Inr (mints, tm, x)"
proof -
  have "load_tokens (Some ''EPj'') = Inr [''EPj'']" by code_simp
  then show ?thesis
    by (simp add: async_main_def sample_boot_def sample_bot_config_def read_keypair_def sim_start_def
        simulation_default_def Let_def split: prod.split)
qed

theorem capacity_never_exceeded_witness:
  "\<exists>mints tm x. async_main sample_boot (\<lambda>_. None) sample_bot_config = Inr (mints, tm, x) \<and>
     pool_trace (worker_config_of sample_bot_config x (\<lambda>_. None)) (start_pipeline sample_bot_config x)
       (start_pipeline sample_bot_config x) [] [] 0 \<and>
     jito_capacity sample_bot_config (cx_jito_grpc_limiter x) = 10"
proof -
  obtain mints tm x where x: "async_main sample_boot (\<lambda>_. None) sample_bot_config = Inr (mints, tm, x)"
    using boot_start by blast
  have "pool_trace (worker_config_of sample_bot_config x (\<lambda>_. None)) (start_pipeline sample_bot_config x)
      (start_pipeline sample_bot_config x) [] [] 0" by (rule pool_trace.start)
  moreover have "snd (grpc_start sample_boot (cf_jito_grpc sample_bot_config)) \<noteq> None"
    by (simp add: grpc_start_def grpc_new_def sample_boot_def sample_bot_config_def jito_grpc_default_def
        default_jito_grpc_endpoints_def read_keypair_def connect_region_def authenticate_def boot_service_def Let_def)
  then have "jito_capacity sample_bot_config (cx_jito_grpc_limiter x) = 10"
    using async_main_paths(2) [OF x, symmetric]
    by (auto simp: jito_capacity_def sample_bot_config_def jito_grpc_default_def default_grpc_rate_def)
  ultimately show ?thesis using capacity_never_exceeded [OF x, of "\<lambda>_. None"] x by blast
qed

end
