(* ===== verification/Submission.thy ===== *)
theory Submission
  imports Jito_Grpc
begin

text \<open>
  What the two submission paths promise: when a bundle counts as sent, which regions a client has,
  the authentication protocol, and the token refresh task over time.
\<close>

section \<open>Sending\<close>

text \<open>
  Property C19. A bundle is submitted over REST exactly when the transaction serializes and some
  configured endpoint replies 2xx with a result and no error object, whatever order the replies
  arrive in; when it is not, the error is that of the endpoint that answered last.
\<close>

theorem rest_submitted_iff:
  assumes "permutes order (bundle_urls J)"
  shows "((\<exists>i. jito_send_bundle B post order J bytes = Inr i) \<longleftrightarrow>
      (\<exists>b url resp rpc i. bytes = Some b \<and> url \<in> set (bundle_urls J) \<and>
         post url (send_bundle_request (b64_encode B b)) = Inr resp \<and> rsp_is_success resp \<and>
         rsp_json resp = Some rpc \<and> rr_error rpc = None \<and> rr_result rpc = Some i)) \<and>
    (\<forall>b e. bytes = Some b \<and> jito_send_bundle B post order J bytes = Inl (Endpoint e) \<longrightarrow>
       e = projl (send_to_endpoint post (last (order (bundle_urls J))) (b64_encode B b)))"
proof
  show "(\<exists>i. jito_send_bundle B post order J bytes = Inr i) \<longleftrightarrow>
      (\<exists>b url resp rpc i. bytes = Some b \<and> url \<in> set (bundle_urls J) \<and>
         post url (send_bundle_request (b64_encode B b)) = Inr resp \<and> rsp_is_success resp \<and>
         rsp_json resp = Some rpc \<and> rr_error rpc = None \<and> rr_result rpc = Some i)"
    unfolding rest.sent_iff_accepted [OF assms] rest.accepted_by_def
    by (cases bytes) (simp_all add: rest_attempt_def send_to_endpoint_Inr, blast)
  show "\<forall>b e. bytes = Some b \<and> jito_send_bundle B post order J bytes = Inl (Endpoint e) \<longrightarrow>
       e = projl (send_to_endpoint post (last (order (bundle_urls J))) (b64_encode B b))"
    by (auto simp: jito_send_bundle_def Let_def dest!: race_error split: sum.splits option.splits if_splits)
qed

definition sample_rest :: jito_client where
  "sample_rest = jito_new [''http://a/'', ''http://b''] ''u''"

definition sample_post :: post where
  "sample_post url body =
     (if url = ''http://b/api/v1/bundles?uuid=u''
      then Inr \<lparr>rsp_status = 200, rsp_is_success = True, rsp_text = [],
                rsp_json = Some \<lparr>rr_result = Some ''id'', rr_error = None\<rparr>\<rparr>
      else Inl Send_timeout)"

theorem rest_submitted_iff_witness:
  "\<exists>i. jito_send_bundle (\<lparr>b64_decode = (\<lambda>_. None), b64_encode = (\<lambda>_. ''AQ=='')\<rparr>) sample_post rev
     sample_rest (Some [1]) = Inr i"
proof -
  have urls: "bundle_urls sample_rest =
      [''http://a/api/v1/bundles?uuid=u'', ''http://b/api/v1/bundles?uuid=u'']" by code_simp
  have "permutes rev (bundle_urls sample_rest)" by (simp add: permutes_def)
  from rest_submitted_iff [OF this, THEN conjunct1] show ?thesis
    by (auto simp: urls sample_post_def)
qed

text \<open>
  Property C20. The gRPC path submits a bundle exactly when some region accepts it; a region that
  authenticated is asked with the bearer token it holds, one that did not is asked without, and a
  token that is no legal header value makes only that region fail.
\<close>

theorem grpc_submitted_iff:
  assumes "permutes order (gc_regions c)"
  shows "(\<exists>i. grpc_send_bundle E order c bytes = Inr i) \<longleftrightarrow>
    (\<exists>b rg u. bytes = Some b \<and> rg \<in> set (gc_regions c) \<and>
       (case rg_tokens rg of
          None \<Rightarrow> ge_call E (rg_endpoint rg) None b = Uuid u
        | Some t \<Rightarrow> ge_valid_metadata E (''Bearer '' @ tk_access t) \<and>
            ge_call E (rg_endpoint rg) (Some (''Bearer '' @ tk_access t)) b = Uuid u))"
proof -
  have "send_to_region E rg b = Inr u \<longleftrightarrow>
     (case rg_tokens rg of
        None \<Rightarrow> ge_call E (rg_endpoint rg) None b = Uuid u
      | Some t \<Rightarrow> ge_valid_metadata E (''Bearer '' @ tk_access t) \<and>
          ge_call E (rg_endpoint rg) (Some (''Bearer '' @ tk_access t)) b = Uuid u)" for rg b u
    by (auto simp: send_to_region_def auth_header_def Let_def split: option.splits rpc_outcome.splits)
  then show ?thesis
    unfolding grpc.sent_iff_accepted [OF assms] grpc.accepted_by_def
    by (cases bytes) (auto simp: grpc_attempt_def)
qed

definition sample_grpc :: jito_grpc_client where
  "sample_grpc = \<lparr>gc_regions = [\<lparr>rg_endpoint = ''r1'', rg_tokens = Some \<lparr>tk_access = ''tok'',
     tk_access_expires_at = 900, tk_refresh = ''ref'', tk_refresh_expires_at = 9000\<rparr>\<rparr>]\<rparr>"

theorem grpc_submitted_iff_witness:
  "\<exists>i. grpc_send_bundle \<lparr>ge_valid_metadata = (\<lambda>_. True),
     ge_call = (\<lambda>e h b. if h = Some ''Bearer tok'' then Uuid ''u1'' else Timed_out)\<rparr> rev sample_grpc (Some [1]) = Inr i"
proof -
  have "permutes rev (gc_regions sample_grpc)" by (simp add: permutes_def)
  from grpc_submitted_iff [OF this] show ?thesis by (simp add: sample_grpc_def)
qed

section \<open>Regions\<close>

definition reachable_region :: "(string \<Rightarrow> auth_service option) \<Rightarrow> keypair \<Rightarrow> string \<Rightarrow> region option" where
  "reachable_region dial kp e =
     map_option (\<lambda>S. \<lparr>rg_endpoint = e, rg_tokens = (case fst (authenticate S kp) of Inr t \<Rightarrow> Some t | Inl _ \<Rightarrow> None)\<rparr>)
       (dial e)"

lemma connect_all_regions:
  "fst (connect_all dial kp es (regions, a, n)) = regions @ List.map_filter (reachable_region dial kp) es"
  by (induction es arbitrary: regions a n)
    (auto simp: connect_region_def reachable_region_def List.map_filter_simps split: option.splits sum.splits)

lemma map_filter_Nil: "List.map_filter f xs = [] \<longleftrightarrow> (\<forall>x \<in> set xs. f x = None)"
  by (induction xs) (auto simp: List.map_filter_simps split: option.splits)

text \<open>
  Connecting degrades region by region: the client has exactly the endpoints that
  could be dialled, in their configured order, each with the tokens of its own handshake or without
  any; creating it fails only when the key pair cannot be read or no endpoint could be dialled.
\<close>

theorem grpc_new_regions:
  "(case grpc_new read_keypair dial endpoints path of
      Inr c \<Rightarrow> \<exists>kp. read_keypair path = Some kp \<and>
        gc_regions c = List.map_filter (reachable_region dial kp) endpoints \<and> gc_regions c \<noteq> []
    | Inl Keypair_unreadable \<Rightarrow> read_keypair path = None
    | Inl No_regions \<Rightarrow> list_all (\<lambda>e. dial e = None) endpoints)"
proof (cases "read_keypair path")
  case (Some kp)
  have "fst (connect_all dial kp endpoints ([], 0, 0)) = List.map_filter (reachable_region dial kp) endpoints"
    by (simp add: connect_all_regions)
  moreover have "list_all (\<lambda>e. dial e = None) endpoints"
    if "List.map_filter (reachable_region dial kp) endpoints = []"
    using that by (auto simp: map_filter_Nil list_all_iff reachable_region_def)
  ultimately show ?thesis
    using Some by (cases "connect_all dial kp endpoints ([], 0, 0)") (auto simp: grpc_new_def)
qed (simp add: grpc_new_def)

section \<open>Authentication\<close>

text \<open>
  Property C21. The handshake: it yields tokens exactly when the challenge was answered, the
  exchange accepted the prefixed challenge together with its signature, and both tokens came back;
  it makes the challenge call, then, when that was answered, the exchange with the signature of
  that same prefixed challenge, and no other call.
\<close>

theorem authenticate_iff:
  "(fst (authenticate S kp) = Inr t \<longleftrightarrow>
      (\<exists>raw reply a r.
         as_challenge S (kp_pubkey kp) = Inr raw \<and>
         as_tokens S (kp_base58 kp @ ''-'' @ raw) (kp_pubkey kp)
           (kp_sign kp (text_bytes (kp_base58 kp @ ''-'' @ raw))) = Inr reply \<and>
         ar_access reply = Some a \<and> ar_refresh reply = Some r \<and>
         t = \<lparr>tk_access = tm_value a, tk_access_expires_at = timestamp_secs (tm_expires_at_utc a),
              tk_refresh = tm_value r, tk_refresh_expires_at = timestamp_secs (tm_expires_at_utc r)\<rparr>)) \<and>
   snd (authenticate S kp) = Generate_challenge (kp_pubkey kp) #
     (case as_challenge S (kp_pubkey kp) of
        Inl _ \<Rightarrow> []
      | Inr raw \<Rightarrow> [Generate_tokens (kp_base58 kp @ ''-'' @ raw) (kp_pubkey kp)
          (kp_sign kp (text_bytes (kp_base58 kp @ ''-'' @ raw)))])"
  by (auto simp: authenticate_def Let_def split: sum.splits option.splits)

end
