(* ===== verification/Token_Refresh.thy ===== *)
theory Token_Refresh
  imports Submission
begin

text \<open>
  The token refresh task over time. \<open>token_run\<close> is every run of the task from the tokens of the
  handshake: it sleeps at least as long as it asked to, works for some time, and the service may
  answer anything. \<open>healthy_run\<close> adds what a working deployment gives: the timer and the calls take
  less than a minute together, and granted access tokens live at least 70 more seconds.
\<close>

text \<open>The last component counts the calls to the auth service.\<close>

inductive token_run :: "keypair \<Rightarrow> u64 \<times> tokens option \<Rightarrow> u64 \<times> tokens option \<Rightarrow> nat \<Rightarrow> bool"
  for kp st0 where
  spawned: "token_run kp st0 st0 0"
| round: "token_run kp st0 (now, tks) n \<Longrightarrow>
    unat now + unat (refresh_sleep tks now) \<le> unat wake \<Longrightarrow>
    refresh_round S kp wake tks = (tks', pause, calls) \<Longrightarrow>
    unat wake + unat pause \<le> unat after \<Longrightarrow>
    token_run kp st0 (after, tks') (n + length calls)"

inductive_cases token_runE: "token_run kp st0 st n"

lemma refresh_sleep_Some:
  "unat (refresh_sleep (Some t) now) = min (max (unat (tk_access_expires_at t) - unat now - 60) 10) 300"
proof -
  have mn: "unat (min a b) = min (unat a) (unat b)" and mx: "unat (max a b) = max (unat a) (unat b)"
    for a b :: u64
    by (simp_all add: min_def max_def word_le_nat_alt)
  show ?thesis by (simp add: refresh_sleep_def mn mx unat_saturating_sub)
qed

lemma refresh_sleep_bounds: "10 \<le> unat (refresh_sleep tks now)" "unat (refresh_sleep tks now) \<le> 300"
  by (cases tks; simp add: refresh_sleep_Some refresh_sleep_def [of None])+

lemma authenticate_calls: "length (snd (authenticate S kp)) \<le> 2"
  by (auto simp: authenticate_def Let_def split: sum.splits option.splits)

lemma full_reauth_facts:
  assumes "full_reauth S kp tks = (tks', pause, calls)"
  shows "length calls \<le> 2" "tks \<noteq> None \<Longrightarrow> tks' \<noteq> None"
  using assms authenticate_calls [of S kp]
  by (auto simp: full_reauth_def split: prod.splits sum.splits)

lemma refresh_round_facts:
  assumes "refresh_round S kp wake tks = (tks', pause, calls)"
  shows "length calls \<le> 3" "tks \<noteq> None \<Longrightarrow> tks' \<noteq> None"
proof -
  obtain x e c where f: "full_reauth S kp tks = (x, e, c)" by (cases "full_reauth S kp tks") auto
  note ff = full_reauth_facts [OF f]
  from assms ff(1) f show "length calls \<le> 3"
    by (auto simp: refresh_round_def split: if_splits option.splits sum.splits)
  from assms ff(2) f show "tks \<noteq> None \<Longrightarrow> tks' \<noteq> None"
    by (auto simp: refresh_round_def split: if_splits option.splits sum.splits)
qed

text \<open>
  Property C16. A region that authenticated stays authenticated and does not flood the auth service:
  in every run of its refresh task, whatever the service answers, the region always holds tokens
  (so the branches for missing tokens never run), and at most three calls are made per ten seconds.
\<close>

theorem refresh_task_safe:
  assumes "token_run kp (t0, Some k) (t, tks) n"
  shows "tks \<noteq> None \<and> 10 * n \<le> 3 * (unat t - unat t0) \<and> t0 \<le> t"
proof -
  have "snd st \<noteq> None \<and> 10 * n + 3 * unat t0 \<le> 3 * unat (fst st)"
    if "token_run kp (t0, Some k) st n" for st n
    using that
  proof induction
    case (round now tks n wake S tks' pause calls after)
    note f = refresh_round_facts [OF round(3)]
    have "unat now + 10 \<le> unat after"
      using round(2,4) refresh_sleep_bounds(1) [of tks now] by linarith
    with round(5) f show ?case by simp
  qed simp
  from this [OF assms] show ?thesis by (auto simp: word_le_nat_alt)
qed

definition sample_keypair :: keypair where
  "sample_keypair = \<lparr>kp_pubkey = [1], kp_base58 = ''k'', kp_sign = rev\<rparr>"

definition sample_tokens :: tokens where
  "sample_tokens = \<lparr>tk_access = ''a0'', tk_access_expires_at = 1000, tk_refresh = ''r'',
     tk_refresh_expires_at = 100000\<rparr>"

definition sample_service :: auth_service where
  "sample_service = \<lparr>as_challenge = (\<lambda>_. Inr ''c''),
     as_tokens = (\<lambda>_ _ _. Inr \<lparr>ar_access = Some \<lparr>tm_value = ''b'', tm_expires_at_utc = Some 2000\<rparr>,
        ar_refresh = Some \<lparr>tm_value = ''s'', tm_expires_at_utc = Some 100000\<rparr>\<rparr>),
     as_refresh = (\<lambda>_. Inr (Some \<lparr>tm_value = ''a1'', tm_expires_at_utc = Some 2000\<rparr>))\<rparr>"

lemma sample_round:
  "refresh_round sample_service sample_keypair 600 (Some sample_tokens) =
     (Some (sample_tokens\<lparr>tk_access_expires_at := 2000, tk_access := ''a1''\<rparr>), 0, [Refresh_access ''r''])"
  by code_simp

lemma sample_sleep: "refresh_sleep (Some sample_tokens) 200 = 300"
  by code_simp

theorem refresh_task_safe_witness:
  "\<exists>tks. token_run sample_keypair (200, Some sample_tokens) (601, tks) 1 \<and> tks \<noteq> None \<and> 10 * (1::nat) \<le> 3 * 401"
proof -
  have "token_run sample_keypair (200, Some sample_tokens) (601,
      Some (sample_tokens\<lparr>tk_access_expires_at := 2000, tk_access := ''a1''\<rparr>)) (0 + length [Refresh_access ''r''])"
    by (rule token_run.round [OF token_run.spawned _ sample_round]) (simp_all add: sample_sleep)
  then have run: "token_run sample_keypair (200, Some sample_tokens) (601,
      Some (sample_tokens\<lparr>tk_access_expires_at := 2000, tk_access := ''a1''\<rparr>)) 1" by simp
  from refresh_task_safe [OF run] show ?thesis using run by auto
qed

section \<open>Freshness\<close>

text \<open>Every token the service grants in a round that ends at \<open>after\<close> lives 70 seconds more.\<close>

definition grants_until :: "auth_service \<Rightarrow> keypair \<Rightarrow> u64 \<Rightarrow> bool" where
  "grants_until S kp after \<longleftrightarrow>
     (\<forall>r. \<exists>a. as_refresh S r = Inr (Some a) \<and> unat after + 70 \<le> unat (timestamp_secs (tm_expires_at_utc a))) \<and>
     (\<exists>t. fst (authenticate S kp) = Inr t \<and> unat after + 70 \<le> unat (tk_access_expires_at t))"

definition punctual :: "u64 \<Rightarrow> tokens \<Rightarrow> u64 \<Rightarrow> u64 \<Rightarrow> bool" where
  "punctual now k wake after \<longleftrightarrow>
     unat now + unat (refresh_sleep (Some k) now) \<le> unat wake \<and> wake \<le> after \<and>
     unat after < unat now + unat (refresh_sleep (Some k) now) + 60"

inductive healthy_run :: "keypair \<Rightarrow> u64 \<times> tokens \<Rightarrow> u64 \<times> tokens \<Rightarrow> bool" for kp st0 where
  granted: "unat (fst st0) + 70 \<le> unat (tk_access_expires_at (snd st0)) \<Longrightarrow> healthy_run kp st0 st0"
| renewed: "healthy_run kp st0 (now, k) \<Longrightarrow> punctual now k wake after \<Longrightarrow> grants_until S kp after \<Longrightarrow>
    refresh_round S kp wake (Some k) = (Some k', pause, calls) \<Longrightarrow> healthy_run kp st0 (after, k')"

lemma refresh_round_granted:
  assumes "grants_until S kp after" "refresh_round S kp wake (Some k) = (Some k', pause, calls)"
  shows "unat after + 70 \<le> unat (tk_access_expires_at k')"
proof -
  obtain t c where auth: "authenticate S kp = (Inr t, c)" "unat after + 70 \<le> unat (tk_access_expires_at t)"
    using assms(1) unfolding grants_until_def by (metis prod.collapse)
  obtain a where a: "as_refresh S (tk_refresh k) = Inr (Some a)"
      "unat after + 70 \<le> unat (timestamp_secs (tm_expires_at_utc a))"
    using assms(1) unfolding grants_until_def by blast
  show ?thesis
    using assms(2) auth a by (auto simp: refresh_round_def full_reauth_def split: if_splits)
qed

lemma healthy_margin:
  "healthy_run kp st0 st \<Longrightarrow> unat (fst st) + 70 \<le> unat (tk_access_expires_at (snd st))"
  by (induction rule: healthy_run.induct) (auto intro: refresh_round_granted)

text \<open>
  Property C15. In a healthy run the access token never expires: from the start of every round to
  the instant the renewed token is in place, the token the region sends with is still valid.
\<close>

theorem access_token_always_valid:
  assumes "healthy_run kp st0 (now, k)" "punctual now k wake after"
  shows "now < tk_access_expires_at k \<and> after < tk_access_expires_at k"
proof -
  have m: "unat now + 70 \<le> unat (tk_access_expires_at k)" using healthy_margin [OF assms(1)] by simp
  have "unat (refresh_sleep (Some k) now) + unat now + 60 \<le> unat (tk_access_expires_at k)"
    using m by (simp add: refresh_sleep_Some)
  with m assms(2) show ?thesis by (simp add: punctual_def word_less_nat_alt)
qed

theorem access_token_always_valid_witness:
  "\<exists>k. healthy_run sample_keypair (200, sample_tokens) (510, k) \<and> punctual 510 k 815 820 \<and>
     820 < tk_access_expires_at k"
proof -
  let ?k = "sample_tokens\<lparr>tk_access_expires_at := 2000, tk_access := ''a1''\<rparr>"
  have "healthy_run sample_keypair (200, sample_tokens) (200, sample_tokens)"
    by (rule healthy_run.granted) (simp add: sample_tokens_def)
  moreover have "punctual 200 sample_tokens 505 510"
    by (simp add: punctual_def sample_sleep)
  moreover have "grants_until sample_service sample_keypair 510"
  proof -
    have "fst (authenticate sample_service sample_keypair) =
        Inr \<lparr>tk_access = ''b'', tk_access_expires_at = 2000, tk_refresh = ''s'', tk_refresh_expires_at = 100000\<rparr>"
      by code_simp
    moreover have "timestamp_secs (Some 2000) = 2000" by code_simp
    ultimately show ?thesis by (simp add: grants_until_def sample_service_def)
  qed
  moreover have "refresh_round sample_service sample_keypair 505 (Some sample_tokens) =
      (Some ?k, 0, [Refresh_access ''r''])" by code_simp
  ultimately have run: "healthy_run sample_keypair (200, sample_tokens) (510, ?k)"
    by (rule healthy_run.renewed)
  have "refresh_sleep (Some ?k) 510 = 300" by code_simp
  then have p: "punctual 510 ?k 815 820" by (simp add: punctual_def)
  from access_token_always_valid [OF run p] run p show ?thesis by blast
qed

section \<open>An empty reply\<close>

text \<open>Rounds of the task at the given times, with the service each of them meets.\<close>

fun run_rounds :: "keypair \<Rightarrow> tokens option \<Rightarrow> (auth_service \<times> u64) list \<Rightarrow> tokens option \<times> auth_call list" where
  "run_rounds kp tks [] = (tks, [])"
| "run_rounds kp tks ((S, wake) # rs) =
     (case refresh_round S kp wake tks of
        (tks1, _, calls) \<Rightarrow> (case run_rounds kp tks1 rs of (tks2, later) \<Rightarrow> (tks2, calls @ later)))"

definition empty_refresh :: "tokens \<Rightarrow> auth_service \<times> u64 \<Rightarrow> bool" where
  "empty_refresh t = (\<lambda>(S, wake). as_refresh S (tk_refresh t) = Inr None \<and>
     120 \<le> saturating_sub (tk_refresh_expires_at t) wake)"

text \<open>
  An empty refresh reply does not lead to a new authentication, although the log line
  says it will: as long as the refresh token lasts, rounds whose reply has no access token leave
  the tokens as they are, expired or not, and make no other call.
\<close>

theorem empty_refresh_never_reauths:
  assumes "list_all (empty_refresh t) rounds"
  shows "run_rounds kp (Some t) rounds = (Some t, replicate (length rounds) (Refresh_access (tk_refresh t)))"
  using assms
proof (induction rounds)
  case (Cons r rounds)
  obtain S wake where r: "r = (S, wake)" by force
  have "refresh_round S kp wake (Some t) = (Some t, 0, [Refresh_access (tk_refresh t)])"
    using Cons.prems by (auto simp: r empty_refresh_def refresh_round_def needs_full_reauth_def
        word_le_nat_alt word_less_nat_alt)
  with Cons show ?case by (simp add: r)
qed simp

theorem empty_refresh_never_reauths_witness:
  "run_rounds sample_keypair (Some sample_tokens)
     [(sample_service\<lparr>as_refresh := \<lambda>_. Inr None\<rparr>, 5000), (sample_service\<lparr>as_refresh := \<lambda>_. Inr None\<rparr>, 5010)] =
     (Some sample_tokens, replicate 2 (Refresh_access ''r''))"
proof -
  have "saturating_sub (tk_refresh_expires_at sample_tokens) 5000 = 95000"
    "saturating_sub (tk_refresh_expires_at sample_tokens) 5010 = 94990" by code_simp+
  then have "list_all (empty_refresh sample_tokens)
      [(sample_service\<lparr>as_refresh := \<lambda>_. Inr None\<rparr>, 5000), (sample_service\<lparr>as_refresh := \<lambda>_. Inr None\<rparr>, 5010)]"
    by (simp add: empty_refresh_def)
  from empty_refresh_never_reauths [OF this, of sample_keypair] show ?thesis
    by (simp add: sample_tokens_def numeral_2_eq_2)
qed

end
