(* ===== verification/Alt_Loader.thy ===== *)
theory Alt_Loader
  imports Transaction
begin

text \<open>
  \<open>src/bin/alt_loader.rs\<close>: the stand-alone lookup-table loader. It repeats the decoder of
  \<open>transaction.rs\<close>; the RPC client and the base58 parser are parameters. Printing is not modelled but
  for the warning about an account that is not executable.
\<close>

definition JUPITER_ALTS :: "string list" where
  "JUPITER_ALTS =
     [''3AL7kDjdMADqmDc1piGtDuWzQfbFqXzV8YxTJ8G6qpump'',
      ''GbPYrQEDYV9Bn4Kp9oT3h5sQSYFpwLyhpD7PJE8xgRHX'',
      ''CRaGFDCkqdPB7FnJpJfzvvRoEeT9pqxFXFoipPxZ7Jst'',
      ''DRpbCBLoTZy9XyZKJxMcmFA3AJR45mNqRhC5SkraShyc'',
      ''FTpcGfsvXwGRcqjSaBNoxNYFSYeKgQVCuKtHkRvxXtpu'']"

definition loader_deserialize :: "bytes \<Rightarrow> alt_error + pubkey list" where
  "loader_deserialize data =
     (let HEADER_SIZE = 56 in
      if length data < HEADER_SIZE then Inl (Data_too_short (length data))
      else
        (let addresses_data = drop HEADER_SIZE data in
         if length addresses_data mod 32 \<noteq> 0 then Inl (Bad_length (length addresses_data))
         else Inr (chunks_exact 32 addresses_data)))"

text \<open>What the RPC client answers: the data and the executable flag of an account.\<close>

type_synonym alt_rpc = "pubkey \<Rightarrow> (bytes \<times> bool) option"

datatype loader_error = Invalid_alt_pubkey string | Alt_fetch_failed string | Alt_undecodable alt_error

text \<open>The result, and whether the warning about a non-executable account was printed.\<close>

definition load_alt :: "(string \<Rightarrow> pubkey option) \<Rightarrow> alt_rpc \<Rightarrow> string \<Rightarrow> (loader_error + alt_account) \<times> bool" where
  "load_alt parse rpc alt_pubkey =
     (case parse alt_pubkey of
        None \<Rightarrow> (Inl (Invalid_alt_pubkey alt_pubkey), False)
      | Some pk \<Rightarrow>
          (case rpc pk of
             None \<Rightarrow> (Inl (Alt_fetch_failed alt_pubkey), False)
           | Some (data, executable) \<Rightarrow>
               (case loader_deserialize data of
                  Inl e \<Rightarrow> (Inl (Alt_undecodable e), \<not> executable)
                | Inr addresses \<Rightarrow> (Inr \<lparr>alt_key = pk, alt_addresses = addresses\<rparr>, \<not> executable))))"

text \<open>The loop of \<open>main\<close>: the summary's two counters.\<close>

definition loader_main :: "(string \<Rightarrow> pubkey option) \<Rightarrow> alt_rpc \<Rightarrow> nat \<times> nat" where
  "loader_main parse rpc =
     foldl (\<lambda>(success, failed) alt_addr.
        case fst (load_alt parse rpc alt_addr) of
          Inr alt \<Rightarrow> (success + 1, failed)
        | Inl e \<Rightarrow> (success, failed + 1)) (0, 0) JUPITER_ALTS"

section \<open>The loader against the bot\<close>

lemma loader_deserialize_same: "loader_deserialize = deserialize_alt_addresses"
  by (rule ext) (simp add: loader_deserialize_def deserialize_alt_addresses_def ALT_HEADER_SIZE_def Let_def)

text \<open>
  The loader sees the tables the bot sees before its filter: for a parsable address a
  fresh bot cache answers with the loader's table less the tip accounts, and fails exactly when the
  loader fails; the two copies of the decoder agree on every input.
\<close>

theorem loader_agrees_with_bot:
  "alt_get_or_fetch (\<lambda>pk. map_option fst (rpc pk)) pk (alt_cache_new tips) =
     (case load_alt (\<lambda>_. Some pk) rpc addr of
        (Inr alt, w) \<Rightarrow>
          (let t = alt\<lparr>alt_addresses := filter (\<lambda>a. a \<notin> set tips) (alt_addresses alt)\<rparr>
           in (Inr t, (alt_cache_new tips)\<lparr>ac_inner := [(pk, t)]\<rparr>))
      | (Inl (Alt_undecodable e), w) \<Rightarrow> (Inl (Bad_table e), alt_cache_new tips)
      | (Inl _, w) \<Rightarrow> (Inl Rpc_failed, alt_cache_new tips))"
  by (auto simp: load_alt_def alt_get_or_fetch_def alt_cache_new_def loader_deserialize_same Let_def
      hm_insert_def hm_get_def split: option.splits sum.splits)

lemma loader_fold:
  "foldl (\<lambda>(s, f) a. case fst (load_alt parse rpc a) of Inr alt \<Rightarrow> (s + 1, f) | Inl e \<Rightarrow> (s, f + 1)) (s, f) as =
     (s + length (filter (\<lambda>a. \<not> isl (fst (load_alt parse rpc a))) as),
      f + length (filter (\<lambda>a. isl (fst (load_alt parse rpc a))) as))"
proof (induction as arbitrary: s f)
  case (Cons a as)
  then show ?case by (cases "fst (load_alt parse rpc a)") simp_all
qed simp

lemma loader_main_total: "case loader_main parse rpc of (s, f) \<Rightarrow> s + f = length JUPITER_ALTS"
  unfolding loader_main_def loader_fold
  using sum_length_filter_compl [of "\<lambda>a. isl (fst (load_alt parse rpc a))" JUPITER_ALTS] by simp

text \<open>
  The warning is inverted: a table that loads comes with the warning that it might not be a lookup
  table exactly when the account is not executable, and a lookup table never is.
\<close>

lemma load_alt_warns:
  "load_alt parse rpc addr = (Inr alt, warned) \<Longrightarrow> rpc (alt_key alt) = Some (data, executable) \<Longrightarrow>
   warned = (\<not> executable)"
  by (auto simp: load_alt_def split: option.splits sum.splits)

end
