(* ===== verification/Plain_Codec.thy ===== *)
theory Plain_Codec
  imports Template_Disk
begin

text \<open>
  A concrete encoding of the two cache files that satisfies \<open>serde_lawful\<close>: numbers in decimal
  with a terminator, lists with their length, records field by field. It instantiates the \<open>serde\<close>
  parameter where the properties of the disk part are applied to concrete data.
\<close>

type_synonym 'a codec = "('a \<Rightarrow> string) \<times> (string \<Rightarrow> ('a \<times> string) option)"

definition codec_ok :: "'a codec \<Rightarrow> bool" where
  "codec_ok c \<longleftrightarrow> (\<forall>a r. snd c (fst c a @ r) = Some (a, r))"

definition nat_codec :: "nat codec" where
  "nat_codec =
     (\<lambda>n. dec_of_nat n @ '','',
      \<lambda>s. (let ds = takeWhile is_digit s in Some (digits_val ds, drop (length ds + 1) s)))"

definition map_codec :: "('a \<Rightarrow> 'b) \<Rightarrow> ('b \<Rightarrow> 'a) \<Rightarrow> 'b codec \<Rightarrow> 'a codec" where
  "map_codec f g c = (fst c \<circ> f, map_option (apfst g) \<circ> snd c)"

definition pair_codec :: "'a codec \<Rightarrow> 'b codec \<Rightarrow> ('a \<times> 'b) codec" where
  "pair_codec c d =
     (\<lambda>(a, b). fst c a @ fst d b,
      \<lambda>s. Option.bind (snd c s) (\<lambda>(a, r). map_option (apfst (Pair a)) (snd d r)))"

fun get_times :: "(string \<Rightarrow> ('a \<times> string) option) \<Rightarrow> nat \<Rightarrow> string \<Rightarrow> ('a list \<times> string) option" where
  "get_times d 0 s = Some ([], s)"
| "get_times d (Suc n) s = Option.bind (d s) (\<lambda>(a, r). map_option (apfst (Cons a)) (get_times d n r))"

definition list_codec :: "'a codec \<Rightarrow> 'a list codec" where
  "list_codec c =
     (\<lambda>xs. fst nat_codec (length xs) @ concat (map (fst c) xs),
      \<lambda>s. Option.bind (snd nat_codec s) (\<lambda>(n, r). get_times (snd c) n r))"

lemma map_codec_ok: "codec_ok c \<Longrightarrow> (\<And>a. g (f a) = a) \<Longrightarrow> codec_ok (map_codec f g c)"
  by (simp add: codec_ok_def map_codec_def)

lemma pair_codec_ok: "codec_ok c \<Longrightarrow> codec_ok d \<Longrightarrow> codec_ok (pair_codec c d)"
  by (simp add: codec_ok_def pair_codec_def)

lemma nat_codec_ok: "codec_ok nat_codec"
proof -
  have "takeWhile is_digit (dec_of_nat n @ CHR '','' # r) = dec_of_nat n" for n r
    using dec_of_nat_digits [of n]
    by (simp add: takeWhile_append list_all_iff) (simp add: is_digit_def)
  then show ?thesis by (simp add: codec_ok_def nat_codec_def digits_val_dec_of_nat)
qed

lemma get_times_concat:
  assumes "codec_ok c"
  shows "get_times (snd c) (length xs) (concat (map (fst c) xs) @ r) = Some (xs, r)"
  using assms by (induction xs) (simp_all add: codec_ok_def)

lemma list_codec_ok: "codec_ok c \<Longrightarrow> codec_ok (list_codec c)"
  using nat_codec_ok get_times_concat [of c]
  unfolding codec_ok_def [of nat_codec] codec_ok_def [of "list_codec c"] by (simp add: list_codec_def)

section \<open>The types of the cache files\<close>

definition option_codec :: "'a codec \<Rightarrow> 'a option codec" where
  "option_codec c = map_codec (case_option [] (\<lambda>x. [x])) (case_list None (\<lambda>x _. Some x)) (list_codec c)"

definition word_codec :: "'n::len word codec" where
  "word_codec = map_codec unat of_nat nat_codec"

definition string_codec :: "string codec" where
  "string_codec = map_codec (map of_char) (map char_of) (list_codec nat_codec)"

definition bool_codec :: "bool codec" where
  "bool_codec = map_codec of_bool (\<lambda>n. n = 1) nat_codec"

lemma option_codec_ok: "codec_ok c \<Longrightarrow> codec_ok (option_codec c)"
  by (auto simp: option_codec_def intro!: map_codec_ok list_codec_ok split: option.split)

lemma word_codec_ok: "codec_ok word_codec"
  by (simp add: word_codec_def map_codec_ok nat_codec_ok)

lemma string_codec_ok: "codec_ok string_codec"
  by (simp add: string_codec_def map_codec_ok nat_codec_ok list_codec_ok comp_def)

lemma bool_codec_ok: "codec_ok bool_codec"
  by (simp add: bool_codec_def map_codec_ok nat_codec_ok)

lemmas basic_codecs_ok = option_codec_ok word_codec_ok string_codec_ok bool_codec_ok
  list_codec_ok pair_codec_ok nat_codec_ok

definition account_codec :: "account_meta_data codec" where
  "account_codec = map_codec
     (\<lambda>a. (am_pubkey a, am_is_signer a, am_is_writable a))
     (\<lambda>(k, s, w). \<lparr>am_pubkey = k, am_is_signer = s, am_is_writable = w\<rparr>)
     (pair_codec string_codec (pair_codec bool_codec bool_codec))"

definition ix_codec :: "instruction_data codec" where
  "ix_codec = map_codec
     (\<lambda>i. (ix_program_id i, ix_accounts i, ix_data i))
     (\<lambda>(p, a, d). \<lparr>ix_program_id = p, ix_accounts = a, ix_data = d\<rparr>)
     (pair_codec string_codec (pair_codec (list_codec account_codec) string_codec))"

definition swap_codec :: "swap_instructions_response codec" where
  "swap_codec = map_codec
     (\<lambda>r. (compute_budget_instructions r, setup_instructions r, swap_instruction r,
           cleanup_instruction r, address_lookup_table_addresses r))
     (\<lambda>(b, s, i, c, t). \<lparr>compute_budget_instructions = b, setup_instructions = s,
        swap_instruction = i, cleanup_instruction = c, address_lookup_table_addresses = t\<rparr>)
     (pair_codec (list_codec ix_codec) (pair_codec (list_codec ix_codec) (pair_codec ix_codec
       (pair_codec (option_codec ix_codec) (list_codec string_codec)))))"

definition record_codec :: "route_record codec" where
  "record_codec = map_codec
     (\<lambda>r. (rr_sig r, rr_swap_ixs r, rr_template_in_amount r, rr_template_quoted_out r,
           rr_in_offset r, rr_out_offset r, rr_seen_count r, rr_hit_count r))
     (\<lambda>(s, x, a, q, i, j, n, h). \<lparr>rr_sig = s, rr_swap_ixs = x, rr_template_in_amount = a,
        rr_template_quoted_out = q, rr_in_offset = i, rr_out_offset = j, rr_seen_count = n,
        rr_hit_count = h\<rparr>)
     (pair_codec string_codec (pair_codec swap_codec (pair_codec word_codec (pair_codec word_codec
       (pair_codec (option_codec nat_codec) (pair_codec (option_codec nat_codec)
       (pair_codec word_codec word_codec)))))))"

definition route_file_codec :: "route_file codec" where
  "route_file_codec = map_codec
     (\<lambda>f. (rf_schema_version f, rf_routes f, rf_hop_pairs f))
     (\<lambda>(v, r, h). \<lparr>rf_schema_version = v, rf_routes = r, rf_hop_pairs = h\<rparr>)
     (pair_codec word_codec (pair_codec (list_codec record_codec)
       (list_codec (pair_codec string_codec string_codec))))"

fun dex_code :: "dex_kind \<Rightarrow> nat" where
  "dex_code Whirlpool = 0" | "dex_code WhirlpoolSwapV2 = 1" | "dex_code RaydiumClmm = 2"
| "dex_code RaydiumV2 = 3" | "dex_code MeteoraDlmm = 4" | "dex_code MeteoraPools = 5"
| "dex_code AlphaQ = 6" | "dex_code Aquifer = 7" | "dex_code AldrinV2 = 8" | "dex_code OtherDex = 9"

definition dex_of_code :: "nat \<Rightarrow> dex_kind" where
  "dex_of_code n = [Whirlpool, WhirlpoolSwapV2, RaydiumClmm, RaydiumV2, MeteoraDlmm, MeteoraPools,
     AlphaQ, Aquifer, AldrinV2, OtherDex] ! n"

fun direction_code :: "direction_params \<Rightarrow> nat" where
  "direction_code DirNone = 0" | "direction_code (AToB b) = (if b then 1 else 2)"
| "direction_code SideBid = 3" | "direction_code SideAsk = 4"

definition direction_of_code :: "nat \<Rightarrow> direction_params" where
  "direction_of_code n = [DirNone, AToB True, AToB False, SideBid, SideAsk] ! n"

definition hop_template_codec :: "hop_template codec" where
  "hop_template_codec = map_codec
     (\<lambda>t. (dex_code (ht_dex t), ht_pool t, ht_input_mint t, ht_output_mint t,
           direction_code (ht_direction t), ht_remaining_hash t, ht_seen_count t,
           ht_first_seen_slot t, ht_last_seen_slot t))
     (\<lambda>(d, p, i, q, r, h, n, a, b). \<lparr>ht_dex = dex_of_code d, ht_pool = p, ht_input_mint = i,
        ht_output_mint = q, ht_direction = direction_of_code r, ht_remaining_hash = h,
        ht_seen_count = n, ht_first_seen_slot = a, ht_last_seen_slot = b\<rparr>)
     (pair_codec nat_codec (pair_codec string_codec (pair_codec string_codec (pair_codec string_codec
       (pair_codec nat_codec (pair_codec word_codec (pair_codec word_codec
       (pair_codec (option_codec word_codec) (option_codec word_codec)))))))))"

definition hop_file_codec :: "dex_hop_file codec" where
  "hop_file_codec = map_codec
     (\<lambda>f. (df_schema_version f, dex_code (df_dex f), df_templates f))
     (\<lambda>(v, d, t). \<lparr>df_schema_version = v, df_dex = dex_of_code d, df_templates = t\<rparr>)
     (pair_codec word_codec (pair_codec nat_codec
       (list_codec (pair_codec string_codec hop_template_codec))))"

lemma dex_of_code_code [simp]: "dex_of_code (dex_code d) = d"
  by (cases d) (simp_all add: dex_of_code_def)

lemma direction_of_code_code [simp]: "direction_of_code (direction_code d) = d"
  by (cases d) (auto simp: direction_of_code_def)

lemma account_codec_ok: "codec_ok account_codec"
  unfolding account_codec_def by (intro map_codec_ok basic_codecs_ok) simp

lemma ix_codec_ok: "codec_ok ix_codec"
  unfolding ix_codec_def by (intro map_codec_ok basic_codecs_ok account_codec_ok) simp

lemma swap_codec_ok: "codec_ok swap_codec"
  unfolding swap_codec_def by (intro map_codec_ok basic_codecs_ok ix_codec_ok) simp

lemma record_codec_ok: "codec_ok record_codec"
  unfolding record_codec_def by (intro map_codec_ok basic_codecs_ok swap_codec_ok) simp

lemma route_file_codec_ok: "codec_ok route_file_codec"
  unfolding route_file_codec_def by (intro map_codec_ok basic_codecs_ok record_codec_ok) simp

lemma hop_template_codec_ok: "codec_ok hop_template_codec"
  unfolding hop_template_codec_def by (intro map_codec_ok basic_codecs_ok) simp

lemma hop_file_codec_ok: "codec_ok hop_file_codec"
  unfolding hop_file_codec_def by (intro map_codec_ok basic_codecs_ok hop_template_codec_ok) simp

definition plain_serde :: serde where
  "plain_serde =
     \<lparr>enc_routes = Some \<circ> fst route_file_codec, dec_routes = map_option fst \<circ> snd route_file_codec,
      enc_hops = Some \<circ> fst hop_file_codec, dec_hops = map_option fst \<circ> snd hop_file_codec\<rparr>"

lemma plain_serde_lawful: "serde_lawful plain_serde"
proof -
  have routes: "dec_routes plain_serde (fst route_file_codec f) = Some f" for f
    using route_file_codec_ok [unfolded codec_ok_def, rule_format, of f "[]"]
    by (simp add: plain_serde_def)
  have hops: "dec_hops plain_serde (fst hop_file_codec f) = Some f" for f
    using hop_file_codec_ok [unfolded codec_ok_def, rule_format, of f "[]"]
    by (simp add: plain_serde_def)
  show ?thesis
    unfolding serde_lawful_def
  proof (intro conjI allI impI)
    fix f :: route_file
    assume "hm_wf (rf_hop_pairs f)"
    then show "\<exists>s hp. enc_routes plain_serde f = Some s \<and>
        dec_routes plain_serde s = Some (f\<lparr>rf_hop_pairs := hp\<rparr>) \<and> same_map (rf_hop_pairs f) hp"
      by (intro exI [of _ "fst route_file_codec f"] exI [of _ "rf_hop_pairs f"])
        (simp add: routes same_map_def, simp add: plain_serde_def)
  next
    fix f :: dex_hop_file
    assume "hm_wf (df_templates f)"
    then show "\<exists>s ts. enc_hops plain_serde f = Some s \<and>
        dec_hops plain_serde s = Some (f\<lparr>df_templates := ts\<rparr>) \<and> same_map (df_templates f) ts"
      by (intro exI [of _ "fst hop_file_codec f"] exI [of _ "df_templates f"])
        (simp add: hops same_map_def, simp add: plain_serde_def)
  qed
qed

end
