(* ===== verification/Disk_Properties.thy ===== *)
theory Disk_Properties
  imports Plain_Codec
begin

text \<open>
  What survives a restart: the round trips of routes and hops through the cache files, the
  behaviour of a failed or interrupted flush, and the size of a loaded store.
\<close>

section \<open>Writing files\<close>

lemma hm_get_save_file:
  "p \<noteq> path @ ''.tmp'' \<Longrightarrow>
   hm_get (save_file r path json fs) p = (if p = path \<and> r = Saved then Some json else hm_get fs p)"
  by (auto simp: save_file_def hm_simps split: save_outcome.split)

lemma hm_wf_save_file: "hm_wf fs \<Longrightarrow> hm_wf (save_file r path json fs)"
  by (simp add: save_file_def hm_intros split: save_outcome.split)

definition hop_file :: "dex_kind \<Rightarrow> (string, hop_template) hmap \<Rightarrow> dex_hop_file" where
  "hop_file dex ts = \<lparr>df_schema_version = 1, df_dex = dex, df_templates = ts\<rparr>"

lemma hm_get_flush_group:
  "p \<noteq> hop_file_path stem @ ''.tmp'' \<Longrightarrow>
   hm_get (flush_group J rs fs (stem, dex, ts)) p =
     (if p = hop_file_path stem \<and> rs stem = Saved \<and> enc_hops J (hop_file dex ts) \<noteq> None
      then enc_hops J (hop_file dex ts) else hm_get fs p)"
  by (auto simp: flush_group_def hop_file_def hm_get_save_file split: option.split)

lemma hm_wf_flush_group: "hm_wf fs \<Longrightarrow> hm_wf (flush_group J rs fs gr)"
  by (auto simp: flush_group_def hm_wf_save_file split: prod.split option.split)

lemma hm_wf_flush_groups: "hm_wf fs \<Longrightarrow> hm_wf (foldl (flush_group J rs) fs gs)"
  by (induction gs arbitrary: fs) (simp_all add: hm_wf_flush_group)

definition is_tmp :: "string \<Rightarrow> bool" where
  "is_tmp p \<longleftrightarrow> suffix ''.tmp'' p"

lemma is_tmp_append [simp]: "is_tmp (p @ ''.tmp'')"
  unfolding is_tmp_def suffix_def by blast

lemma not_tmp_json [simp]: "\<not> is_tmp (hop_file_path stem)" "\<not> is_tmp routes_json_path"
proof -
  show "\<not> is_tmp (hop_file_path stem)"
    by (auto simp: is_tmp_def hop_file_path_def suffix_def append_eq_append_conv2
        Cons_eq_append_conv append_eq_Cons_conv)
  show "\<not> is_tmp routes_json_path"
    by (simp add: is_tmp_def routes_json_path_def suffix_to_prefix)
qed

lemma flush_groups_old_or_new:
  assumes "\<not> is_tmp p"
  shows "hm_get (foldl (flush_group J rs) fs gs) p = hm_get fs p \<or>
    (\<exists>(stem, dex, ts) \<in> set gs. p = hop_file_path stem \<and>
       hm_get (foldl (flush_group J rs) fs gs) p = enc_hops J (hop_file dex ts))"
proof (induction gs rule: rev_induct)
  case (snoc gr gs)
  obtain stem dex ts where gr: "gr = (stem, dex, ts)" by (cases gr) auto
  have "p \<noteq> hop_file_path stem @ ''.tmp''" using assms by auto
  from hm_get_flush_group [OF this, of J rs "foldl (flush_group J rs) fs gs" dex ts] snoc
  show ?case by (auto simp: gr split: if_splits)
qed simp

lemma flush_routes_get:
  assumes "\<not> is_tmp p"
  shows "hm_get (flush_routes_to_disk J r g fs) p =
     (if p = routes_json_path \<and> r = Saved \<and> enc_routes J (route_file_of g) \<noteq> None
      then enc_routes J (route_file_of g) else hm_get fs p)"
proof -
  have "p \<noteq> routes_json_path @ ''.tmp''" using assms by auto
  from hm_get_save_file [OF this] show ?thesis
    by (cases "enc_routes J (route_file_of g)") (auto simp: flush_routes_to_disk_def)
qed

text \<open>
  Property C22. A flush is atomic per file: however its writes and renames fail, or wherever the
  process dies, every file that is not a temporary one still has its old content or has the
  complete encoding of the current store, never a part of it.
\<close>

theorem flush_old_or_new:
  "is_tmp p \<or>
   hm_get (flush_to_disk J r rs g fs) p = hm_get fs p \<or>
   (p = routes_json_path \<and> hm_get (flush_to_disk J r rs g fs) p = enc_routes J (route_file_of g)) \<or>
   (\<exists>(stem, dex, ts) \<in> set (hop_groups g). p = hop_file_path stem \<and>
      hm_get (flush_to_disk J r rs g fs) p = enc_hops J (hop_file dex ts))"
  using flush_groups_old_or_new [of p J rs "flush_routes_to_disk J r g fs" "hop_groups g"]
    flush_routes_get [of p J r g fs]
  unfolding flush_to_disk_def by (auto split: if_splits)

section \<open>Routes\<close>

definition persisted :: "route_template \<Rightarrow> route_template" where
  "persisted t = t\<lparr>rt_amount_variants := []\<rparr>"

lemma template_of_record_of: "template_of_record (rt_signature t) (record_of_template t) = persisted t"
  by (simp add: template_of_record_def record_of_template_def persisted_def)

lemma empty_map_add: "hm_get [] ++ m = m"
  by (simp add: map_add_def fun_eq_iff split: option.split)

lemma load_routes_fold:
  assumes "distinct (map rt_signature ts)" "\<forall>t \<in> set ts. visible g (rt_signature t) = None"
  shows "\<exists>g'. foldl load_route (g, n) (map record_of_template ts) = (g', n + length ts) \<and>
    hm_get (routes_hot g') = hm_get (routes_hot g) ++ map_of (map (\<lambda>t. (rt_signature t, persisted t)) ts) \<and>
    (hm_wf (routes_hot g) \<longrightarrow> hm_wf (routes_hot g') \<and> hm_len (routes_hot g') = hm_len (routes_hot g) + length ts) \<and>
    routes_cold g' = routes_cold g \<and> hops g' = hops g \<and> hop_pair_index g' = hop_pair_index g"
  using assms
proof (induction ts arbitrary: g n)
  case (Cons t ts)
  let ?g = "g\<lparr>routes_hot := hm_insert (rt_signature t) (persisted t) (routes_hot g)\<rparr>"
  have none: "hm_get (routes_hot g) (rt_signature t) = None" "hm_get (routes_cold g) (rt_signature t) = None"
    using Cons.prems by (simp_all add: visible_None)
  have step: "load_route (g, n) (record_of_template t) = (?g, n + 1)"
    using none by (simp add: load_route_def record_of_template_def [THEN arg_cong [of _ _ rr_sig]]
        template_of_record_of)
  have "\<forall>t' \<in> set ts. visible ?g (rt_signature t') = None"
    using Cons.prems by (auto simp: visible_None hm_simps dest: sym intro: imageI)
  with Cons.IH [of ?g "n + 1"] Cons.prems obtain g' where g':
    "foldl load_route (?g, n + 1) (map record_of_template ts) = (g', n + 1 + length ts)"
    "hm_get (routes_hot g') = hm_get (routes_hot ?g) ++ map_of (map (\<lambda>t. (rt_signature t, persisted t)) ts)"
    "hm_wf (routes_hot ?g) \<longrightarrow> hm_wf (routes_hot g') \<and> hm_len (routes_hot g') = hm_len (routes_hot ?g) + length ts"
    "routes_cold g' = routes_cold ?g" "hops g' = hops ?g" "hop_pair_index g' = hop_pair_index ?g"
    by auto
  have "rt_signature t \<notin> set (map rt_signature ts)" using Cons.prems by simp
  then have "map_of (map (\<lambda>t. (rt_signature t, persisted t)) ts) (rt_signature t) = None"
    by (simp add: map_of_eq_None_iff image_image)
  then have hot: "hm_get (routes_hot g') =
      hm_get (routes_hot g) ++ map_of (map (\<lambda>t. (rt_signature t, persisted t)) (t # ts))"
    by (auto simp: g'(2) hm_simps map_add_def fun_eq_iff split: option.split)
  with g'(1,3-6) none show ?case
    by (intro exI [of _ g'] conjI hot) (auto simp: step hm_intros hm.len_ins)
qed (auto simp: map_add_def)

lemma load_pair_parsed:
  assumes "\<forall>(k, s) \<in> set hp. parse_u128 s \<noteq> None"
  shows "hm_get (foldl load_pair m hp) k =
    (case hm_get m k of Some v \<Rightarrow> Some v | None \<Rightarrow> map_option (\<lambda>s. the (parse_u128 s)) (map_of hp k))"
  using assms
proof (induction hp arbitrary: m)
  case (Cons x hp)
  obtain a s where x: "x = (a, s)" by force
  with Cons.prems obtain v where v: "parse_u128 s = Some v" by auto
  have "load_pair m x = hm_or_insert a v m" by (simp add: load_pair_def x v)
  moreover have "hm_get (foldl load_pair (hm_or_insert a v m) hp) k =
      (case hm_get (hm_or_insert a v m) k of Some v \<Rightarrow> Some v
       | None \<Rightarrow> map_option (\<lambda>s. the (parse_u128 s)) (map_of hp k))"
    using Cons.prems by (intro Cons.IH) auto
  ultimately show ?case
    using v by (auto simp: x hm_simps split: option.splits)
qed (simp split: option.split)

lemma load_pairs_roundtrip:
  assumes "same_map (map (\<lambda>(k, v). (k, string_of_u128 v)) idx) hp"
  shows "hm_get (foldl load_pair [] hp) k = hm_get idx k"
proof -
  have get: "map_of hp k = map_option string_of_u128 (map_of idx k)" for k
    using assms by (simp add: same_map_def hm_get_def fun_eq_iff map_of_map)
  have "parse_u128 s \<noteq> None" if "(k', s) \<in> set hp" for k' s
  proof -
    have "map_of hp k' = Some s"
      using that assms by (simp add: same_map_def hm_wf_def)
    then show ?thesis by (auto simp: get)
  qed
  then have "\<forall>(k, s) \<in> set hp. parse_u128 s \<noteq> None" by auto
  from load_pair_parsed [OF this, of "[]" k] show ?thesis
    by (simp add: get option.map_comp comp_def hm_get_def option.map_ident)
qed

text \<open>The routes of a store in the order they are written, by signature.\<close>

lemma stored_signatures:
  assumes "store_inv B L g" "(s, t) \<in> set (routes_hot g) \<union> set (routes_cold g)"
  shows "rt_signature t = s"
proof -
  have wf: "hm_wf (routes_hot g)" "hm_wf (routes_cold g)"
    and one: "hm_get (routes_hot g) s = None \<or> hm_get (routes_cold g) s = None"
    using assms(1) by (simp_all add: store_inv_def store_wf_def)
  from assms(2) wf have "hm_get (routes_hot g) s = Some t \<or> hm_get (routes_cold g) s = Some t"
    by (auto simp: hm_get_iff_in_set)
  with one have "visible g s = Some t" by (auto simp: visible_def)
  with assms(1) show ?thesis by (auto simp: store_inv_def tmpl_ok_def)
qed

lemma values_by_signature:
  assumes "\<forall>(s, t) \<in> set m. rt_signature t = s"
  shows "map (\<lambda>t. (rt_signature t, f t)) (hm_values m) = map (\<lambda>(s, t). (s, f t)) m"
  using assms by (induction m) (auto simp: hm_values_def)

lemma flushed_templates:
  fixes g
  assumes inv: "store_inv B L g"
  defines "ts \<equiv> hm_values (routes_hot g) @ hm_values (routes_cold g)"
  shows "distinct (map rt_signature ts)"
    and "map_of (map (\<lambda>t. (rt_signature t, persisted t)) ts) s = map_option persisted (visible g s)"
    and "length ts = route_count g"
proof -
  have hot: "\<forall>(s, t) \<in> set (routes_hot g). rt_signature t = s"
    and cold: "\<forall>(s, t) \<in> set (routes_cold g). rt_signature t = s"
    using stored_signatures [OF inv] by auto
  have wf: "store_wf g" using inv by (simp add: store_inv_def)
  have sigs: "map rt_signature ts = map fst (routes_hot g) @ map fst (routes_cold g)"
    using values_by_signature [OF hot, of "\<lambda>_. ()", THEN arg_cong [of _ _ "map fst"]]
      values_by_signature [OF cold, of "\<lambda>_. ()", THEN arg_cong [of _ _ "map fst"]]
    by (simp add: ts_def comp_def case_prod_unfold)
  have disj: "fst ` set (routes_hot g) \<inter> fst ` set (routes_cold g) = {}"
    using wf by (auto simp: store_wf_def hm_get_def map_of_eq_None_iff)
  show "distinct (map rt_signature ts)"
    unfolding sigs using wf disj by (simp add: store_wf_def hm_wf_def)
  have "map_of (map (\<lambda>t. (rt_signature t, persisted t)) ts) s =
      (map_of (map (\<lambda>(s, t). (s, persisted t)) (routes_hot g @ routes_cold g))) s"
    using values_by_signature [OF hot, of persisted] values_by_signature [OF cold, of persisted]
    by (simp add: ts_def)
  also have "\<dots> = map_option persisted (map_of (routes_hot g @ routes_cold g) s)"
    by (simp only: map_of_map) (simp add: comp_def)
  also have "map_of (routes_hot g @ routes_cold g) s = visible g s"
  proof -
    have "hm_get (routes_hot g) s = None \<or> hm_get (routes_cold g) s = None"
      using wf by (simp add: store_wf_def)
    then show ?thesis by (auto simp: visible_def hm_get_def map_add_def split: option.split)
  qed
  finally show "map_of (map (\<lambda>t. (rt_signature t, persisted t)) ts) s = map_option persisted (visible g s)" .
  show "length ts = route_count g"
    by (simp add: ts_def route_count_def hm_values_def hm_len_def)
qed

text \<open>The store a process that starts on the flushed file has after loading it.\<close>

definition reloaded :: "serde \<Rightarrow> store \<Rightarrow> files \<Rightarrow> nat \<times> store" where
  "reloaded J g fs =
     load_routes_from_disk J (hm_get (flush_routes_to_disk J Saved g fs) routes_json_path) store_new"

lemma load_flushed:
  assumes "serde_lawful J" and inv: "store_inv B L g" and enc: "enc_routes J (route_file_of g) = Some s"
    and g0: "routes_hot g0 = []" "routes_cold g0 = []" "hop_pair_index g0 = []"
  obtains g' where "load_routes_from_disk J (Some s) g0 = (route_count g, g')"
    "\<And>s. visible g' s = map_option persisted (visible g s)"
    "\<And>k. hm_get (hop_pair_index g') k = hm_get (hop_pair_index g) k"
    "hm_wf (routes_hot g')" "hm_len (routes_hot g') = route_count g" "routes_cold g' = []"
    "hops g' = hops g0" "hm_wf (hop_pair_index g')"
proof -
  define ts where "ts = hm_values (routes_hot g) @ hm_values (routes_cold g)"
  have wf: "store_wf g" using inv by (simp add: store_inv_def)
  have "hm_wf (rf_hop_pairs (route_file_of g))"
    using wf by (simp add: route_file_of_def store_wf_def hm_wf_def comp_def case_prod_unfold)
  then obtain hp where dec: "dec_routes J s = Some (route_file_of g\<lparr>rf_hop_pairs := hp\<rparr>)"
      "same_map (rf_hop_pairs (route_file_of g)) hp"
    using assms(1) enc unfolding serde_lawful_def by (metis option.inject)
  note fl = flushed_templates [OF inv, folded ts_def]
  obtain g1 where g1: "foldl load_route (g0, 0) (map record_of_template ts) = (g1, length ts)"
      "hm_get (routes_hot g1) = map_of (map (\<lambda>t. (rt_signature t, persisted t)) ts)"
      "hm_wf (routes_hot g1)" "hm_len (routes_hot g1) = length ts" "routes_cold g1 = []"
      "hop_pair_index g1 = []" "hops g1 = hops g0"
    using load_routes_fold [OF fl(1), of g0 0]
    by (auto simp: empty_map_add g0 visible_def hm_len_def [of "[]"])
  have wf_pairs: "hm_wf m \<Longrightarrow> hm_wf (foldl load_pair m hp)" for m
    by (induction hp arbitrary: m) (auto simp: load_pair_def hm_intros split: option.split)
  show thesis
  proof
    show "load_routes_from_disk J (Some s) g0 = (route_count g, g1\<lparr>hop_pair_index := foldl load_pair [] hp\<rparr>)"
      using g1(1) fl(3) by (simp add: load_routes_from_disk_def dec(1) route_file_of_def g1(6) flip: map_append ts_def)
    show "visible (g1\<lparr>hop_pair_index := foldl load_pair [] hp\<rparr>) s' = map_option persisted (visible g s')" for s'
      using fl(2) [of s'] by (simp add: visible_def g1(2,5) split: option.split)
    show "hm_get (hop_pair_index (g1\<lparr>hop_pair_index := foldl load_pair [] hp\<rparr>)) k = hm_get (hop_pair_index g) k" for k
      using load_pairs_roundtrip [of "hop_pair_index g" hp] dec(2) by (simp add: route_file_of_def)
    show "hm_len (routes_hot (g1\<lparr>hop_pair_index := foldl load_pair [] hp\<rparr>)) = route_count g"
      using g1(4) fl(3) by simp
  qed (simp_all add: g1 wf_pairs)
qed

lemma flushed_content:
  assumes "serde_lawful J" "store_wf g"
  obtains s where "enc_routes J (route_file_of g) = Some s"
    "hm_get (flush_routes_to_disk J Saved g fs) routes_json_path = Some s"
proof -
  have "hm_wf (rf_hop_pairs (route_file_of g))"
    using assms(2) by (simp add: route_file_of_def store_wf_def hm_wf_def comp_def case_prod_unfold)
  then obtain s where "enc_routes J (route_file_of g) = Some s"
    using assms(1) unfolding serde_lawful_def by blast
  with that show thesis using flush_routes_get [of routes_json_path J Saved g fs] by simp
qed

lemma reloaded_store:
  fixes B ops
  assumes "serde_lawful J"
  defines "g \<equiv> store_run B ops"
  obtains g' where "reloaded J g fs = (route_count g, g')"
    "\<And>s. visible g' s = map_option persisted (visible g s)"
    "\<And>k. hm_get (hop_pair_index g') k = hm_get (hop_pair_index g) k"
    "hm_wf (routes_hot g')" "hm_len (routes_hot g') = route_count g" "routes_cold g' = []"
proof -
  obtain s where s: "enc_routes J (route_file_of g) = Some s"
      "hm_get (flush_routes_to_disk J Saved g fs) routes_json_path = Some s"
    using flushed_content [OF assms(1), of g fs] by (auto simp: g_def store_run_wf)
  have "store_inv B (fold log_step ops {}) g" by (simp add: g_def store_run_inv)
  moreover have "routes_hot store_new = []" "routes_cold store_new = []" "hop_pair_index store_new = []"
    by (simp_all add: store_new_def)
  ultimately show thesis
    by (rule load_flushed [OF assms(1) _ s(1)]) (rule that, simp_all add: reloaded_def s(2))
qed

text \<open>
  Property C23. Round trip of the routes: loading the flushed file into an empty store finds every
  route the flushed store had, hot or cold, with everything but its per-amount cache, reports
  their number, and restores the hop-pair index.
\<close>

theorem routes_flush_load:
  assumes "serde_lawful J"
  shows "fst (reloaded J (store_run B ops) fs) = route_count (store_run B ops) \<and>
    visible (snd (reloaded J (store_run B ops) fs)) s = map_option persisted (visible (store_run B ops) s) \<and>
    hm_get (hop_pair_index (snd (reloaded J (store_run B ops) fs))) k
      = hm_get (hop_pair_index (store_run B ops)) k"
  using reloaded_store [OF assms, of B ops fs] by (metis fst_conv snd_conv)

theorem routes_flush_load_witness:
  "fst (reloaded plain_serde (store_run plain_engine [Insert 7 sample_base 10 25 JNull]) []) = 1 \<and>
   visible (snd (reloaded plain_serde (store_run plain_engine [Insert 7 sample_base 10 25 JNull]) [])) 7
     = Some (persisted (fresh_template plain_engine 7 sample_base 10 25))"
proof -
  let ?g = "store_run plain_engine [Insert 7 sample_base 10 25 JNull]"
  have "visible ?g 7 = Some (fresh_template plain_engine 7 sample_base 10 25)"
    by (simp add: store_run_def insert_route_new visible_push)
  moreover have "route_count ?g = 1"
    by (simp add: store_run_def insert_route_new [OF visible_new] push_hot_route_def index_pair_def
        pair_key_def route_count_def)
      (simp add: store_new_def hm_len_def hm_insert_def ROUTE_SEG_CAP_def Let_def)
  ultimately show ?thesis
    using routes_flush_load [OF plain_serde_lawful, of plain_engine "[Insert 7 sample_base 10 25 JNull]" "[]" 7]
    by simp
qed

text \<open>
  RAM serving works across a restart for exactly the routes with discovered offsets:
  such a route serves every amount, by its base instruction with the two amounts rewritten; a
  route without them serves nothing until it is inserted again, even for amounts it had cached.
\<close>

theorem restart_serves_patchable:
  assumes "serde_lawful J" "b64_lawful B" "visible (store_run B ops) s = Some t"
  shows "\<exists>t'. visible (snd (reloaded J (store_run B ops) fs)) s = Some t' \<and>
    (if rt_in_offset t = None then serve_route B t' amt out = None
     else \<exists>r. serve_route B t' amt out = Some r \<and>
       patched_from B (rt_swap_ixs t) (rt_template_in_amount t) (rt_template_quoted_out t) amt r)"
proof -
  have vis: "visible (snd (reloaded J (store_run B ops) fs)) s = Some (persisted t)"
    using reloaded_store [OF assms(1), of B ops fs] assms(3) by (metis snd_conv option.map(2))
  have fields: "rt_swap_ixs (persisted t) = rt_swap_ixs t" "rt_in_offset (persisted t) = rt_in_offset t"
      "rt_out_offset (persisted t) = rt_out_offset t" "hm_get (rt_amount_variants (persisted t)) amt = None"
      "rt_template_in_amount (persisted t) = rt_template_in_amount t"
      "rt_template_quoted_out (persisted t) = rt_template_quoted_out t"
    by (simp_all add: persisted_def)
  have "\<exists>r. serve_route B (persisted t) amt out = Some r \<and>
       patched_from B (rt_swap_ixs t) (rt_template_in_amount t) (rt_template_quoted_out t) amt r"
    if "rt_in_offset t \<noteq> None"
  proof -
    let ?o = "Option.bind (b64_decode B (ix_data (swap_instruction (rt_swap_ixs t))))
        (\<lambda>d. discover_offsets d (rt_template_in_amount t) (rt_template_quoted_out t))"
    have "rt_in_offset t = map_option fst ?o" "rt_out_offset t = map_option snd ?o"
      using store_run_inv [of B ops] assms(3)
      by (auto simp: store_inv_def tmpl_ok_def fresh_template_def Let_def)
    with that obtain d i j where "b64_decode B (ix_data (swap_instruction (rt_swap_ixs t))) = Some d"
        "discover_offsets d (rt_template_in_amount t) (rt_template_quoted_out t) = Some (i, j)"
        "rt_in_offset t = Some i" "rt_out_offset t = Some j"
      by (cases ?o) (auto simp: bind_eq_Some_conv)
    with serve_route_patches [OF assms(2), of "persisted t" d i j amt out] show ?thesis
      by (metis fields)
  qed
  moreover have "serve_route B (persisted t) amt out = None" if "rt_in_offset t = None"
    using that fields by (simp add: serve_route_def)
  ultimately show ?thesis using vis by auto
qed

theorem restart_serves_patchable_witness:
  "\<exists>t' r. visible (snd (reloaded plain_serde (store_run plain_engine [Insert 7 sample_base 10 25 JNull]) [])) 7 = Some t' \<and>
     serve_route plain_engine t' 50 0 = Some r \<and> patched_from plain_engine sample_base 10 25 50 r"
proof -
  let ?ops = "[Insert 7 sample_base 10 25 JNull]"
  let ?t = "fresh_template plain_engine 7 sample_base 10 25" and ?d = "u64_to_le 10 @ u64_to_le 25"
  have vis: "visible (store_run plain_engine ?ops) 7 = Some ?t"
    by (simp add: store_run_def insert_route_new visible_push)
  have dec: "b64_decode plain_engine (ix_data (swap_instruction sample_base)) = Some ?d"
    using plain_engine_lawful by (simp add: b64_lawful_def sample_base_def sample_ixs_def)
  have off: "discover_offsets ?d 10 25 = Some (0, 0 + 8)" by code_simp
  have "rt_in_offset ?t \<noteq> None" "rt_swap_ixs ?t = sample_base" "rt_template_in_amount ?t = 10"
      "rt_template_quoted_out ?t = 25"
    using dec off by (simp_all add: fresh_template_def)
  then show ?thesis
    using restart_serves_patchable [OF plain_serde_lawful plain_engine_lawful vis, of "[]" 50 0]
    by auto
qed

text \<open>\<open>n\<close> inserts of different routes.\<close>

definition fill :: "nat \<Rightarrow> store_op list" where
  "fill n = map (\<lambda>i. Insert (of_nat i) (sample_ixs []) 0 0 JNull) [0..<n]"

lemma of_nat_u128_inject: "m < 2 ^ 128 \<Longrightarrow> n < 2 ^ 128 \<Longrightarrow> (of_nat m :: u128) = of_nat n \<longleftrightarrow> m = n"
  by (simp add: of_nat_eq_iff word_unat_eq_iff unat_of_nat)

lemma fill_step:
  "store_run B (fill (Suc n)) = insert_route B (of_nat n) (sample_ixs []) 0 0 JNull (store_run B (fill n))"
  by (simp add: store_run_def fill_def)

lemma fill_hot:
  assumes "n \<le> ROUTE_SEG_CAP"
  shows "hm_len (routes_hot (store_run B (fill n))) = n \<and> routes_cold (store_run B (fill n)) = [] \<and>
    (\<forall>i. n \<le> i \<longrightarrow> i < 2 ^ 128 \<longrightarrow> hm_get (routes_hot (store_run B (fill n))) (of_nat i) = None)"
  using assms
proof (induction n)
  case (Suc n)
  let ?g = "store_run B (fill n)"
  from Suc have IH: "hm_len (routes_hot ?g) = n" "routes_cold ?g = []"
      "\<And>i. n \<le> i \<Longrightarrow> i < 2 ^ 128 \<Longrightarrow> hm_get (routes_hot ?g) (of_nat i) = None"
    by auto
  have n: "n < 2 ^ 128" "n < ROUTE_SEG_CAP" using Suc.prems by (simp_all add: ROUTE_SEG_CAP_def)
  have wf: "hm_wf (routes_hot ?g)" using store_run_wf by (simp add: store_wf_def)
  have "visible ?g (of_nat n) = None" using IH(3) [of n] n IH(2) by (simp add: visible_None)
  then have "store_run B (fill (Suc n)) =
      ?g\<lparr>routes_hot := hm_insert (of_nat n) (fresh_template B (of_nat n) (sample_ixs []) 0 0) (routes_hot ?g)\<rparr>"
    using n IH(1) by (simp add: fill_step insert_route_new index_pair_def pair_key_def
        push_hot_route_def Let_def)
  moreover have "of_nat i \<noteq> (of_nat n :: u128)" if "Suc n \<le> i" "i < 2 ^ 128" for i
    using that n of_nat_u128_inject [of i n] by simp
  ultimately show ?case
    using IH n wf by (auto simp: hm.len_ins hm_simps)
qed (simp add: fill_def store_run_def store_new_def hm_len_def)

lemma fill_overflow: "route_count (store_run B (fill (Suc ROUTE_SEG_CAP))) = Suc ROUTE_SEG_CAP"
proof -
  let ?g = "store_run B (fill ROUTE_SEG_CAP)"
  have hot: "hm_len (routes_hot ?g) = ROUTE_SEG_CAP" "routes_cold ?g = []"
      "hm_get (routes_hot ?g) (of_nat ROUTE_SEG_CAP) = None"
    using fill_hot [of ROUTE_SEG_CAP B] by (auto simp: ROUTE_SEG_CAP_def)
  then have "visible ?g (of_nat ROUTE_SEG_CAP) = None" by (simp add: visible_None)
  then show ?thesis
    using hot by (simp add: fill_step insert_route_new index_pair_def pair_key_def
        push_hot_route_def Let_def route_count_def) (simp add: hm_len_def hm_insert_def)
qed

text \<open>
  Loading does not respect the segment cap: after a run that leaves 2001 live routes
  (2000 cold, one hot), flushing and loading gives a hot segment of 2001 routes, so the bound that
  every run from the empty store keeps fails after a restart.
\<close>

theorem loaded_store_overfull:
  assumes "serde_lawful J"
  shows "hm_len (routes_hot (snd (reloaded J (store_run B (fill 2001)) fs))) = 2001 \<and>
    \<not> store_wf (snd (reloaded J (store_run B (fill 2001)) fs))"
proof -
  have count: "route_count (store_run B (fill 2001)) = 2001"
    using fill_overflow [of B] by (simp add: ROUTE_SEG_CAP_def)
  obtain g' where "reloaded J (store_run B (fill 2001)) fs = (2001, g')" "hm_len (routes_hot g') = 2001"
    using reloaded_store [OF assms, of B "fill 2001" fs] unfolding count by metis
  then show ?thesis by (simp add: store_wf_def ROUTE_SEG_CAP_def)
qed

theorem loaded_store_overfull_witness:
  "hm_len (routes_hot (snd (reloaded plain_serde (store_run plain_engine (fill 2001)) []))) = 2001"
  using loaded_store_overfull [OF plain_serde_lawful, of plain_engine "[]"] by (rule conjunct1)

end
