(* ===== verification/Hop_Disk.thy ===== *)
theory Hop_Disk
  imports Disk_Properties
begin

text \<open>
  The round trip of the hop templates through \<open>cache/hops/\<close>: one file per DEX, templates keyed by
  their id, read back in whatever order the directory lists them.
\<close>

section \<open>Grouping\<close>

text \<open>What the groups built from the entries \<open>xs\<close> hold.\<close>

definition groups_ok :: "(hop_key \<times> hop_template) list \<Rightarrow> dex_groups \<Rightarrow> bool" where
  "groups_ok xs gs \<longleftrightarrow>
     hm_wf gs \<and>
     (\<forall>stem dex ts. hm_get gs stem = Some (dex, ts) \<longrightarrow> stem = file_stem dex \<and> hm_wf ts \<and>
        (\<forall>i t. hm_get ts i = Some t \<longrightarrow> (\<exists>k. (k, t) \<in> set xs))) \<and>
     (\<forall>(k, t) \<in> set xs. \<exists>ts. hm_get gs (file_stem (hk_dex k)) = Some (hk_dex k, ts) \<and>
        hm_get ts (template_id k) = Some t)"

definition group_entry :: "dex_groups \<Rightarrow> hop_key \<Rightarrow> dex_kind \<times> (string, hop_template) hmap" where
  "group_entry gs key =
     (case hm_get gs (file_stem (hk_dex key)) of Some e \<Rightarrow> e | None \<Rightarrow> (hk_dex key, []))"

lemma hm_get_group_hop:
  "hm_get (group_hop gs (key, tmpl)) stem =
     (if stem = file_stem (hk_dex key)
      then Some (fst (group_entry gs key), hm_insert (template_id key) tmpl (snd (group_entry gs key)))
      else hm_get gs stem)"
  by (simp add: group_hop_def group_entry_def hm_simps split: option.split prod.split)

lemma groups_okD:
  assumes "groups_ok xs gs"
  shows "hm_wf gs"
    and "hm_get gs stem = Some (dex, ts) \<Longrightarrow> stem = file_stem dex"
    and "hm_get gs stem = Some (dex, ts) \<Longrightarrow> hm_wf ts"
    and "hm_get gs stem = Some (dex, ts) \<Longrightarrow> hm_get ts i = Some t \<Longrightarrow> \<exists>k. (k, t) \<in> set xs"
    and "(k, t) \<in> set xs \<Longrightarrow> \<exists>ts. hm_get gs (file_stem (hk_dex k)) = Some (hk_dex k, ts) \<and>
        hm_get ts (template_id k) = Some t"
  using assms unfolding groups_ok_def by fast+

lemma group_entry_props:
  assumes "groups_ok xs gs"
  shows "fst (group_entry gs key) = hk_dex key" "hm_wf (snd (group_entry gs key))"
    and "hm_get (snd (group_entry gs key)) i = Some t \<Longrightarrow> \<exists>k. (k, t) \<in> set xs"
    and "hm_get gs (file_stem (hk_dex key)) = Some (dex, ts) \<Longrightarrow> group_entry gs key = (dex, ts)"
proof -
  have "fst (group_entry gs key) = hk_dex key \<and> hm_wf (snd (group_entry gs key)) \<and>
      (hm_get (snd (group_entry gs key)) i = Some t \<longrightarrow> (\<exists>k. (k, t) \<in> set xs))"
  proof (cases "hm_get gs (file_stem (hk_dex key))")
    case (Some p)
    moreover obtain dex ts where p: "p = (dex, ts)" by force
    ultimately have get: "hm_get gs (file_stem (hk_dex key)) = Some (dex, ts)" by simp
    note ok = groups_okD(2-4) [OF assms get]
    from get show ?thesis
      using ok(1) ok(2) ok(3) [of i t] by (auto simp: group_entry_def file_stem_inject)
  qed (simp add: group_entry_def)
  then show "fst (group_entry gs key) = hk_dex key" "hm_wf (snd (group_entry gs key))"
    "hm_get (snd (group_entry gs key)) i = Some t \<Longrightarrow> \<exists>k. (k, t) \<in> set xs" by blast+
  show "hm_get gs (file_stem (hk_dex key)) = Some (dex, ts) \<Longrightarrow> group_entry gs key = (dex, ts)"
    by (simp add: group_entry_def)
qed

lemma group_hop_keeps:
  assumes ok: "groups_ok xs gs" and kt: "(k, t) \<in> set xs" and new: "key \<notin> fst ` set xs"
    and colon: "colon_free key" "colon_free k"
  shows "\<exists>ts. hm_get (group_hop gs (key, tmpl)) (file_stem (hk_dex k)) = Some (hk_dex k, ts) \<and>
    hm_get ts (template_id k) = Some t"
proof -
  obtain ts where ts: "hm_get gs (file_stem (hk_dex k)) = Some (hk_dex k, ts)"
      "hm_get ts (template_id k) = Some t"
    using groups_okD(5) [OF ok kt] by blast
  show ?thesis
  proof (cases "hk_dex k = hk_dex key")
    case True
    have "k \<noteq> key" using imageI [OF kt, of fst] new by auto
    with True have "template_id k \<noteq> template_id key"
      using template_id_eq_iff [OF colon(2,1)] by blast
    moreover have "group_entry gs key = (hk_dex k, ts)"
      using group_entry_props(4) [OF ok, of key "hk_dex k" ts] ts(1) True by simp
    ultimately show ?thesis
      using ts(2) True by (simp add: hm_get_group_hop hm_simps)
  next
    case False
    with ts show ?thesis by (simp add: hm_get_group_hop file_stem_inject)
  qed
qed

lemma groups_ok_step:
  assumes ok: "groups_ok xs gs" and new: "key \<notin> fst ` set xs"
    and colon: "colon_free key" "\<forall>(k, t) \<in> set xs. colon_free k"
  shows "groups_ok (xs @ [(key, tmpl)]) (group_hop gs (key, tmpl))"
  unfolding groups_ok_def
proof (intro conjI allI impI)
  note e = group_entry_props [OF ok]
  show "hm_wf (group_hop gs (key, tmpl))"
    using groups_okD(1) [OF ok] by (auto simp: group_hop_def hm_intros)
  have "\<exists>ts. hm_get (group_hop gs (key, tmpl)) (file_stem (hk_dex k)) = Some (hk_dex k, ts) \<and>
      hm_get ts (template_id k) = Some t" if kt: "(k, t) \<in> set (xs @ [(key, tmpl)])" for k t
  proof (cases "(k, t) \<in> set xs")
    case True
    show ?thesis
      using group_hop_keeps [OF ok True new colon(1)] bspec [OF colon(2) True] by simp
  next
    case False
    with kt show ?thesis by (simp add: hm_get_group_hop e(1) hm_simps)
  qed
  then show "\<forall>(k, t) \<in> set (xs @ [(key, tmpl)]). \<exists>ts. hm_get (group_hop gs (key, tmpl))
      (file_stem (hk_dex k)) = Some (hk_dex k, ts) \<and> hm_get ts (template_id k) = Some t"
    by blast
next
  note e = group_entry_props [OF ok] and old = groups_okD(2-4) [OF ok]
  fix stem dex ts
  assume g: "hm_get (group_hop gs (key, tmpl)) stem = Some (dex, ts)"
  show "stem = file_stem dex"
    using g old(1) [of stem dex ts] by (auto simp: hm_get_group_hop e(1) split: if_splits)
  show "hm_wf ts"
    using g old(2) [of stem dex ts] e(2) [of key] by (auto simp: hm_get_group_hop hm_intros split: if_splits)
  show "\<exists>k. (k, t) \<in> set (xs @ [(key, tmpl)])" if "hm_get ts i = Some t" for i t
    using g that old(3) [of stem dex ts i t] e(3) [of key i t]
    by (auto simp: hm_get_group_hop hm_simps split: if_splits)
qed

lemma groups_ok_hops:
  assumes "distinct (map fst xs)" "\<forall>(k, t) \<in> set xs. colon_free k"
  shows "groups_ok xs (foldl group_hop [] xs)"
  using assms
proof (induction xs rule: rev_induct)
  case (snoc x xs)
  obtain k t where x: "x = (k, t)" by force
  from snoc have "groups_ok xs (foldl group_hop [] xs)" by auto
  then have "groups_ok (xs @ [(k, t)]) (group_hop (foldl group_hop [] xs) (k, t))"
    using snoc.prems x by (intro groups_ok_step) auto
  then show ?case by (simp add: x)
qed (simp add: groups_ok_def)

section \<open>The directory after a flush\<close>

lemma hop_file_path_inject: "hop_file_path a = hop_file_path b \<longleftrightarrow> a = b"
  by (simp add: hop_file_path_def)

lemma flush_groups_saved:
  assumes "distinct (map fst gs)" "(stem, dex, ts) \<in> set gs" "enc_hops J (hop_file dex ts) = Some s"
  shows "hm_get (foldl (flush_group J (\<lambda>_. Saved)) fs gs) (hop_file_path stem) = Some s"
  using assms
proof (induction gs rule: rev_induct)
  case (snoc gr gs)
  obtain stem' dex' ts' where gr: "gr = (stem', dex', ts')" by (cases gr) auto
  have "hop_file_path stem \<noteq> hop_file_path stem' @ ''.tmp''"
    using not_tmp_json(1) [of stem] is_tmp_append [of "hop_file_path stem'"] by metis
  from hm_get_flush_group [OF this] snoc show ?case
    by (force simp: gr hop_file_path_inject)
qed simp

lemma list_dir_iff:
  assumes "hm_wf fs"
  shows "(name, c) \<in> set (list_dir dir fs) \<longleftrightarrow>
    CHR ''/'' \<notin> set name \<and> (\<exists>s. c = Some s \<and> hm_get fs (dir @ ''/'' @ name) = Some s)"
proof
  assume "(name, c) \<in> set (list_dir dir fs)"
  then show "CHR ''/'' \<notin> set name \<and> (\<exists>s. c = Some s \<and> hm_get fs (dir @ ''/'' @ name) = Some s)"
    by (auto simp: list_dir_def prefix_def hm_get_iff_in_set [OF assms])
next
  assume r: "CHR ''/'' \<notin> set name \<and> (\<exists>s. c = Some s \<and> hm_get fs (dir @ ''/'' @ name) = Some s)"
  then obtain s where s: "c = Some s" "(dir @ ''/'' @ name, s) \<in> set fs"
    by (auto simp: hm_get_iff_in_set [OF assms])
  let ?p = "\<lambda>(p, c). prefix (dir @ ''/'') p \<and> CHR ''/'' \<notin> set (drop (length dir + 1) p)"
  have "(dir @ ''/'' @ name, s) \<in> set (filter ?p fs)"
    using s(2) r by (simp add: prefix_def)
  then have "(drop (length dir + 1) (dir @ ''/'' @ name), Some s) \<in> set (list_dir dir fs)"
    unfolding list_dir_def set_map by (rule rev_image_eqI) simp
  then show "(name, c) \<in> set (list_dir dir fs)" by (simp add: s(1))
qed

lemma extension_json [simp]: "extension (stem @ ''.json'') = (if stem = [] then None else Some ''json'')"
  by (simp add: extension_def Let_def)

lemma extension_tmp: "extension (n @ ''.tmp'') \<noteq> Some ''json''"
  by (simp add: extension_def Let_def)

lemma json_not_tmp:
  assumes "extension name = Some ''json''"
  shows "\<not> is_tmp (dir @ name)"
proof
  assume "is_tmp (dir @ name)"
  then obtain q where "dir @ name = q @ ''.tmp''" by (auto simp: is_tmp_def suffix_def)
  then obtain us where "us @ name = ''.tmp'' \<or> name = us @ ''.tmp''"
    by (auto simp: append_eq_append_conv2)
  then show False
  proof
    assume "us @ name = ''.tmp''"
    then have "extension name = None"
      by (auto simp: append_eq_Cons_conv extension_def)
    with assms show False by simp
  next
    assume "name = us @ ''.tmp''"
    with assms extension_tmp show False by metis
  qed
qed

lemma file_stem_plain: "file_stem d \<noteq> []" "CHR ''/'' \<notin> set (file_stem d)"
  by (cases d; simp)+

section \<open>Loading\<close>

definition file_templates :: "serde \<Rightarrow> string \<times> string option \<Rightarrow> hop_template list" where
  "file_templates J = (\<lambda>(name, content).
     if extension name \<noteq> Some ''json'' then []
     else (case Option.bind content (dec_hops J) of None \<Rightarrow> [] | Some f \<Rightarrow> map snd (df_templates f)))"

definition by_key :: "hop_template list \<Rightarrow> (hop_key \<times> hop_template) list" where
  "by_key ts = map (\<lambda>t. (template_key t, t)) ts"

lemma load_hop_entry_fst:
  "fst (load_hop_entry J e (m, n)) =
     foldl (\<lambda>m (k, v). if hm_get m k = None then hm_insert k v m else m) m (by_key (file_templates J e))"
proof -
  have "foldl load_template m kvs =
      foldl (\<lambda>m (k, v). if hm_get m k = None then hm_insert k v m else m) m (by_key (map snd kvs))" for m kvs
    by (induction kvs arbitrary: m)
      (auto simp: by_key_def load_template_def hm_or_insert_def split: option.split)
  then show ?thesis
    by (cases e) (auto simp: load_hop_entry_def file_templates_def by_key_def split: option.split)
qed

lemma load_hop_entries_get:
  "hm_get (fst (fold (load_hop_entry J) es (m, n))) k =
     (case hm_get m k of Some v \<Rightarrow> Some v
      | None \<Rightarrow> map_of (by_key (concat (map (file_templates J) es))) k)"
proof (induction es arbitrary: m n)
  case (Cons e es)
  obtain m' n' where e: "load_hop_entry J e (m, n) = (m', n')" by force
  then have "hm_get m' k = (case hm_get m k of Some v \<Rightarrow> Some v
      | None \<Rightarrow> map_of (by_key (file_templates J e)) k)"
    using load_hop_entry_fst [of J e m n] hm.get_fold_or_insert [of m "by_key (file_templates J e)" k] by simp
  with Cons.IH [of m' n'] show ?case
    by (simp add: e by_key_def map_add_def split: option.split)
qed (simp add: by_key_def split: option.split)

lemma load_hops_exact:
  assumes "\<And>t. t \<in> set (concat (map (file_templates J) es)) \<Longrightarrow> hm_get H (template_key t) = Some t"
    and "\<And>k t. hm_get H k = Some t \<Longrightarrow> template_key t = k \<and> t \<in> set (concat (map (file_templates J) es))"
  shows "hm_get (hops (snd (load_from_disk J (Some es) store_new))) k = hm_get H k"
proof -
  let ?ts = "concat (map (file_templates J) es)"
  have "map_of (by_key ?ts) k = hm_get H k"
  proof (cases "hm_get H k")
    case None
    then have "k \<notin> fst ` set (by_key ?ts)" using assms(1) by (force simp: by_key_def simp del: set_concat)
    with None show ?thesis by (simp add: map_of_eq_None_iff)
  next
    case (Some t)
    then have "k \<in> fst ` set (by_key ?ts)"
      using assms(2) [OF Some] by (force simp: by_key_def simp del: set_concat)
    then obtain u where u: "map_of (by_key ?ts) k = Some u"
      by (metis map_of_eq_None_iff option.exhaust)
    then have "(k, u) \<in> set (by_key ?ts)" by (rule map_of_SomeD)
    then have "u \<in> set ?ts" "k = template_key u" by (auto simp: by_key_def)
    with assms(1) [of u] Some u show ?thesis by simp
  qed
  then show ?thesis
    using load_hop_entries_get [of J es "[]" 0 k]
    by (simp add: load_from_disk_def store_new_def case_prod_unfold Let_def)
qed

lemma hop_file_encodes:
  assumes "serde_lawful J" "hm_wf ts"
  shows "\<exists>s ts'. enc_hops J (hop_file dex ts) = Some s \<and>
    dec_hops J s = Some (hop_file dex ts\<lparr>df_templates := ts'\<rparr>) \<and> same_map ts ts'"
proof -
  have "hm_wf (df_templates (hop_file dex ts))" using assms(2) by (simp add: hop_file_def)
  moreover have "df_templates (hop_file dex ts) = ts" by (simp add: hop_file_def)
  ultimately show ?thesis using assms(1) unfolding serde_lawful_def by metis
qed

text \<open>The files of other DEXes a directory may hold beforehand: none that a loader would read.\<close>

definition no_stale_files :: "store \<Rightarrow> files \<Rightarrow> bool" where
  "no_stale_files g fs \<longleftrightarrow> hm_wf fs \<and>
     list_all (\<lambda>(name, c). extension name \<noteq> Some ''json'' \<or>
       name \<in> (\<lambda>(stem, _). stem @ ''.json'') ` set (hop_groups g)) (list_dir hops_dir fs)"

lemma flushed_entry:
  assumes "serde_lawful J" "no_stale_files g fs" "groups_ok (hops g) (hop_groups g)"
    and "(name, c) \<in> set (list_dir hops_dir (flush_to_disk J r (\<lambda>_. Saved) g fs))"
      "extension name = Some ''json''"
  obtains dex ts ts' where "hm_get (hop_groups g) (file_stem dex) = Some (dex, ts)" "same_map ts ts'"
    "file_templates J (name, c) = map snd ts'"
proof -
  let ?mid = "flush_routes_to_disk J r g fs"
  let ?fs = "flush_to_disk J r (\<lambda>_. Saved) g fs" and ?p = "hops_dir @ ''/'' @ name"
  have wf: "hm_wf ?mid" "hm_wf ?fs"
    using assms(2) by (auto simp: no_stale_files_def flush_to_disk_def flush_routes_to_disk_def
        hm_wf_save_file intro!: hm_wf_flush_groups split: option.split)
  from assms(4) obtain s where s: "CHR ''/'' \<notin> set name" "c = Some s" "hm_get ?fs ?p = Some s"
    by (auto simp: list_dir_iff [OF wf(2)])
  have ntmp: "\<not> is_tmp ?p"
    using json_not_tmp [OF assms(5), of "hops_dir @ ''/''"] by simp
  have nroutes: "?p \<noteq> routes_json_path" by (simp add: hops_dir_def routes_json_path_def)
  have "name \<in> (\<lambda>(stem, _). stem @ ''.json'') ` set (hop_groups g)"
  proof (rule ccontr)
    assume no: "name \<notin> (\<lambda>(stem, _). stem @ ''.json'') ` set (hop_groups g)"
    then have "\<not> (\<exists>(stem, dex, ts) \<in> set (hop_groups g). ?p = hop_file_path stem)"
      by (force simp: hop_file_path_def)
    then have "hm_get ?fs ?p = hm_get fs ?p"
      using flush_groups_old_or_new [OF ntmp, of J "\<lambda>_. Saved" ?mid "hop_groups g"]
        flush_routes_get [OF ntmp, of J r g fs] nroutes
      unfolding flush_to_disk_def by auto
    then have "(name, c) \<in> set (list_dir hops_dir fs)"
      using s assms(2) by (simp add: list_dir_iff no_stale_files_def)
    with assms(2,5) no show False by (fastforce simp: no_stale_files_def list_all_iff)
  qed
  then obtain stem dex ts where gr: "(stem, dex, ts) \<in> set (hop_groups g)" "name = stem @ ''.json''" by auto
  then have get: "hm_get (hop_groups g) stem = Some (dex, ts)"
    using hm_get_iff_in_set groups_okD(1) [OF assms(3)] by fastforce
  have stem: "stem = file_stem dex" and "hm_wf ts"
    using groups_okD(2,3) [OF assms(3) get] by auto
  then obtain s' ts' where s': "enc_hops J (hop_file dex ts) = Some s'"
      "dec_hops J s' = Some (hop_file dex ts\<lparr>df_templates := ts'\<rparr>)" "same_map ts ts'"
    using hop_file_encodes [OF assms(1)] by blast
  have "distinct (map fst (hop_groups g))" using groups_okD(1) [OF assms(3)] by (simp add: hm_wf_def)
  then have "hm_get ?fs (hop_file_path stem) = Some s'"
    using flush_groups_saved [OF _ gr(1) s'(1)] by (simp add: flush_to_disk_def)
  then have "c = Some s'" using s gr(2) by (simp add: hop_file_path_def)
  then have "file_templates J (name, c) = map snd ts'"
    using s'(2) assms(5) by (simp add: file_templates_def hop_file_def)
  with that [OF get [unfolded stem] s'(3)] show thesis .
qed

lemma group_file_listed:
  assumes "serde_lawful J" "hm_wf fs" "groups_ok (hops g) (hop_groups g)"
    and "hm_get (hop_groups g) (file_stem dex) = Some (dex, ts)"
  obtains c ts' where
    "(file_stem dex @ ''.json'', c) \<in> set (list_dir hops_dir (flush_to_disk J r (\<lambda>_. Saved) g fs))"
    "file_templates J (file_stem dex @ ''.json'', c) = map snd ts'" "same_map ts ts'"
proof -
  have wf: "hm_wf (flush_to_disk J r (\<lambda>_. Saved) g fs)"
    using assms(2) by (auto simp: flush_to_disk_def flush_routes_to_disk_def
        hm_wf_save_file intro!: hm_wf_flush_groups split: option.split)
  have "hm_wf ts" using groups_okD(3) [OF assms(3,4)] .
  then obtain s ts' where s: "enc_hops J (hop_file dex ts) = Some s"
      "dec_hops J s = Some (hop_file dex ts\<lparr>df_templates := ts'\<rparr>)" "same_map ts ts'"
    using hop_file_encodes [OF assms(1)] by blast
  have d: "distinct (map fst (hop_groups g))" and m: "(file_stem dex, dex, ts) \<in> set (hop_groups g)"
    using groups_okD(1) [OF assms(3)] hm_get_Some_in_set [OF assms(4)] by (simp_all add: hm_wf_def)
  have "hm_get (flush_to_disk J r (\<lambda>_. Saved) g fs) (hop_file_path (file_stem dex)) = Some s"
    using flush_groups_saved [OF d m s(1)] by (simp add: flush_to_disk_def)
  then have "(file_stem dex @ ''.json'', Some s) \<in> set (list_dir hops_dir (flush_to_disk J r (\<lambda>_. Saved) g fs))"
    using file_stem_plain [of dex] by (simp add: list_dir_iff [OF wf] hop_file_path_def)
  moreover have "file_templates J (file_stem dex @ ''.json'', Some s) = map snd ts'"
    using s(2) file_stem_plain(1) [of dex] by (simp add: file_templates_def hop_file_def)
  ultimately show thesis using s(3) that by blast
qed

definition colon_free_hops :: "store \<Rightarrow> bool" where
  "colon_free_hops g \<longleftrightarrow> list_all (\<lambda>(k, t). colon_free k) (hops g)"

text \<open>
  Property C25. Round trip of the hops: on stores whose addresses contain no colon, after a flush
  whose hop files were all written, loading the directory, in whatever order it lists the files,
  into an empty store gives back exactly the hop table, every template under its own key. No two
  hops share a file row, and no file overwrites another.
\<close>

theorem hops_flush_load:
  assumes "serde_lawful J" "colon_free_hops (store_run B ops)" "no_stale_files (store_run B ops) fs"
    and "set es = set (list_dir hops_dir (flush_to_disk J r (\<lambda>_. Saved) (store_run B ops) fs))"
  shows "hm_get (hops (snd (load_from_disk J (Some es) store_new))) k = hm_get (hops (store_run B ops)) k"
proof -
  let ?g = "store_run B ops"
  have wf: "hm_wf (hops ?g)" and keys: "\<And>k t. hm_get (hops ?g) k = Some t \<Longrightarrow> template_key t = k"
    using store_run_wf [of B ops] by (simp_all add: store_wf_def)
  have "\<forall>(k, t) \<in> set (hops ?g). colon_free k"
    using assms(2) by (simp add: colon_free_hops_def list_all_iff)
  with wf have ok: "groups_ok (hops ?g) (hop_groups ?g)"
    unfolding hop_groups_def hm_wf_def by (intro groups_ok_hops)
  show ?thesis
  proof (rule load_hops_exact)
    fix t
    assume "t \<in> set (concat (map (file_templates J) es))"
    then obtain name c where e: "(name, c) \<in> set es" "t \<in> set (file_templates J (name, c))" by auto
    then have json: "extension name = Some ''json''" by (auto simp: file_templates_def split: if_splits)
    from e(1) assms(4) have "(name, c) \<in> set (list_dir hops_dir (flush_to_disk J r (\<lambda>_. Saved) ?g fs))" by simp
    from flushed_entry [OF assms(1,3) ok this json] obtain dex ts ts' where
      g: "hm_get (hop_groups ?g) (file_stem dex) = Some (dex, ts)" "same_map ts ts'"
      "file_templates J (name, c) = map snd ts'" .
    from e(2) g(3) obtain i where "(i, t) \<in> set ts'" by auto
    with g(2) have "hm_get ts i = Some t" by (metis hm_get_iff_in_set same_map_def)
    from groups_okD(4) [OF ok g(1) this] obtain k where "(k, t) \<in> set (hops ?g)" by auto
    then have "hm_get (hops ?g) k = Some t" by (simp add: hm_get_iff_in_set [OF wf])
    with keys show "hm_get (hops ?g) (template_key t) = Some t" by metis
  next
    fix k t
    assume kt: "hm_get (hops ?g) k = Some t"
    from groups_okD(5) [OF ok hm_get_Some_in_set [OF kt]] obtain ts where
      g: "hm_get (hop_groups ?g) (file_stem (hk_dex k)) = Some (hk_dex k, ts)" "hm_get ts (template_id k) = Some t"
      by blast
    have "hm_wf fs" using assms(3) by (simp add: no_stale_files_def)
    from group_file_listed [OF assms(1) this ok g(1), of r] obtain c ts' where
      c: "(file_stem (hk_dex k) @ ''.json'', c) \<in> set es"
      "file_templates J (file_stem (hk_dex k) @ ''.json'', c) = map snd ts'" "same_map ts ts'"
      using assms(4) by auto
    have "(template_id k, t) \<in> set ts'"
      using c(3) g(2) by (metis hm_get_Some_in_set same_map_def)
    then have "t \<in> set (concat (map (file_templates J) es))"
      using c(1,2) by force
    with keys kt show "template_key t = k \<and> t \<in> set (concat (map (file_templates J) es))" by blast
  qed
qed

text \<open>One hop recorded from a plan.\<close>

definition sample_plan :: json where
  "sample_plan = JArray [JObject [(''swapInfo'', JObject
     [(''ammKey'', JString ''p1''), (''inputMint'', JString ''A''), (''outputMint'', JString ''B''),
      (''label'', JString ''Whirlpool'')])]]"

definition sample_hop_key :: hop_key where
  "sample_hop_key = \<lparr>hk_dex = Whirlpool, hk_pool = ''p1'', hk_input_mint = ''A'', hk_output_mint = ''B'',
     hk_direction = DirNone, hk_remaining_hash = 0\<rparr>"

theorem hops_flush_load_witness:
  "hm_get (hops (snd (load_from_disk plain_serde
      (Some (list_dir hops_dir (flush_to_disk plain_serde Open_failed (\<lambda>_. Saved)
        (store_run plain_engine [RecordHops sample_plan None]) []))) store_new))) sample_hop_key
   = Some (touch_hop None (new_hop_template sample_hop_key None))"
proof -
  let ?g = "store_run plain_engine [RecordHops sample_plan None]"
  have "hop_key_of (JObject [(''swapInfo'', JObject
     [(''ammKey'', JString ''p1''), (''inputMint'', JString ''A''), (''outputMint'', JString ''B''),
      (''label'', JString ''Whirlpool'')])]) = Some sample_hop_key" by code_simp
  then have hops: "hops ?g = [(sample_hop_key, touch_hop None (new_hop_template sample_hop_key None))]"
    by (simp add: store_run_def record_hops_def sample_plan_def record_hop_def store_new_def
        hm_or_insert_def hm_insert_def hm_modify_def)
  then have "colon_free_hops ?g"
    by (simp add: colon_free_hops_def colon_free_def sample_hop_key_def)
  moreover have "no_stale_files ?g []" by (simp add: no_stale_files_def list_dir_def)
  ultimately show ?thesis
    using hops_flush_load [OF plain_serde_lawful, of plain_engine "[RecordHops sample_plan None]" "[]"
        _ Open_failed sample_hop_key] by (simp add: hops hm_get_def)
qed

end
