(* ===== verification/End_To_End.thy ===== *)
theory End_To_End
  imports Pipeline_Properties Worker_Properties
begin

text \<open>
  The way of an opportunity through the whole bot: what the scanner queues (\<open>Pipeline\<close>) is what the
  workers pop (\<open>Worker\<close>), build into a transaction (\<open>Transaction\<close>) and send. \<open>bot_run\<close> is the worker pool
  with the code's builder in place of the open environment and a log of what the pushers queued.
\<close>

text \<open>
  The build step of a worker (\<open>spawn_blocking\<close> around \<open>build_arb_transaction\<close>): the error is dropped, the
  tip is the constant. The cached tables, the random tip account and the blockhash are those of the
  moment.
\<close>

definition worker_build ::
    "sdk \<Rightarrow> (pubkey \<Rightarrow> bytes option) \<Rightarrow> pubkey \<Rightarrow> nat \<Rightarrow> bytes \<Rightarrow> alt_cache \<Rightarrow>
     swap_instructions_response \<Rightarrow> u32 \<Rightarrow> versioned_transaction option" where
  "worker_build S rpc payer choice recent_blockhash c swap_ixs cu_limit =
     (case fst (build_arb_transaction S rpc choice swap_ixs payer JITO_TIP_LAMPORTS cu_limit recent_blockhash c) of
        Inr tx \<Rightarrow> Some tx
      | Inl _ \<Rightarrow> None)"

lemma worker_build_Some:
  "worker_build S rpc payer choice hash c ixs cu = Some tx \<longleftrightarrow>
     fst (build_arb_transaction S rpc choice ixs payer JITO_TIP_LAMPORTS cu hash c) = Inr tx"
  by (auto simp: worker_build_def split: sum.splits)

type_synonym push_log = "(swap_instructions_response \<times> nat) set"

inductive bot_run ::
    "sdk \<Rightarrow> (pubkey \<Rightarrow> bytes option) \<Rightarrow> pubkey \<Rightarrow> worker_config \<Rightarrow> pool \<times> point list \<Rightarrow>
     pool \<times> point list \<Rightarrow> push_log \<Rightarrow> bool"
  for S rpc payer W st0 where
  start: "bot_run S rpc payer W st0 st0 {}"
| thread: "bot_run S rpc payer W st0 (s, ps) log \<Longrightarrow> i < length ps \<Longrightarrow> alt_cache_ok c \<Longrightarrow>
    e_build E = worker_build S rpc payer choice hash c \<Longrightarrow> advance W E (ps ! i) s = Some (p, s') \<Longrightarrow>
    bot_run S rpc payer W st0 (s', ps[i := p]) log"
| pusher: "bot_run S rpc payer W st0 (s, ps) log \<Longrightarrow>
    bot_run S rpc payer W st0 (s, ps @ [Push_item (new_item now ixs hop_count)]) (insert (ixs, hop_count) log)"

lemma bot_run_reach: "bot_run S rpc payer W st0 st log \<Longrightarrow> pool_reach W st0 st"
  by (induction rule: bot_run.induct) (auto intro: pool_reach.intros pool_step.intros)

section \<open>Where a transaction comes from\<close>

definition item_from :: "push_log \<Rightarrow> ready_instruction \<Rightarrow> bool" where
  "item_from log item \<longleftrightarrow> (ri_swap_ixs item, ri_hop_count item) \<in> log"

text \<open>\<open>tx\<close> was built by some worker from a queued instruction.\<close>

definition built_from ::
    "sdk \<Rightarrow> (pubkey \<Rightarrow> bytes option) \<Rightarrow> pubkey \<Rightarrow> worker_config \<Rightarrow> push_log \<Rightarrow> versioned_transaction \<Rightarrow> bool" where
  "built_from S rpc payer W log tx \<longleftrightarrow>
     (\<exists>ixs hops choice hash c. (ixs, hops) \<in> log \<and> alt_cache_ok c \<and>
        worker_build S rpc payer choice hash c ixs (lookup_cu_limit hops (wc_cu_limits W)) = Some tx)"

fun point_ok ::
    "(ready_instruction \<Rightarrow> bool) \<Rightarrow> (versioned_transaction \<Rightarrow> bool) \<Rightarrow> point \<Rightarrow> bool" where
  "point_ok I T (Counting_pop item) = I item"
| "point_ok I T (Holding item) = I item"
| "point_ok I T (Acquiring item) = I item"
| "point_ok I T (Acquiring_grpc item) = I item"
| "point_ok I T (Refused item) = I item"
| "point_ok I T (Building use_grpc item) = I item"
| "point_ok I T (Push_item item) = I item"
| "point_ok I T (Built use_grpc tx) = T tx"
| "point_ok I T (Sending use_grpc tx) = T tx"
| "point_ok I T _ = True"

lemma point_ok_mono:
  "point_ok I T p \<Longrightarrow> (\<And>i. I i \<Longrightarrow> I' i) \<Longrightarrow> (\<And>t. T t \<Longrightarrow> T' t) \<Longrightarrow> point_ok I' T' p"
  by (cases p) auto

lemma advance_point_ok:
  assumes "advance W E q s = Some (p, s')" "point_ok I T q" "\<forall>item \<in> set (p_lifo s). I item"
    and waits: "\<And>item. I item \<Longrightarrow> I (item\<lparr>ri_waited_for_slot := True\<rparr>)"
    and builds: "\<And>item tx. I item \<Longrightarrow>
      e_build E (ri_swap_ixs item) (lookup_cu_limit (ri_hop_count item) (wc_cu_limits W)) = Some tx \<Longrightarrow> T tx"
  shows "point_ok I T p \<and> (\<forall>item \<in> set (p_lifo s'). I item)"
proof (cases q)
  case Popping
  with assms(1,3) in_set_butlastD [of _ "p_lifo s"] show ?thesis
    by (auto split: if_splits)
qed (use assms in \<open>auto simp: Let_def split: if_splits option.splits prod.splits\<close>)

definition bot_inv ::
    "sdk \<Rightarrow> (pubkey \<Rightarrow> bytes option) \<Rightarrow> pubkey \<Rightarrow> worker_config \<Rightarrow> push_log \<Rightarrow> pool \<times> point list \<Rightarrow> bool" where
  "bot_inv S rpc payer W log = (\<lambda>(s, ps).
     (\<forall>item \<in> set (p_lifo s). item_from log item) \<and>
     (\<forall>p \<in> set ps. point_ok (item_from log) (built_from S rpc payer W log) p))"

lemma bot_inv_run:
  "bot_run S rpc payer W (spawn_workers n rate grpc) st log \<Longrightarrow> bot_inv S rpc payer W log st"
proof (induction rule: bot_run.induct)
  case start
  show ?case by (auto simp: bot_inv_def spawn_workers_def)
next
  case (thread s ps log i c E choice hash p s')
  then have "point_ok (item_from log) (built_from S rpc payer W log) (ps ! i)"
    by (auto simp: bot_inv_def)
  moreover have "\<forall>item \<in> set (p_lifo s). item_from log item"
    using thread.IH by (simp add: bot_inv_def)
  moreover have "item_from log (item\<lparr>ri_waited_for_slot := True\<rparr>)" if "item_from log item" for item
    using that by (simp add: item_from_def)
  moreover have "built_from S rpc payer W log tx"
    if "item_from log item"
      "e_build E (ri_swap_ixs item) (lookup_cu_limit (ri_hop_count item) (wc_cu_limits W)) = Some tx" for item tx
    using that thread.hyps(3,4) unfolding item_from_def built_from_def by metis
  ultimately have "point_ok (item_from log) (built_from S rpc payer W log) p \<and> (\<forall>item \<in> set (p_lifo s'). item_from log item)"
    by (intro advance_point_ok [OF thread.hyps(5)])
  with thread.IH show ?case
    by (auto simp: bot_inv_def dest!: set_update_subset_insert [THEN subsetD])
next
  case (pusher s ps log now ixs hop_count)
  have I: "item_from log item \<Longrightarrow> item_from (insert (ixs, hop_count) log) item" for item
    by (simp add: item_from_def)
  have T: "built_from S rpc payer W log tx \<Longrightarrow> built_from S rpc payer W (insert (ixs, hop_count) log) tx" for tx
    unfolding built_from_def by blast
  from pusher.IH show ?case
    by (auto simp: bot_inv_def I intro: point_ok_mono I T) (simp add: item_from_def new_item_def)
qed

section \<open>What the scanner queues\<close>

lemma enforces_floor_mono: "enforces_floor B L a r \<Longrightarrow> L \<subseteq> L' \<Longrightarrow> enforces_floor B L' a r"
  unfolding enforces_floor_def by blast

lemma reply_log_grows: "L \<subseteq> reply_log ev w L"
  by (cases "(ev, w, L)" rule: reply_log.cases) (auto simp: Let_def)

definition queue_floor :: "base64_engine \<Rightarrow> world \<times> insert_log \<Rightarrow> bool" where
  "queue_floor B = (\<lambda>(w, L). \<forall>item \<in> set (w_lifo w). \<exists>a. enforces_floor B L a (ri_swap_ixs item))"

lemma finish_fetch_lifo:
  "w_lifo (finish_fetch B now ms r t w) =
     w_lifo w @ (case r of Inr x \<Rightarrow> [new_item now x (ft_hop_count t)] | Inl e \<Rightarrow> [])"
  by (cases r) (simp_all add: finish_fetch_def push_to_queue_def Let_def)

lemma queue_floor_step:
  assumes "floor_inv B (w, L)" "b64_lawful B" "queue_floor B (w, L)"
  shows "queue_floor B (scan_step B tc ev w, reply_log ev w L)"
proof -
  have old: "\<exists>a. enforces_floor B (reply_log ev w L) a (ri_swap_ixs item)" if "item \<in> set (w_lifo w)" for item
    using assms(3) that enforces_floor_mono [OF _ reply_log_grows] unfolding queue_floor_def by fast
  show ?thesis
  proof (cases ev)
    case (Pair now p)
    from assms(1,2) have "pair_effect B L (qp_amount p) (qp_hop_count p) now w (dispatch_pair B tc now p w)"
      by (intro dispatch_effect) (auto simp: floor_inv_def)
    then show ?thesis
      using old Pair by (simp add: queue_floor_def pair_effect_def) (auto simp: new_item_def, blast?)
  next
    case (Fetched i now ms r)
    show ?thesis
    proof (cases "i < length (w_tasks w)")
      case True
      let ?t = "w_tasks w ! i"
      have "ft_floor ?t = floor_of (ft_amount ?t)" using assms(1) True by (simp add: floor_inv_def)
      then have "enforces_floor B (reply_log ev w L) (ft_amount ?t) x" if "r = Inr x" for x
        using Fetched True that by (auto simp: enforces_floor_def Let_def)
      with old show ?thesis
        using Fetched True by (cases r) (auto simp: queue_floor_def finish_fetch_lifo new_item_def)
    qed (use old Fetched in \<open>auto simp: queue_floor_def\<close>)
  qed
qed

lemma queue_floor_run:
  "b64_lawful B \<Longrightarrow> floor_inv B wl \<Longrightarrow> queue_floor B wl \<Longrightarrow> queue_floor B (scan_logged B tc evs wl)"
proof (induction evs arbitrary: wl)
  case (Cons ev evs)
  obtain w L where wl: "wl = (w, L)" by force
  from Cons.prems have "floor_inv B (scan_step B tc ev w, reply_log ev w L)"
    "queue_floor B (scan_step B tc ev w, reply_log ev w L)"
    by (simp_all add: wl floor_inv_step queue_floor_step)
  with Cons show ?case by (simp add: wl)
qed simp

lemma queue_floor_new: "queue_floor B (world_new st, {})"
  by (simp add: queue_floor_def world_new_def)

text \<open>The pairs of instruction and hop count the scanner has queued.\<close>

definition queued :: "world \<Rightarrow> push_log" where
  "queued w = (\<lambda>item. (ri_swap_ixs item, ri_hop_count item)) ` set (w_lifo w)"

section \<open>End to end\<close>

lemma sent_shape:
  assumes "bot_run S rpc payer W (spawn_workers n rate grpc) (s, ps) log" "Sending use_grpc tx \<in> set ps"
  obtains ixs hops cb swap tip_addr tip_key tables hash msg where
    "(ixs, hops) \<in> log"
    "pubkey_from_str S ''ComputeBudget111111111111111111111111111111'' = Some cb"
    "to_sdk_instruction S (swap_instruction ixs) = Inr swap"
    "tip_addr \<in> set JITO_TIP_ACCOUNTS" "pubkey_from_str S tip_addr = Some tip_key"
    "try_compile S payer
      [\<lparr>si_program_id = cb, si_accounts = [],
        si_data = 2 # u32_to_le (lookup_cu_limit hops (wc_cu_limits W))\<rparr>,
       swap, system_transfer S payer tip_key JITO_TIP_LAMPORTS] tables hash = Some msg"
    "try_sign S (V0 msg) = Some tx"
    "account_lock_count tx \<le> 64" "\<exists>size \<le> 1232. wc_serialized_size W tx = Some size"
proof -
  have "tx_ok W (Sending use_grpc tx)"
    using pool_inv_reach [OF bot_run_reach [OF assms(1)]] assms(2) by (auto simp: pool_inv_def)
  then have limits: "account_lock_count tx \<le> 64" "\<exists>size \<le> 1232. wc_serialized_size W tx = Some size"
    by (simp_all add: tx_ok_def)
  have "built_from S rpc payer W log tx"
    using bot_inv_run [OF assms(1)] assms(2) by (auto simp: bot_inv_def)
  then obtain ixs hops choice hash c where b: "(ixs, hops) \<in> log" "alt_cache_ok c"
      "fst (build_arb_transaction S rpc choice ixs payer JITO_TIP_LAMPORTS
         (lookup_cu_limit hops (wc_cu_limits W)) hash c) = Inr tx"
    unfolding built_from_def worker_build_Some by blast
  from build_shape [OF b(2,3)] obtain cb swap tip_addr tip_key tables msg where
      "pubkey_from_str S ''ComputeBudget111111111111111111111111111111'' = Some cb"
      "to_sdk_instruction S (swap_instruction ixs) = Inr swap"
      "tip_addr \<in> set JITO_TIP_ACCOUNTS" "pubkey_from_str S tip_addr = Some tip_key"
      "try_compile S payer
        [\<lparr>si_program_id = cb, si_accounts = [],
          si_data = 2 # u32_to_le (lookup_cu_limit hops (wc_cu_limits W))\<rparr>,
         swap, system_transfer S payer tip_key JITO_TIP_LAMPORTS] tables hash = Some msg"
      "try_sign S (V0 msg) = Some tx"
    by (elim exE conjE)
  from that [OF b(1) this limits] show thesis .
qed

text \<open>
  Nothing else reaches Jito: in every history of the scanner and every interleaving of the
  workers that take what it queued, a transaction about to be sent is the compute-unit limit for its
  hop count, the swap and the tip transfer, in this order; the swap is Metis's own reply for some amount and its
  break-even floor, or such a reply with nothing but these two numbers rewritten; and the
  transaction locks at most 64 accounts and serializes to at most 1232 bytes.
\<close>

theorem sent_transaction_provenance:
  assumes "b64_lawful B" "scan_logged B tc evs (world_new store_new, {}) = (w, L)"
    and "bot_run S rpc payer W (spawn_workers n rate grpc) (s, ps) log" "log \<subseteq> queued w"
    and "Sending use_grpc tx \<in> set ps"
  shows "\<exists>ixs hops amount cb swap tip_addr tip_key tables hash msg.
    enforces_floor B L amount ixs \<and> (ixs, hops) \<in> log \<and>
    pubkey_from_str S ''ComputeBudget111111111111111111111111111111'' = Some cb \<and>
    to_sdk_instruction S (swap_instruction ixs) = Inr swap \<and>
    tip_addr \<in> set JITO_TIP_ACCOUNTS \<and> pubkey_from_str S tip_addr = Some tip_key \<and>
    try_compile S payer
      [\<lparr>si_program_id = cb, si_accounts = [],
        si_data = 2 # u32_to_le (lookup_cu_limit hops (wc_cu_limits W))\<rparr>,
       swap, system_transfer S payer tip_key JITO_TIP_LAMPORTS] tables hash = Some msg \<and>
    try_sign S (V0 msg) = Some tx \<and>
    account_lock_count tx \<le> 64 \<and> (\<exists>size \<le> 1232. wc_serialized_size W tx = Some size)"
  using assms(3,5)
proof (rule sent_shape, goal_cases)
  case (1 ixs hops cb swap tip_addr tip_key tables hash msg)
  have "queue_floor B (w, L)"
    using queue_floor_run [OF assms(1) floor_inv_new queue_floor_new, of tc evs] assms(2) by simp
  moreover obtain item where "item \<in> set (w_lifo w)" "ri_swap_ixs item = ixs"
    using 1(1) assms(4) by (auto simp: queued_def)
  ultimately obtain amount where "enforces_floor B L amount ixs"
    by (auto simp: queue_floor_def)
  with 1 show ?case
    by - (rule exI [of _ ixs], rule exI [of _ hops], rule exI [of _ amount], rule exI [of _ cb], rule exI [of _ swap],
        rule exI [of _ tip_addr], rule exI [of _ tip_key], rule exI [of _ tables], rule exI [of _ hash], rule exI [of _ msg],
        intro conjI; assumption)
qed

section \<open>A run\<close>

definition e2e_env :: "int \<Rightarrow> step_env" where
  "e2e_env now = \<lparr>e_now = now, e_build = worker_build sample_sdk (\<lambda>_. None) [7] 3 [] (alt_cache_new []), e_send_ok = True\<rparr>"

definition e2e_thread :: "nat \<Rightarrow> pool \<times> point list \<Rightarrow> pool \<times> point list" where
  "e2e_thread i = (\<lambda>(s, ps). if i < length ps then
     (case advance sample_config (e2e_env 10) (ps ! i) s of Some (p, s') \<Rightarrow> (s', ps[i := p]) | None \<Rightarrow> (s, ps))
     else (s, ps))"

definition e2e_end :: "pool \<times> point list" where
  "e2e_end = fold e2e_thread sample_schedule
     (let (s, ps) = spawn_workers 1 5 None in (s, ps @ [Push_item (new_item 5 sample_reply 2)]))"

lemma e2e_thread_run:
  assumes "bot_run sample_sdk (\<lambda>_. None) [7] sample_config st0 st log"
  shows "bot_run sample_sdk (\<lambda>_. None) [7] sample_config st0 (e2e_thread i st) log"
proof -
  obtain s ps where st: "st = (s, ps)" by force
  show ?thesis
  proof (cases "i < length ps \<and> advance sample_config (e2e_env 10) (ps ! i) s \<noteq> None")
    case True
    then obtain p s' where a: "advance sample_config (e2e_env 10) (ps ! i) s = Some (p, s')" by auto
    have "e_build (e2e_env 10) = worker_build sample_sdk (\<lambda>_. None) [7] 3 [] (alt_cache_new [])"
      by (simp add: e2e_env_def)
    from bot_run.thread [OF assms [unfolded st] _ alt_cache_ok_new this a] True show ?thesis
      by (simp add: st e2e_thread_def a)
  next
    case False
    then have "e2e_thread i (s, ps) = (s, ps)"
      by (cases "advance sample_config (e2e_env 10) (ps ! i) s") (auto simp: e2e_thread_def)
    with assms show ?thesis by (simp add: st)
  qed
qed

lemma e2e_run: "bot_run sample_sdk (\<lambda>_. None) [7] sample_config (spawn_workers 1 5 None) e2e_end {(sample_reply, 2)}"
proof -
  obtain s ps where sp: "spawn_workers 1 5 None = (s, ps)" by force
  have "bot_run sample_sdk (\<lambda>_. None) [7] sample_config (s, ps) (s, ps @ [Push_item (new_item 5 sample_reply 2)]) {(sample_reply, 2)}"
    by (rule bot_run.pusher) (rule bot_run.start)
  then have "bot_run sample_sdk (\<lambda>_. None) [7] sample_config (s, ps)
      (fold e2e_thread is (s, ps @ [Push_item (new_item 5 sample_reply 2)])) {(sample_reply, 2)}" for "is"
  proof (induction "is" rule: rev_induct)
    case (snoc i "is")
    then show ?case by (simp add: e2e_thread_run)
  qed simp
  then show ?thesis unfolding e2e_end_def sp Let_def prod.case .
qed

definition e2e_tx :: versioned_transaction where
  "e2e_tx = \<lparr>vt_message = V0 \<lparr>vm_account_keys = [[7]], vm_table_lookups = []\<rparr>, vt_signatures = []\<rparr>"

lemma e2e_build:
  "worker_build sample_sdk (\<lambda>_. None) [7] 3 [] (alt_cache_new []) sample_reply cu = Some e2e_tx"
  by (simp add: worker_build_Some build_arb_transaction_def sample_sdk_def sample_reply_def sample_ixs_def
      to_sdk_instruction_def e2e_tx_def Let_def)

lemma e2e_sending: "Sending False e2e_tx \<in> set (snd e2e_end)"
  by (simp add: e2e_end_def spawn_workers_def sample_schedule_def e2e_thread_def e2e_env_def e2e_build
      sample_config_def new_item_def age_ms_def rl_new_def try_acquire_def metrics_new_def Let_def
      account_lock_count_def MAX_TX_ACCOUNT_LOCKS_def MAX_TX_SIZE_def one_sec_def e2e_tx_def)

lemma e2e_queued: "(sample_reply, 2) \<in> queued (fold (scan_step plain_engine sample_tc) sample_events (world_new store_new))"
  by (simp add: sample_events_def dispatch_pair_def sample_pair_def sample_quote_def merge_quotes_def
      tier1_def sample_tc_def get_route_def get_route_read_def world_new_def store_new_def tier2_def
      check_hops_def get_route_for_hops_def pair_key_def Let_def tier3_def finish_fetch_lifo queued_def new_item_def)

theorem sent_transaction_provenance_witness:
  "\<exists>w L ixs amount. scan_logged plain_engine sample_tc sample_events (world_new store_new, {}) = (w, L) \<and>
     (ixs, 2) \<in> queued w \<and> enforces_floor plain_engine L amount ixs \<and>
     Sending False e2e_tx \<in> set (snd e2e_end) \<and> account_lock_count e2e_tx \<le> 64"
proof -
  obtain w L where wl: "scan_logged plain_engine sample_tc sample_events (world_new store_new, {}) = (w, L)"
    by force
  then have "w = fold (scan_step plain_engine sample_tc) sample_events (world_new store_new)"
    using scan_logged_run [of plain_engine sample_tc sample_events "world_new store_new" "{}"] by simp
  then have q: "(sample_reply, 2) \<in> queued w" using e2e_queued by simp
  obtain s ps where e: "e2e_end = (s, ps)" by force
  have "Sending False e2e_tx \<in> set ps" "{(sample_reply, 2)} \<subseteq> queued w"
    using e2e_sending q by (simp_all add: e)
  from sent_transaction_provenance [OF plain_engine_lawful wl e2e_run [unfolded e] this(2,1)]
  obtain ixs hops amount where "enforces_floor plain_engine L amount ixs" "(ixs, hops) \<in> {(sample_reply, 2)}"
      "account_lock_count e2e_tx \<le> 64"
    by auto
  with wl q e2e_sending show ?thesis by auto
qed

end
