(* ===== verification/Float64.thy ===== *)
theory Float64
  imports Prelude Complex_Main "HOL-Library.Log_Nat"
begin

text \<open>
  Rust's \<open>f64\<close> as far as the bot computes with it: IEEE 754 double precision, rounded to nearest, ties
  to even. \<open>Finite neg m e\<close> is the number \<open>m * 2 ^ e\<close> with its sign, so a value may have several
  representations; nothing below depends on which. All operations round once, in \<open>f64_round\<close>. The
  locales state what a client of the arithmetic needs: the relative error of one rounding, and what a cast does.
\<close>

datatype f64 = Finite bool int int | Infinite bool | NaN

section \<open>Rounding\<close>

text \<open>\<open>a / b\<close> to the nearest integer, ties to even.\<close>

definition half_even :: "int \<Rightarrow> int \<Rightarrow> int" where
  "half_even a b =
     (let q = a div b; r = a mod b in if b < 2 * r \<or> b = 2 * r \<and> odd q then q + 1 else q)"

text \<open>
  The double nearest to \<open>a / b * 2 ^ e\<close>: the quotient is scaled until it has at least 54 bits, and all
  but 53 are rounded away, more where the result is subnormal.
\<close>

definition f64_round :: "bool \<Rightarrow> int \<Rightarrow> int \<Rightarrow> int \<Rightarrow> f64" where
  "f64_round neg a b e =
     (let k = nat (bitlen b) + 53;
          a' = a * 2 ^ k;
          e' = e - int k;
          s = nat (max (bitlen (a' div b) - 53) (- 1074 - e'));
          q = half_even a' (b * 2 ^ s)
      in if q = 0 then Finite neg 0 0
         else if bitlen q + e' + int s > 1024 then Infinite neg
         else Finite neg q (e' + int s))"

section \<open>The operations\<close>

definition f64_of_int :: "int \<Rightarrow> f64" where
  "f64_of_int n = f64_round (n < 0) \<bar>n\<bar> 1 0"

text \<open>What \<open>str::parse\<close> yields for the decimal \<open>n / 10 ^ d\<close>.\<close>

definition f64_of_decimal :: "int \<Rightarrow> nat \<Rightarrow> f64" where
  "f64_of_decimal n d = f64_round False n (10 ^ d) 0"

instantiation f64 :: "{times, minus, inverse}"
begin

fun times_f64 :: "f64 \<Rightarrow> f64 \<Rightarrow> f64" where
  "times_f64 (Finite n1 m1 e1) (Finite n2 m2 e2) = f64_round (n1 \<noteq> n2) (m1 * m2) 1 (e1 + e2)"
| "times_f64 (Infinite n1) (Finite n2 m2 e2) = (if m2 = 0 then NaN else Infinite (n1 \<noteq> n2))"
| "times_f64 (Finite n1 m1 e1) (Infinite n2) = (if m1 = 0 then NaN else Infinite (n1 \<noteq> n2))"
| "times_f64 (Infinite n1) (Infinite n2) = Infinite (n1 \<noteq> n2)"
| "times_f64 NaN y = NaN"
| "times_f64 x NaN = NaN"

fun minus_f64 :: "f64 \<Rightarrow> f64 \<Rightarrow> f64" where
  "minus_f64 (Finite n1 m1 e1) (Finite n2 m2 e2) =
     (let e = min e1 e2;
          x = m1 * 2 ^ nat (e1 - e); y = m2 * 2 ^ nat (e2 - e);
          d = (if n1 then - x else x) - (if n2 then - y else y)
      in if d = 0 then Finite (n1 \<and> \<not> n2 \<and> m1 = 0) 0 0 else f64_round (d < 0) \<bar>d\<bar> 1 e)"
| "minus_f64 (Infinite n1) (Infinite n2) = (if n1 = n2 then NaN else Infinite n1)"
| "minus_f64 (Infinite n1) (Finite n2 m2 e2) = Infinite n1"
| "minus_f64 (Finite n1 m1 e1) (Infinite n2) = Infinite (\<not> n2)"
| "minus_f64 NaN y = NaN"
| "minus_f64 x NaN = NaN"

fun divide_f64 :: "f64 \<Rightarrow> f64 \<Rightarrow> f64" where
  "divide_f64 (Finite n1 m1 e1) (Finite n2 m2 e2) =
     (if m2 = 0 then (if m1 = 0 then NaN else Infinite (n1 \<noteq> n2)) else f64_round (n1 \<noteq> n2) m1 m2 (e1 - e2))"
| "divide_f64 (Infinite n1) (Infinite n2) = NaN"
| "divide_f64 (Infinite n1) (Finite n2 m2 e2) = Infinite (n1 \<noteq> n2)"
| "divide_f64 (Finite n1 m1 e1) (Infinite n2) = Finite (n1 \<noteq> n2) 0 0"
| "divide_f64 NaN y = NaN"
| "divide_f64 x NaN = NaN"

definition inverse_f64 :: "f64 \<Rightarrow> f64" where
  "inverse_f64 x = divide (Finite False 1 0) x"

instance ..

end

text \<open>The saturating cast \<open>as\<close> to an unsigned integer of 64 bits; NaN becomes 0.\<close>

fun f64_trunc :: "f64 \<Rightarrow> int" where
  "f64_trunc (Finite neg m e) =
     (if neg then 0 else min (if 0 \<le> e then m * 2 ^ nat e else m div 2 ^ nat (- e)) (2 ^ 64 - 1))"
| "f64_trunc (Infinite neg) = (if neg then 0 else 2 ^ 64 - 1)"
| "f64_trunc NaN = 0"

definition f64_as_u64 :: "f64 \<Rightarrow> u64" where
  "f64_as_u64 x = of_int (f64_trunc x)"

lemma uint_f64_as_u64:
  "0 \<le> f64_trunc x \<Longrightarrow> f64_trunc x < 2 ^ 64 \<Longrightarrow> uint (f64_as_u64 x) = f64_trunc x"
  by (simp add: f64_as_u64_def unsigned_of_int take_bit_int_eq_self)

section \<open>One rounding\<close>

text \<open>The value of a finite double.\<close>

fun f64_val :: "f64 \<Rightarrow> real option" where
  "f64_val (Finite neg m e) =
     (if 0 \<le> m then Some ((if neg then -1 else 1) * of_int m * 2 powi e) else None)"
| "f64_val x = None"

lemma half_even_error:
  assumes "0 < b"
  shows "2 * \<bar>half_even a b * b - a\<bar> \<le> b"
proof -
  have r: "0 \<le> a mod b" "a mod b < b" using assms by simp_all
  have "a div b * b - a = - (a mod b)" using div_mult_mod_eq [of a b] by linarith
  moreover from this have "(a div b + 1) * b - a = b - a mod b" by (simp add: algebra_simps)
  ultimately show ?thesis using r by (auto simp: half_even_def Let_def)
qed

lemma abs_divide_pos: "0 < c \<Longrightarrow> \<bar>x / c\<bar> = \<bar>x\<bar> / (c :: real)"
  by simp

lemma half_even_real:
  assumes "0 < b"
  shows "\<bar>real_of_int (half_even a (b * 2 ^ s)) * 2 ^ s - a / b\<bar> \<le> 2 ^ s / 2"
proof -
  let ?q = "half_even a (b * 2 ^ s)"
  have "2 * \<bar>?q * (b * 2 ^ s) - a\<bar> \<le> b * 2 ^ s" using assms by (intro half_even_error) simp
  then have "real_of_int (2 * \<bar>?q * (b * 2 ^ s) - a\<bar>) \<le> real_of_int (b * 2 ^ s)" by (simp only: of_int_le_iff)
  then have "2 * \<bar>?q * (b * 2 ^ s) - a\<bar> / b \<le> real_of_int (b * 2 ^ s) / b"
    using assms by (intro divide_right_mono) simp_all
  moreover have "\<bar>?q * (b * 2 ^ s) - real_of_int a\<bar> / b = \<bar>real_of_int ?q * 2 ^ s - a / b\<bar>"
    using assms by (simp add: abs_divide_pos [symmetric] diff_divide_distrib)
  ultimately show ?thesis using assms by simp
qed

lemma powi_less: "(2 :: real) powi m < 2 powi n \<Longrightarrow> m < n"
  using power_int_increasing [of n m "2 :: real"] by (force simp: not_less)

lemma div_real:
  fixes m a b :: int
  shows "m \<le> a div b \<Longrightarrow> real_of_int m \<le> a / b" "a div b < m \<Longrightarrow> a / b < real_of_int m"
  by (simp_all add: le_floor_iff floor_less_iff flip: floor_divide_of_int_eq [where 'a = real])

lemma powi_sign [simp]: "\<not> (2 :: real) powi e \<le> 0" "\<not> (2 :: real) powi e < 0"
  by (simp_all add: not_le not_less)

lemma powi_scale:
  assumes "0 \<le> n"
  shows "(2 :: real) ^ nat n * 2 powi e = 2 powi (n + e)"
proof -
  have "(2 :: real) ^ nat n = 2 powi n" using assms by (simp add: power_int_def)
  then show ?thesis by (simp add: power_int_add)
qed

lemma near_unit:
  fixes x y p :: real
  assumes "0 < p" "p * 2 ^ 52 \<le> y" "y < p * 2 ^ 53" "\<bar>x - y\<bar> \<le> p / 2"
  shows "x < (2 ^ 53 + 1) * p" "0 < x"
proof -
  note abs_le_D1 [OF assms(4)] abs_le_D2 [OF assms(4)]
  with assms(1-3) show "x < (2 ^ 53 + 1) * p" "0 < x" by simp_all
qed

lemma f64_round_error:
  fixes a b e :: int
  defines "v \<equiv> a / b * 2 powi e"
  assumes "0 < a" "0 < b" and lo: "2 powi -1000 \<le> v" and hi: "v \<le> 2 powi 1000"
  obtains r where "f64_val (f64_round False a b e) = Some r" "\<bar>r - v\<bar> \<le> v / 2 ^ 53"
proof -
  define k where "k = nat (bitlen b) + 53"
  define a' where "a' = a * 2 ^ k"
  define e' where "e' = e - int k"
  define n where "n = bitlen (a' div b)"
  define s where "s = nat (max (n - 53) (- 1074 - e'))"
  define q where "q = half_even a' (b * 2 ^ s)"
  have v: "v = a' / b * 2 powi e'"
    by (simp add: v_def a'_def e'_def power_int_diff)
  have "b < 2 ^ nat (bitlen b)" using bitlen_bounds [OF \<open>0 < b\<close>] by simp
  then have "b * 2 ^ 53 \<le> a'"
    using mult_mono [of b "2 ^ nat (bitlen b)" "2 ^ 53" "a * 2 ^ 53"] assms(2,3)
    by (simp add: a'_def k_def power_add ac_simps)
  then have "2 ^ 53 * b div b \<le> a' div b"
    using \<open>0 < b\<close> by (intro zdiv_mono1) (simp_all add: ac_simps)
  then have d: "2 ^ 53 \<le> a' div b" using \<open>0 < b\<close> by simp
  then have "0 < a' div b" by (rule less_le_trans [rotated]) simp
  from bitlen_bounds [OF this] have n: "2 ^ nat (n - 1) \<le> a' div b" "a' div b < 2 ^ nat n"
    by (simp_all only: n_def)
  have n54: "54 \<le> n" using d unfolding n_def bitlen_ge_iff_power by simp
  have range: "2 ^ nat (n - 1) \<le> a' / b" "a' / b < 2 ^ nat n"
    using div_real(1) [OF n(1)] div_real(2) [OF n(2)] by simp_all
  have "v < 2 ^ nat n * 2 powi e'" unfolding v using range(2) by (rule mult_strict_right_mono) simp
  then have "v < 2 powi (n + e')" using powi_scale [of n e'] n54 by simp
  then have low: "-1000 < n + e'" using lo by (intro powi_less) (rule le_less_trans)
  have "2 ^ nat (n - 1) * 2 powi e' \<le> v" unfolding v using range(1) by (rule mult_right_mono) simp
  then have "2 powi (n - 1 + e') \<le> v" using powi_scale [of "n - 1" e'] n54 by simp
  moreover have "v < 2 powi 1001" using hi by (rule le_less_trans) simp
  ultimately have "(2 :: real) powi (n - 1 + e') < 2 powi 1001" by (rule le_less_trans)
  then have high: "n - 1 + e' < 1001" by (rule powi_less)
  have s: "s = nat (n - 53)" using low by (simp add: s_def)
  have q: "\<bar>of_int q * 2 ^ s - a' / b\<bar> \<le> 2 ^ s / 2"
    unfolding q_def using \<open>0 < b\<close> by (rule half_even_real)
  have split: "nat (n - 1) = s + 52" "nat n = s + 53" using n54 by (simp_all add: s)
  have unit: "(2 :: real) ^ s / 2 \<le> a' / b / 2 ^ 53" "a' / b < 2 ^ s * 2 ^ 53"
    using range unfolding split power_add by simp_all
  define w where "w = (of_int q * 2 powi (e' + int s) :: real)"
  have "w - v = (of_int q * 2 ^ s - a' / b) * 2 powi e'"
    by (simp add: w_def v power_int_add algebra_simps)
  then have "\<bar>w - v\<bar> = \<bar>of_int q * 2 ^ s - a' / b\<bar> * 2 powi e'" by (simp add: abs_mult)
  also have "\<dots> \<le> a' / b / 2 ^ 53 * 2 powi e'"
    using order_trans [OF q unit(1)] by (rule mult_right_mono) simp
  finally have w: "\<bar>w - v\<bar> \<le> v / 2 ^ 53" by (simp add: v)
  have "2 ^ s * 2 ^ 52 \<le> a' / b" using range(1) unfolding split power_add .
  from near_unit [OF _ this unit(2) q]
  have "real_of_int q * 2 ^ s < (2 ^ 53 + 1) * 2 ^ s" "0 < real_of_int q * 2 ^ s" by simp_all
  then have "real_of_int q < 2 ^ 53 + 1" "0 < real_of_int q"
    by (simp_all add: zero_less_mult_iff)
  then have "q < 2 ^ 53 + 1" "0 < q" by simp_all
  then have "bitlen q \<le> 54" unfolding bitlen_le_iff_power by simp
  moreover have "e' + int s = n + e' - 53" using n54 by (simp add: s)
  ultimately have "f64_round False a b e = Finite False q (e' + int s)"
    using high \<open>0 < q\<close> unfolding f64_round_def Let_def
    by (simp flip: k_def a'_def e'_def n_def s_def q_def)
  with \<open>0 < q\<close> w that [of w] show ?thesis by (simp add: w_def)
qed

section \<open>Laws of the arithmetic\<close>

text \<open>
  What a client relies on: within a range, a quotient of integers and a product are the exact result but for a
  relative error \<open>u\<close>; an extension adds the truncating cast.
\<close>

locale float_arith =
  fixes val :: "'f \<Rightarrow> real option"
    and ratio :: "int \<Rightarrow> int \<Rightarrow> 'f"
    and mul :: "'f \<Rightarrow> 'f \<Rightarrow> 'f"
    and lo hi u :: real
  assumes unit_range: "0 < lo" "0 \<le> u" "u \<le> 1 / 2"
    and ratio_error: "0 < a \<Longrightarrow> 0 < b \<Longrightarrow> lo \<le> of_int a / of_int b \<Longrightarrow> of_int a / of_int b \<le> hi \<Longrightarrow>
      \<exists>r. val (ratio a b) = Some r \<and> \<bar>r - of_int a / of_int b\<bar> \<le> u * (of_int a / of_int b)"
    and mul_error: "val x = Some r \<Longrightarrow> val y = Some t \<Longrightarrow> lo \<le> r * t \<Longrightarrow> r * t \<le> hi \<Longrightarrow>
      \<exists>w. val (mul x y) = Some w \<and> \<bar>w - r * t\<bar> \<le> u * (r * t)"
begin

lemma scaled_ratio:
  assumes "0 < a" "0 < b" "val y = Some t" "0 < t"
    and "lo \<le> a / b" "a / b \<le> hi" "2 * lo \<le> a / b * t" "2 * (a / b * t) \<le> hi"
  shows "\<exists>w. val (mul (ratio a b) y) = Some w \<and> \<bar>w - a / b * t\<bar> \<le> (2 * u + u * u) * (a / b * t)"
proof -
  define v where "v = a / b"
  obtain r where r: "val (ratio a b) = Some r" "\<bar>r - v\<bar> \<le> u * v"
    using ratio_error [OF assms(1,2,5,6)] unfolding v_def by blast
  have "0 < v" using assms(1,2) by (simp add: v_def)
  have rt: "\<bar>r * t - v * t\<bar> \<le> u * (v * t)"
    using mult_right_mono [OF r(2), of t] \<open>0 < t\<close> by (simp add: abs_mult mult.assoc flip: left_diff_distrib)
  have "u * (v * t) \<le> v * t / 2"
    using mult_right_mono [OF unit_range(3), of "v * t"] \<open>0 < t\<close> \<open>0 < v\<close> by simp
  then have "lo \<le> r * t" "r * t \<le> hi" and le: "r * t \<le> v * t + u * (v * t)"
    using rt assms(7,8) unfolding v_def [symmetric] by linarith+
  then obtain w where w: "val (mul (ratio a b) y) = Some w" "\<bar>w - r * t\<bar> \<le> u * (r * t)"
    using mul_error [OF r(1) assms(3)] by blast
  have "u * (r * t) \<le> u * (v * t + u * (v * t))" using le unit_range(2) by (rule mult_left_mono)
  with w(2) rt have "\<bar>w - v * t\<bar> \<le> u * (v * t) + u * (v * t + u * (v * t))" by linarith
  also have "\<dots> = (2 * u + u * u) * (v * t)" by (simp add: algebra_simps)
  finally show ?thesis using w(1) unfolding v_def by blast
qed

end

locale float_cast = float_arith +
  fixes trunc :: "'f \<Rightarrow> int"
  assumes trunc_floor: "val x = Some r \<Longrightarrow> 0 \<le> r \<Longrightarrow> r < 2 ^ 64 - 1 \<Longrightarrow> trunc x = \<lfloor>r\<rfloor>"
begin

lemma trunc_scaled:
  assumes "0 < a" "0 < b" "val y = Some t" "0 < t"
    and "lo \<le> a / b" "a / b \<le> hi" "2 * lo \<le> k" "2 * real_of_int k \<le> hi"
    and k: "a / b * t = real_of_int k" "(2 * u + u * u) * k < 1" "k < 2 ^ 63"
  shows "trunc (mul (ratio a b) y) \<in> {k - 1, k}"
proof -
  have "0 < real_of_int k" using assms(1,2,4) by (simp flip: k(1))
  obtain w where w: "val (mul (ratio a b) y) = Some w" "\<bar>w - k\<bar> \<le> (2 * u + u * u) * k"
    using scaled_ratio [OF assms(1-6)] assms(7,8) unfolding k(1) by blast
  have "real_of_int k < real_of_int (2 ^ 63)" using k(3) by (simp only: of_int_less_iff)
  then have "real_of_int k < 2 ^ 63" by simp
  moreover have "real_of_int k \<ge> 1" using \<open>0 < real_of_int k\<close> by simp
  ultimately have "0 \<le> w \<and> w < 2 ^ 64 - 1 \<and> real_of_int k - 1 < w \<and> w < real_of_int k + 1"
    using w(2) k(2) by (simp add: abs_le_iff)
  with trunc_floor [OF w(1)] show ?thesis by (auto simp: floor_eq_iff)
qed

end

lemma f64_ratio_error:
  assumes "0 < a" "0 < b" "2 powi -1000 \<le> real_of_int a / of_int b" "real_of_int a / of_int b \<le> 2 powi 1000"
  shows "\<exists>r. f64_val (f64_round False a b 0) = Some r \<and>
    \<bar>r - of_int a / of_int b\<bar> \<le> 1 / 2 ^ 53 * (of_int a / of_int b)"
proof -
  obtain r where "f64_val (f64_round False a b 0) = Some r"
      "\<bar>r - a / b * 2 powi 0\<bar> \<le> a / b * 2 powi 0 / 2 ^ 53"
    by (rule f64_round_error [OF assms(1,2), of 0]) (use assms in simp_all)
  then show ?thesis by (intro exI [of _ r]) simp
qed

lemma f64_val_cases:
  assumes "f64_val x = Some r"
  obtains neg m e where "x = Finite neg m e" "0 \<le> m" "r = (if neg then -1 else 1) * of_int m * 2 powi e"
  using assms by (cases x) (auto split: if_splits)

lemma f64_times_error:
  assumes "f64_val x = Some r" "f64_val y = Some t" "2 powi -1000 \<le> r * t" "r * t \<le> 2 powi 1000"
  shows "\<exists>w. f64_val (x * y) = Some w \<and> \<bar>w - r * t\<bar> \<le> 1 / 2 ^ 53 * (r * t)"
proof -
  obtain n1 m1 e1 where x: "x = Finite n1 m1 e1" "0 \<le> m1" "r = (if n1 then -1 else 1) * of_int m1 * 2 powi e1"
    using assms(1) by (rule f64_val_cases)
  obtain n2 m2 e2 where y: "y = Finite n2 m2 e2" "0 \<le> m2" "t = (if n2 then -1 else 1) * of_int m2 * 2 powi e2"
    using assms(2) by (rule f64_val_cases)
  have rt: "r * t = (if n1 = n2 then 1 else -1) * (real_of_int (m1 * m2) * 2 powi (e1 + e2))"
    by (simp add: x(3) y(3) power_int_add)
  have "0 < r * t" by (rule less_le_trans [OF _ assms(3)]) simp
  moreover have "0 \<le> real_of_int (m1 * m2) * 2 powi (e1 + e2)" using x(2) y(2) by simp
  ultimately have same: "n1 = n2" and m: "0 < m1 * m2" unfolding rt
    by (auto simp: zero_less_mult_iff split: if_splits)
  have v: "r * t = (m1 * m2) / (1 :: int) * 2 powi (e1 + e2)" by (simp add: rt same)
  obtain w where "f64_val (f64_round False (m1 * m2) 1 (e1 + e2)) = Some w" "\<bar>w - r * t\<bar> \<le> r * t / 2 ^ 53"
    using f64_round_error [OF m zero_less_one, of "e1 + e2"] assms(3,4) unfolding v by blast
  then show ?thesis by (simp add: x(1) y(1) same)
qed

lemma f64_trunc_floor:
  assumes "f64_val x = Some r" "0 \<le> r" "r < 2 ^ 64 - 1"
  shows "f64_trunc x = \<lfloor>r\<rfloor>"
proof -
  obtain neg m e where x: "x = Finite neg m e" "0 \<le> m" "r = (if neg then -1 else 1) * of_int m * 2 powi e"
    using assms(1) by (rule f64_val_cases)
  show ?thesis
  proof (cases neg)
    case True
    then have "r = 0" using assms(2) x(2,3) by (auto simp: mult_le_0_iff)
    with True show ?thesis by (simp add: x(1))
  next
    case False
    have "\<lfloor>r\<rfloor> = (if 0 \<le> e then m * 2 ^ nat e else m div 2 ^ nat (- e))"
    proof (cases "0 \<le> e")
      case True
      then have "r = real_of_int (m * 2 ^ nat e)" by (simp add: x(3) False power_int_def)
      with True show ?thesis by (simp only: floor_of_int if_True)
    next
      case neg: False
      then have "r = real_of_int m / real_of_int (2 ^ nat (- e))"
        by (simp add: x(3) False power_int_def power_inverse field_simps)
      with neg show ?thesis by (simp only: floor_divide_of_int_eq) simp
    qed
    moreover have "\<lfloor>r\<rfloor> \<le> 2 ^ 64 - 1" using assms(3) by (simp add: floor_le_iff)
    ultimately show ?thesis using False by (simp add: x(1))
  qed
qed

interpretation f64: float_cast f64_val "\<lambda>a b. f64_round False a b 0" "(*)" "2 powi -1000" "2 powi 1000" "1 / 2 ^ 53" f64_trunc
  by unfold_locales (use f64_ratio_error f64_times_error f64_trunc_floor in auto)

end
