(* ===== verification/Scan_Cycle.thy ===== *)
theory Scan_Cycle
  imports End_To_End Startup Float64
begin

text \<open>
  \<open>scan_all_tokens\<close> of \<open>src/arbitrage.rs\<close> as a whole and the endless loop of \<open>src/main.rs\<close> around it. A
  cycle enumerates its entries, keeps up to \<open>max_concurrent\<close> quote checks in flight
  (\<open>buffer_unordered\<close>) and dispatches what they report in the order in which they end; the requests it
  spawns are answered at any time, also in later cycles. \<open>cycle_step\<close> is one such event.
\<close>

section \<open>From the configuration to the entries\<close>

definition LAMPORTS_PER_SOL :: f64 where
  "LAMPORTS_PER_SOL = Finite False 1000000000 0"

definition to_lamports :: "f64 \<Rightarrow> u64" where
  "to_lamports sol = f64_as_u64 (sol * LAMPORTS_PER_SOL)"

type_synonym entry = "u64 \<times> string \<times> bool"

definition all_pairs :: "f64 trading_config \<Rightarrow> string list \<Rightarrow> entry list option" where
  "all_pairs t token_mints =
     scan_pairs token_mints (to_lamports (tr_min_amount_sol t)) (to_lamports (tr_max_amount_sol t))
       (to_lamports (tr_step_sol t))"

text \<open>The figure the bot prints before its first cycle; \<open>usize\<close> arithmetic wraps.\<close>

definition pairs_per_scan :: "f64 trading_config \<Rightarrow> nat \<Rightarrow> u64" where
  "pairs_per_scan t n_tokens =
     (let steps = f64_as_u64 ((tr_max_amount_sol t - tr_min_amount_sol t) / tr_step_sol t) + 1
      in steps * of_nat n_tokens * 2)"

text \<open>\<open>main\<close>: the configuration, then everything up to the first cycle, on \<open>worker_threads\<close> threads.\<close>

datatype main_error = Bad_config config_error | Bad_start start_error

definition bot_main ::
    "('v, 't) boot_env \<Rightarrow> (string \<Rightarrow> f64 toml option) \<Rightarrow>
     main_error + f64 config \<times> nat \<times> string list \<times> token_metrics \<times> 'v calc_ctx" where
  "bot_main E toml =
     (case config_load (be_read_file E) toml f64_of_int ''config.toml'' of
        Inl e \<Rightarrow> Inl (Bad_config e)
      | Inr c \<Rightarrow>
          (case async_main E toml c of
             Inl e \<Rightarrow> Inl (Bad_start e)
           | Inr start \<Rightarrow> Inr (c, worker_threads c, start)))"

section \<open>A cycle\<close>

record cycle =
  cy_buffer :: nat
  cy_todo :: "entry list"
  cy_running :: "entry list"
  cy_world :: world
  cy_tokens :: token_metrics

definition begin_cycle :: "f64 config \<Rightarrow> entry list \<Rightarrow> world \<Rightarrow> token_metrics \<Rightarrow> cycle" where
  "begin_cycle c pairs w tm =
     \<lparr>cy_buffer = max_concurrent (pf_max_concurrent_quotes (cf_performance c)) (length pairs),
      cy_todo = pairs, cy_running = [], cy_world = w, cy_tokens = tm\<rparr>"

datatype cycle_event =
    Start_check
  | Check_done nat int quote_http quote_http
  | Reply nat int u64 "swap_ix_error + swap_instructions_response"

text \<open>
  A check in flight ends with the replies to its requests; what it reports is handled before the stream is
  polled again. How eagerly the stream fills its buffer is left open. An event that cannot happen is \<open>None\<close>;
  \<open>w_lifo\<close> keeps all that was ever queued, since the workers' side of the queue is \<open>Worker\<close>.
\<close>

fun cycle_step :: "base64_engine \<Rightarrow> f64 config \<Rightarrow> metis_client \<Rightarrow> cycle_event \<Rightarrow> cycle \<Rightarrow> cycle option" where
  "cycle_step B c metis Start_check cy =
     (case cy_todo cy of
        [] \<Rightarrow> None
      | e # es \<Rightarrow>
          if length (cy_running cy) < cy_buffer cy
          then Some (cy\<lparr>cy_todo := es, cy_running := cy_running cy @ [e]\<rparr>) else None)"
| "cycle_step B c metis (Check_done i now http1 http2) cy =
     (if i < length (cy_running cy)
      then
        (let (amt, tok, direct) = cy_running cy ! i;
             (result, m, tm) = quote_check metis http1 http2 tok amt direct
                (tr_min_profit_lamports (cf_trading c)) (w_metrics (cy_world cy), cy_tokens cy)
         in Some (cy\<lparr>cy_running := take i (cy_running cy) @ drop (Suc i) (cy_running cy),
              cy_world := consume_results B (cf_template_cache c) [(now, result)] ((cy_world cy)\<lparr>w_metrics := m\<rparr>),
              cy_tokens := tm\<rparr>))
      else None)"
| "cycle_step B c metis (Reply i now ms r) cy =
     (if i < length (w_tasks (cy_world cy))
      then Some (cy\<lparr>cy_world := scan_step B (cf_template_cache c) (Fetched i now ms r) (cy_world cy)\<rparr>)
      else None)"

lemma check_done_enabled:
  "i < length (cy_running cy) \<Longrightarrow> \<exists>cy'. cycle_step B c metis (Check_done i now http1 http2) cy = Some cy'"
  by (auto simp: Let_def split: prod.split)

lemma start_enabled:
  "cy_running cy = [] \<Longrightarrow> cy_todo cy \<noteq> [] \<Longrightarrow> 0 < cy_buffer cy \<Longrightarrow>
     \<exists>cy'. cycle_step B c metis Start_check cy = Some cy'"
  by (auto simp: neq_Nil_conv)

definition cycle_over :: "cycle \<Rightarrow> bool" where
  "cycle_over cy \<longleftrightarrow> cy_todo cy = [] \<and> cy_running cy = []"

section \<open>The main loop\<close>

text \<open>
  What an event adds to the record of ended checks, each with the opportunity it reported, and to the log of Metis's
  replies.
\<close>

type_synonym check_log = "(entry \<times> quote_pair option) list"

fun ended :: "f64 config \<Rightarrow> metis_client \<Rightarrow> cycle_event \<Rightarrow> cycle \<Rightarrow> check_log" where
  "ended c metis (Check_done i now http1 http2) cy =
     (let (amt, tok, direct) = cy_running cy ! i
      in [((amt, tok, direct), fst (quote_check metis http1 http2 tok amt direct
            (tr_min_profit_lamports (cf_trading c)) (w_metrics (cy_world cy), cy_tokens cy)))])"
| "ended c metis ev cy = []"

fun replied :: "cycle_event \<Rightarrow> cycle \<Rightarrow> insert_log \<Rightarrow> insert_log" where
  "replied (Reply i now ms r) cy L = reply_log (Fetched i now ms r) (cy_world cy) L"
| "replied ev cy L = L"

text \<open>
  \<open>main_run B c x mints tm n hist L cy\<close>: after some events, in the cycle number \<open>n\<close>, with the checks \<open>hist\<close>
  ended so far and the replies \<open>L\<close>. A cycle always ends with \<open>Ok\<close>, and the next one starts.
\<close>

inductive main_run ::
    "base64_engine \<Rightarrow> f64 config \<Rightarrow> 'v calc_ctx \<Rightarrow> string list \<Rightarrow> token_metrics \<Rightarrow>
     nat \<Rightarrow> check_log \<Rightarrow> insert_log \<Rightarrow> cycle \<Rightarrow> bool"
  for B c x mints tm where
  start: "all_pairs (cf_trading c) mints = Some pairs \<Longrightarrow>
    main_run B c x mints tm 0 [] {} (begin_cycle c pairs (world_new (cx_template_store x)) tm)"
| step: "main_run B c x mints tm n hist L cy \<Longrightarrow> cycle_step B c (cx_metis x) ev cy = Some cy' \<Longrightarrow>
    main_run B c x mints tm n (hist @ ended c (cx_metis x) ev cy) (replied ev cy L) cy'"
| again: "main_run B c x mints tm n hist L cy \<Longrightarrow> cycle_over cy \<Longrightarrow>
    all_pairs (cf_trading c) mints = Some pairs \<Longrightarrow>
    main_run B c x mints tm (Suc n) hist L (begin_cycle c pairs (cy_world cy) (cy_tokens cy))"

end
