(* ===== verification/Loop_Sample.thy ===== *)
theory Loop_Sample
  imports Scan_Cycle Quote_Properties
begin

text \<open>
  A run of the main loop from startup on concrete values: one token, one amount of ten lamports, two checks. The first finds an
  opportunity, Metis answers, and its instruction is queued; the second ends the cycle.
\<close>

section \<open>A run from startup\<close>

definition loop_config :: "f64 config" where
  "loop_config =
     \<lparr>cf_metis = cf_metis sample_bot_config,
      cf_trading = \<lparr>tr_min_amount_sol = f64_of_decimal 1 8, tr_max_amount_sol = f64_of_decimal 1 8,
        tr_step_sol = f64_of_decimal 1 8, tr_min_profit_lamports = 6600, tr_base_fee_lamports = 5000,
        tr_tokens_file = ''tokens.txt''\<rparr>,
      cf_jito = \<lparr>ji_urls = [''r''], ji_uuid = [], ji_trading_keypair = ''k'', ji_tip_min_lamports = 0,
        ji_tip_max_lamports = 0, ji_tip_profit_percent = f64_of_decimal 0 0, ji_max_bundles_per_second = 5\<rparr>,
      cf_rpc = cf_rpc sample_bot_config, cf_yellowstone_grpc = cf_yellowstone_grpc sample_bot_config,
      cf_performance = cf_performance sample_bot_config,
      cf_simulation = simulation_default, cf_jito_grpc = jito_grpc_default,
      cf_template_cache = \<lparr>tc_save_new = True, tc_serve_route = False, tc_serve_from_metis = True\<rparr>\<rparr>"

lemma loop_start:
  "\<exists>tm x. async_main sample_boot (\<lambda>_. None) loop_config = Inr ([''EPj''], tm, x) \<and>
     cx_template_store x = store_new"
proof -
  have "load_tokens (Some ''EPj'') = Inr [''EPj'']" by code_simp
  then show ?thesis
    by (simp add: async_main_def sample_boot_def loop_config_def read_keypair_def sim_start_def
        simulation_default_def store_start_def load_from_disk_def load_routes_from_disk_def Let_def split: prod.split)
qed

lemma ten_lamports: "to_lamports (f64_of_decimal 1 8) = 10"
  by code_simp

lemma loop_pairs: "all_pairs (cf_trading loop_config) [''EPj''] = Some [(10, ''EPj'', False), (10, ''EPj'', True)]"
  by (simp add: all_pairs_def loop_config_def ten_lamports scan_pairs_def scan_loop.simps amount_entries_def)

abbreviation leg1 :: quote_response where
  "leg1 \<equiv> sample_leg (string_of_u64 500) ''p1''"

abbreviation leg2 :: quote_response where
  "leg2 \<equiv> sample_leg (string_of_u64 20000) ''p2''"

lemma loop_check:
  "fst (quote_check metis (sample_http leg1) (sample_http leg2) ''EPj'' 10 d 6600 c0) =
     Some (wanted_pair ''EPj'' 10 d leg1 leg2 20000)"
proof -
  have t: "saturating_add 10 6600 < 20000" by (simp add: saturating_add_def)
  have r: "route_pools (sample_leg x y) = [y]" for x y
    by (simp add: route_pools_def sample_leg_def hop_amm_key_def List.map_filter_def)
  have g: "get_quote (sample_http q) c i out a d = Inr q" for q c i out a d
    by (simp add: get_quote_def sample_http_def)
  have o: "out_amount (sample_leg x y) = x" for x y by (simp add: sample_leg_def)
  show ?thesis
    unfolding quote_check_Some_iff g
    by (intro exI [of _ leg1] exI [of _ 500] exI [of _ leg2] exI [of _ 20000]) (simp add: o t r)
qed

lemma ram_off_dispatch:
  assumes "\<not> tc_serve_route tc" "tc_serve_from_metis tc" "w_tasks w = []" "w_lifo w = []"
    and "qp_only_direct p \<longrightarrow> qp_hop_count p = 2" "merge_quotes (qp_quote1 p) (qp_quote2 p) (floor_of (qp_amount p)) = Inr q"
  shows "\<exists>t. w_tasks (dispatch_pair B tc now p w) = [t] \<and> ft_hop_count t = qp_hop_count p \<and>
    w_lifo (dispatch_pair B tc now p w) = [] \<and> ft_save_new t = tc_save_new tc \<and>
    w_store (dispatch_pair B tc now p w) = w_store w"
  using assms by (auto simp: dispatch_pair_def tier1_def tier2_def tier3_def Let_def split: prod.split)

lemma route_count_record_hops: "route_count (record_hops plan slot g) = route_count g"
  by (simp add: record_hops_def route_count_def split: option.split)

lemma route_count_first: "route_count (insert_route B sig ixs a q plan store_new) = 1"
  by (simp add: insert_route_def store_new_def hm_contains_def hm_get_def push_hot_route_def index_pair_def
      route_count_def hm_len_def hm_insert_def ROUTE_SEG_CAP_def Let_def split: option.split)

text \<open>The record of the first check.\<close>

definition first_check :: "entry \<times> quote_pair option" where
  "first_check = ((10, ''EPj'', False), Some (wanted_pair ''EPj'' 10 False leg1 leg2 20000))"

lemma loop_run:
  assumes x: "cx_template_store x = store_new"
  shows "\<exists>L cy. main_run plain_engine loop_config x [''EPj''] tm 0 [first_check] L cy \<and>
    (sample_reply, 2) \<in> queued (cy_world cy) \<and> route_count (w_store (cy_world cy)) = 1 \<and> cy_running cy = [] \<and> cy_todo cy = [(10, ''EPj'', True)] \<and>
    0 < cy_buffer cy"
proof -
  let ?step = "cycle_step plain_engine loop_config (cx_metis x)"
  let ?run = "main_run plain_engine loop_config x [''EPj''] tm 0"
  define cy0 where "cy0 = begin_cycle loop_config [(10, ''EPj'', False), (10, ''EPj'', True)] (world_new store_new) tm"
  have r0: "?run [] {} cy0" using main_run.start [OF loop_pairs, of plain_engine x tm] by (simp add: cy0_def x)
  define cy1 where "cy1 = cy0\<lparr>cy_todo := [(10, ''EPj'', True)], cy_running := [(10, ''EPj'', False)]\<rparr>"
  have "?step Start_check cy0 = Some cy1"
    by (simp add: cy0_def cy1_def begin_cycle_def max_concurrent_def)
  note r1 = main_run.step [OF r0 this]
  let ?w1 = "cy_world cy1" and ?p = "wanted_pair ''EPj'' 10 False leg1 leg2 20000"
  obtain m tm' where q: "quote_check (cx_metis x) (sample_http leg1) (sample_http leg2) ''EPj'' 10 False 6600
      (w_metrics ?w1, cy_tokens cy1) = (Some ?p, m, tm')"
    using loop_check [of "cx_metis x" False "(w_metrics ?w1, cy_tokens cy1)"]
    by (metis prod.collapse)
  let ?w2 = "dispatch_pair plain_engine (cf_template_cache loop_config) 3 ?p (?w1\<lparr>w_metrics := m\<rparr>)"
  define cy2 where "cy2 = cy1\<lparr>cy_running := [], cy_world := ?w2, cy_tokens := tm'\<rparr>"
  have "tr_min_profit_lamports (cf_trading loop_config) = 6600" by (simp add: loop_config_def)
  then have "?step (Check_done 0 3 (sample_http leg1) (sample_http leg2)) cy1 = Some cy2"
    using q by (simp add: cy2_def) (simp add: cy1_def)
  note r2 = main_run.step [OF r1 this]
  have ended: "ended loop_config (cx_metis x) (Check_done 0 3 (sample_http leg1) (sample_http leg2)) cy1 = [first_check]"
    using q by (simp add: first_check_def loop_config_def) (simp add: cy1_def)
  have "\<exists>t. w_tasks ?w2 = [t] \<and> ft_hop_count t = qp_hop_count ?p \<and> w_lifo ?w2 = [] \<and>
      ft_save_new t = tc_save_new (cf_template_cache loop_config) \<and> w_store ?w2 = w_store (?w1\<lparr>w_metrics := m\<rparr>)"
    by (rule ram_off_dispatch) (simp_all add: loop_config_def cy1_def cy0_def begin_cycle_def world_new_def
        wanted_pair_def merge_quotes_def sample_leg_def)
  then obtain t where t: "w_tasks ?w2 = [t]" "ft_hop_count t = 2" "w_lifo ?w2 = []" "ft_save_new t" "w_store ?w2 = store_new"
    by (auto simp: wanted_pair_def plan_hops_def sample_leg_def loop_config_def cy1_def cy0_def begin_cycle_def world_new_def)
  define cy3 where "cy3 = cy2\<lparr>cy_world := scan_step plain_engine (cf_template_cache loop_config)
     (Fetched 0 4 5 (Inr sample_reply)) ?w2\<rparr>"
  have "?step (Reply 0 4 5 (Inr sample_reply)) cy2 = Some cy3"
    by (simp add: cy3_def) (simp add: cy2_def t)
  note r3 = main_run.step [OF r2 this]
  have "(sample_reply, 2) \<in> queued (cy_world cy3)"
    by (simp add: cy3_def t queued_def finish_fetch_lifo new_item_def)
  moreover have "route_count (w_store (cy_world cy3)) = 1"
    by (simp add: cy3_def t finish_fetch_parts route_count_record_hops route_count_first)
  moreover have "cy_running cy3 = []" "cy_todo cy3 = [(10, ''EPj'', True)]" "0 < cy_buffer cy3"
    by (simp_all add: cy3_def cy2_def cy1_def cy0_def begin_cycle_def max_concurrent_def)
  moreover have "?run [first_check] (replied (Reply 0 4 5 (Inr sample_reply)) cy2 (replied
      (Check_done 0 3 (sample_http leg1) (sample_http leg2)) cy1 (replied Start_check cy0 {}))) cy3"
    using r3 ended by (simp only: ended.simps append_Nil append_Nil2)
  ultimately show ?thesis by blast
qed

lemma loop_over:
  assumes x: "cx_template_store x = store_new"
  shows "\<exists>hist L cy. main_run plain_engine loop_config x [''EPj''] tm 0 hist L cy \<and> cycle_over cy"
proof -
  obtain L cy where r: "main_run plain_engine loop_config x [''EPj''] tm 0 [first_check] L cy"
      "cy_running cy = []" "cy_todo cy = [(10, ''EPj'', True)]" "0 < cy_buffer cy"
    using loop_run [OF x, of tm] by blast
  define cy1 where "cy1 = cy\<lparr>cy_todo := [], cy_running := [(10, ''EPj'', True)]\<rparr>"
  have "cycle_step plain_engine loop_config (cx_metis x) Start_check cy = Some cy1"
    by (simp add: r cy1_def)
  note r1 = main_run.step [OF r(1) this]
  let ?ev = "Check_done 0 6 (sample_http leg1) (sample_http leg2)"
  have "0 < length (cy_running cy1)" by (simp add: cy1_def)
  from check_done_enabled [OF this]
  obtain cy2 where s: "cycle_step plain_engine loop_config (cx_metis x) ?ev cy1 = Some cy2" by blast
  then have "cycle_over cy2" by (auto simp: cycle_over_def cy1_def split: prod.splits option.splits)
  with main_run.step [OF r1 s] show ?thesis by blast
qed

end
