(* ===== verification/Scan_Properties.thy ===== *)
theory Scan_Properties
  imports Scan_Cycle Loop_Sample
begin

text \<open>
  What the main loop guarantees over any number of cycles: every entry is checked once per cycle with a
  bounded number of checks in flight, a cycle never gets stuck, the books of requests and opportunities balance,
  and a sent transaction trades one of the configured amounts.
\<close>

section \<open>The counters\<close>

text \<open>The requests of quote checks: what is left of the count without the requests for instructions.\<close>

definition check_requests :: "world \<Rightarrow> u64" where
  "check_requests w = (let m = w_metrics w in
     metis_req_sent m - ix_from_metis m - swap_ix_failed m - of_nat (length (w_tasks w)))"

text \<open>What dispatching and answering requests leaves alone.\<close>

definition same_checks :: "world \<Rightarrow> world \<Rightarrow> bool" where
  "same_checks w w' \<longleftrightarrow> check_requests w' = check_requests w \<and>
     metis_resp_ok (w_metrics w') = metis_resp_ok (w_metrics w)"

lemmas same_checks_simps = same_checks_def check_requests_def Let_def

lemma same_checks_trans: "same_checks w w1 \<Longrightarrow> same_checks w1 w2 \<Longrightarrow> same_checks w w2"
  by (simp add: same_checks_def)

lemma same_checks_tier1: "tier1 B tc now sig a fl h w = (b, w') \<Longrightarrow> same_checks w w'"
  by (auto simp: tier1_def same_checks_simps serve_from_ram_def push_to_queue_def
      split: if_splits prod.splits option.splits)

lemma same_checks_tier2: "tier2 B tc now plan a fl h w = (b, w') \<Longrightarrow> same_checks w w'"
  by (auto simp: tier2_def same_checks_simps serve_from_ram_def push_to_queue_def
      split: if_splits prod.splits option.splits)

lemma same_checks_tier3: "same_checks w (tier3 tc sig q a fl h w)"
  by (simp add: tier3_def same_checks_simps)

lemma same_checks_dispatch: "same_checks w (dispatch_pair B tc now p w)"
proof (cases "merge_quotes (qp_quote1 p) (qp_quote2 p) (floor_of (qp_amount p))")
  case (Inl e)
  then show ?thesis by (simp add: dispatch_pair_def same_checks_simps)
next
  case (Inr q)
  let ?a = "qp_amount p" and ?h = "qp_hop_count p" and ?sig = "route_sig (route_plan q)"
  obtain b1 w1 where t1: "tier1 B tc now ?sig ?a (floor_of ?a) ?h w = (b1, w1)" by force
  obtain b2 w2 where t2: "tier2 B tc now (route_plan q) ?a (floor_of ?a) ?h w1 = (b2, w2)" by force
  note s1 = same_checks_tier1 [OF t1]
  note s2 = same_checks_trans [OF s1 same_checks_tier2 [OF t2]]
  note s3 = same_checks_trans [OF s2 same_checks_tier3, of tc ?sig q ?a "floor_of ?a" ?h]
  have "same_checks w (w\<lparr>w_metrics := (w_metrics w)\<lparr>dropped_multi_hop := x, tx_dropped := y\<rparr>\<rparr>)" for x y
    by (simp add: same_checks_simps)
  with s1 s2 s3 show ?thesis
    by (cases b1; cases b2) (simp_all add: dispatch_pair_def Let_def Inr t1 t2)
qed

lemma same_checks_finish:
  "length (w_tasks w) = Suc (length ts) \<Longrightarrow> same_checks w (finish_fetch B now ms r t (w\<lparr>w_tasks := ts\<rparr>))"
proof (cases r)
  case (Inl e)
  assume "length (w_tasks w) = Suc (length ts)"
  with Inl show ?thesis by (cases e) (simp_all add: same_checks_simps finish_fetch_def count_swap_error_def)
next
  case (Inr x)
  assume "length (w_tasks w) = Suc (length ts)"
  with Inr show ?thesis by (simp add: same_checks_simps finish_fetch_def push_to_queue_def)
qed

lemma quote_check_counts:
  assumes "quote_check metis http1 http2 tok a d mp (m, tm) = (r, m', tm')"
  shows "m' = m\<lparr>metis_req_sent := metis_req_sent m + 2, metis_resp_total := metis_resp_total m',
      metis_resp_ok := metis_resp_ok m + (if r = None then 0 else 1), dropped_same_pool := dropped_same_pool m'\<rparr>"
  using assms
  by (cases m) (auto simp: quote_check_def judge_pair_def Let_def split: sum.splits option.splits if_splits)

lemma quote_check_amount:
  "quote_check metis http1 http2 tok a d mp c = (Some p, c') \<Longrightarrow> qp_amount p = a"
  by (auto simp: quote_check_def judge_pair_def Let_def split: sum.splits option.splits if_splits)

lemma funnel_quote_counters [simp]:
  "funnel n (w\<lparr>w_metrics := m\<lparr>metis_req_sent := x1, metis_resp_total := x2, metis_resp_ok := x3,
     dropped_same_pool := x4\<rparr>\<rparr>) = funnel n (w\<lparr>w_metrics := m\<rparr>)"
  by (simp add: funnel_def)

section \<open>The books\<close>

definition cycle_books :: "check_log \<Rightarrow> cycle \<Rightarrow> bool" where
  "cycle_books hist cy \<longleftrightarrow> (let w = cy_world cy in
     check_requests w = 2 * of_nat (length hist) \<and>
     (\<exists>k. funnel k w \<and> metis_resp_ok (w_metrics w) = of_nat k))"

lemma cycle_books_step:
  assumes "cycle_step B c metis ev cy = Some cy'" "cycle_books hist cy"
  shows "cycle_books (hist @ ended c metis ev cy) cy'"
proof -
  let ?w = "cy_world cy"
  obtain k where k: "funnel k ?w" "metis_resp_ok (w_metrics ?w) = of_nat k"
      and req: "check_requests ?w = 2 * of_nat (length hist)"
    using assms(2) by (auto simp: cycle_books_def Let_def)
  show ?thesis
  proof (cases ev)
    case Start_check
    with assms show ?thesis by (auto simp: cycle_books_def split: list.splits if_splits)
  next
    case (Check_done i now http1 http2)
    obtain amt tok direct where e: "cy_running cy ! i = (amt, tok, direct)" by (cases "cy_running cy ! i")
    obtain r m' tm' where q: "quote_check metis http1 http2 tok amt direct
        (tr_min_profit_lamports (cf_trading c)) (w_metrics ?w, cy_tokens cy) = (r, m', tm')"
      by (cases "quote_check metis http1 http2 tok amt direct
        (tr_min_profit_lamports (cf_trading c)) (w_metrics ?w, cy_tokens cy)") auto
    let ?w1 = "?w\<lparr>w_metrics := m'\<rparr>"
    have ok: "metis_resp_ok m' = of_nat k + (if r = None then 0 else 1)"
      using arg_cong [OF quote_check_counts [OF q], of metis_resp_ok] k(2) by simp
    have f: "funnel k ?w1"
      using k(1) by (subst quote_check_counts [OF q]) simp
    have "check_requests ?w1 = 2 + check_requests ?w"
      by (subst quote_check_counts [OF q]) (simp add: check_requests_def Let_def)
    then have req1: "check_requests ?w1 = 2 + 2 * of_nat (length hist)" by (simp add: req)
    have w': "cy_world cy' = (case r of Some p \<Rightarrow> dispatch_pair B (cf_template_cache c) now p ?w1 | None \<Rightarrow> ?w1)"
      using assms(1) Check_done e q by (auto split: if_splits option.splits)
    show ?thesis
    proof (cases r)
      case None
      with f ok req1 show ?thesis by (auto simp: cycle_books_def Check_done w' e algebra_simps)
    next
      case (Some p)
      with funnel_dispatch [OF f, of B "cf_template_cache c" now p] ok req1
        same_checks_dispatch [of ?w1 B "cf_template_cache c" now p]
      show ?thesis
        by (auto simp: cycle_books_def Check_done w' e same_checks_def algebra_simps
            intro!: exI [of _ "Suc k"])
    qed
  next
    case (Reply i now ms r)
    let ?ts = "take i (w_tasks ?w) @ drop (Suc i) (w_tasks ?w)"
    have i: "i < length (w_tasks ?w)"
        and w': "cy_world cy' = finish_fetch B now ms r (w_tasks ?w ! i) (?w\<lparr>w_tasks := ?ts\<rparr>)"
      using assms(1) Reply by (auto split: if_splits)
    note len = length_take_drop [OF i]
    show ?thesis
      using funnel_finish [OF k(1) len, of B now ms r "w_tasks ?w ! i"]
        same_checks_finish [OF len, of B now ms r "w_tasks ?w ! i"] k(2) req
      by (auto simp: cycle_books_def Reply w' same_checks_def Let_def)
  qed
qed

lemma main_run_books: "main_run B c x mints tm n hist L cy \<Longrightarrow> cycle_books hist cy"
proof (induction rule: main_run.induct)
  case (start pairs)
  have "funnel 0 (world_new (cx_template_store x))" by (rule funnel_new)
  then show ?case
    by (auto simp: cycle_books_def begin_cycle_def check_requests_def world_new_def metrics_new_def
        intro!: exI [of _ 0])
qed (auto simp: cycle_books_step, simp add: cycle_books_def begin_cycle_def)



section \<open>The checks of a cycle\<close>

definition checks_ok :: "entry list \<Rightarrow> nat \<Rightarrow> check_log \<Rightarrow> cycle \<Rightarrow> bool" where
  "checks_ok pairs n hist cy \<longleftrightarrow>
     mset (map fst hist) + mset (cy_running cy) + mset (cy_todo cy) = repeat_mset (Suc n) (mset pairs) \<and>
     length (cy_running cy) \<le> cy_buffer cy \<and> 0 < cy_buffer cy"

lemma mset_take_drop:
  assumes "i < length xs"
  shows "mset xs = add_mset (xs ! i) (mset (take i xs @ drop (Suc i) xs))"
  by (subst id_take_nth_drop [OF assms]) simp

lemma buffer_step: "cycle_step B c metis ev cy = Some cy' \<Longrightarrow> cy_buffer cy' = cy_buffer cy"
  by (cases ev) (auto simp: Let_def split: list.splits if_splits prod.splits)

lemma checks_ok_step:
  assumes "cycle_step B c metis ev cy = Some cy'" "checks_ok pairs n hist cy"
  shows "checks_ok pairs n (hist @ ended c metis ev cy) cy'"
proof (cases ev)
  case Start_check
  with assms show ?thesis by (auto simp: checks_ok_def split: list.splits if_splits)
next
  case (Check_done i now http1 http2)
  then have i: "i < length (cy_running cy)"
      and cy': "cy_todo cy' = cy_todo cy" "cy_running cy' = take i (cy_running cy) @ drop (Suc i) (cy_running cy)"
    using assms(1) by (auto simp: Let_def split: if_splits prod.splits)
  have "mset (cy_running cy) = add_mset (cy_running cy ! i) (mset (cy_running cy'))"
    "length (cy_running cy) = Suc (length (cy_running cy'))"
    unfolding cy'(2) using mset_take_drop [OF i] length_take_drop [OF i] .
  with assms(2) show ?thesis
    by (cases "cy_running cy ! i") (simp add: checks_ok_def cy'(1) Check_done buffer_step [OF assms(1)])
next
  case (Reply i now ms r)
  with assms show ?thesis by (auto simp: checks_ok_def split: if_splits)
qed

lemma max_concurrent_pos: "0 < max_concurrent a b"
  by (simp add: max_concurrent_def less_max_iff_disj)

lemma main_run_checks:
  assumes "all_pairs (cf_trading c) mints = Some pairs"
  shows "main_run B c x mints tm n hist L cy \<Longrightarrow> checks_ok pairs n hist cy"
proof (induction rule: main_run.induct)
  case (again n hist L cy pairs')
  with assms show ?case by (simp add: checks_ok_def begin_cycle_def cycle_over_def max_concurrent_pos)
qed (use assms in \<open>auto simp: checks_ok_step checks_ok_def [of _ 0] begin_cycle_def max_concurrent_pos\<close>)

lemma main_run_entries:
  assumes "all_pairs (cf_trading c) mints = Some pairs" "main_run B c x mints tm n hist L cy"
  shows "fst ` set hist \<subseteq> set pairs"
proof
  fix e
  assume "e \<in> fst ` set hist"
  then have "e \<in># repeat_mset (Suc n) (mset pairs)"
    using main_run_checks [OF assms] unfolding checks_ok_def
    by (metis in_multiset_in_set list.set_map mset_map union_iff)
  then show "e \<in> set pairs" by (induction n) auto
qed

text \<open>
  Property C6. A cycle is complete: whenever one is over, every entry of the enumeration has
  been checked exactly once in each cycle so far, in whatever order the checks ended; and at no moment are more
  checks in flight than configured.
\<close>

theorem every_entry_checked_once:
  assumes "main_run B c x mints tm n hist L cy" "all_pairs (cf_trading c) mints = Some pairs"
  shows "(cycle_over cy \<longrightarrow> mset (map fst hist) = repeat_mset (Suc n) (mset pairs)) \<and>
    length (cy_running cy) \<le> max 1 (pf_max_concurrent_quotes (cf_performance c))"
proof -
  have "cy_buffer cy \<le> max 1 (pf_max_concurrent_quotes (cf_performance c))"
    using assms(1)
    by (induction rule: main_run.induct) (auto simp: buffer_step begin_cycle_def max_concurrent_def)
  with main_run_checks [OF assms(2,1)] show ?thesis
    by (auto simp: checks_ok_def cycle_over_def)
qed

theorem every_entry_checked_once_witness:
  "\<exists>tm x hist L cy. async_main sample_boot (\<lambda>_. None) loop_config = Inr ([''EPj''], tm, x) \<and>
     main_run plain_engine loop_config x [''EPj''] tm 0 hist L cy \<and>
     mset (map fst hist) = {#(10, ''EPj'', False), (10, ''EPj'', True)#}"
proof -
  obtain tm x where x: "async_main sample_boot (\<lambda>_. None) loop_config = Inr ([''EPj''], tm, x)"
      "cx_template_store x = store_new" using loop_start by blast
  obtain hist L cy where r: "main_run plain_engine loop_config x [''EPj''] tm 0 hist L cy" "cycle_over cy"
    using loop_over [OF x(2)] by blast
  then have "mset (map fst hist) = {#(10, ''EPj'', False), (10, ''EPj'', True)#}"
    using every_entry_checked_once [OF r(1) loop_pairs] by (simp add: add_mset_commute)
  with x(1) r(1) show ?thesis by blast
qed

section \<open>No cycle gets stuck\<close>

text \<open>The events a cycle still needs, and the next one under a fair scheduler.\<close>

definition work_left :: "cycle \<Rightarrow> nat" where
  "work_left cy = 2 * length (cy_todo cy) + length (cy_running cy)"

definition is_reply :: "cycle_event \<Rightarrow> bool" where
  "is_reply ev = (case ev of Reply _ _ _ _ \<Rightarrow> True | _ \<Rightarrow> False)"

lemma work_left_step:
  assumes "cycle_step B c metis ev cy = Some cy'"
  shows "work_left cy = work_left cy' + (if is_reply ev then 0 else 1)"
  using assms
  by (cases ev) (auto simp: work_left_def is_reply_def Let_def split: list.splits if_splits prod.splits)

text \<open>
  Property C7. No cycle gets stuck: at every moment of the main loop the current cycle can go on,
  a check in flight can end whatever the replies to it are, and every schedule of starts and
  ends finishes the cycle after exactly the same number of events; answered requests for instructions do not delay it.
\<close>

theorem cycle_never_stuck:
  assumes "main_run B c x mints tm n hist L cy"
  shows "(cycle_over cy \<longleftrightarrow> work_left cy = 0) \<and>
    (cycle_over cy \<or> (\<exists>ev cy'. \<not> is_reply ev \<and> cycle_step B c (cx_metis x) ev cy = Some cy')) \<and>
    (\<forall>i now http1 http2. i < length (cy_running cy) \<longrightarrow>
      (\<exists>cy'. cycle_step B c (cx_metis x) (Check_done i now http1 http2) cy = Some cy')) \<and>
    (\<forall>ev cy'. cycle_step B c (cx_metis x) ev cy = Some cy' \<longrightarrow>
      work_left cy = work_left cy' + (if is_reply ev then 0 else 1))"
proof -
  have buffer: "0 < cy_buffer cy"
    using assms by (induction rule: main_run.induct) (auto simp: buffer_step begin_cycle_def max_concurrent_pos)
  have progress: "cycle_over cy \<or> (\<exists>ev cy'. \<not> is_reply ev \<and> cycle_step B c (cx_metis x) ev cy = Some cy')"
  proof (cases "cy_running cy = []")
    case True
    have "\<not> is_reply Start_check" by (simp add: is_reply_def)
    with start_enabled [OF True _ buffer, of B c "cx_metis x"] show ?thesis
      unfolding cycle_over_def using True by metis
  next
    case False
    have "\<not> is_reply (Check_done 0 undefined undefined undefined)" by (simp add: is_reply_def)
    with check_done_enabled [of 0 cy B c "cx_metis x"] False show ?thesis by blast
  qed
  show ?thesis
  proof (intro conjI allI impI)
    show "cycle_over cy \<longleftrightarrow> work_left cy = 0" by (simp add: cycle_over_def work_left_def)
  qed (rule progress, erule check_done_enabled, erule work_left_step)
qed

theorem cycle_never_stuck_witness:
  "\<exists>tm x L cy ev cy'. async_main sample_boot (\<lambda>_. None) loop_config = Inr ([''EPj''], tm, x) \<and>
     main_run plain_engine loop_config x [''EPj''] tm 0 [first_check] L cy \<and>
     \<not> is_reply ev \<and> cycle_step plain_engine loop_config (cx_metis x) ev cy = Some cy'"
proof -
  obtain tm x where x: "async_main sample_boot (\<lambda>_. None) loop_config = Inr ([''EPj''], tm, x)"
      "cx_template_store x = store_new" using loop_start by blast
  obtain L cy where r: "main_run plain_engine loop_config x [''EPj''] tm 0 [first_check] L cy"
      "cy_todo cy = [(10, ''EPj'', True)]"
    using loop_run [OF x(2)] by blast
  then have "\<not> cycle_over cy" by (simp add: cycle_over_def)
  with x(1) r(1) cycle_never_stuck [OF r(1)] show ?thesis by blast
qed

section \<open>Amounts\<close>

lemma powi_range: "(2 :: real) powi -1000 \<le> 1 / 10 ^ 10" "(10 :: real) ^ 20 \<le> 2 powi 1000"
  by (simp_all add: power_int_def power_one_over)

text \<open>
  Property C37. A configured amount with up to nine decimals becomes its number of lamports or one less: the
  two roundings, of the decimal to a double and of the product, can leave the result just below the integer,
  and the cast truncates. (Amounts below 2^51 lamports, more than two million SOL.)
\<close>

theorem lamports_of_decimal:
  assumes "0 < n" "d \<le> 9" "n * 10 ^ (9 - d) < 2 ^ 51"
  shows "uint (to_lamports (f64_of_decimal n d)) \<in> {n * 10 ^ (9 - d) - 1, n * 10 ^ (9 - d)}"
proof -
  let ?k = "n * 10 ^ (9 - d)" and ?v = "real_of_int n / real_of_int (10 ^ d)"
  have "(10 :: real) ^ (9 - d) * 10 ^ d = 10 ^ 9" using assms(2) by (simp flip: power_add)
  then have v: "?v = real_of_int ?k / 10 ^ 9" by (simp add: field_simps)
  have "1 \<le> ?k" using assms(1) by (simp add: int_one_le_iff_zero_less)
  then have "1 \<le> real_of_int ?k" by (simp only: of_int_1_le_iff)
  moreover have "real_of_int ?k < real_of_int (2 ^ 51)" using assms(3) by (simp only: of_int_less_iff)
  ultimately have "2 powi -1000 \<le> ?v" "?v \<le> 2 powi 1000" "2 * 2 powi -1000 \<le> real_of_int ?k"
    "2 * real_of_int ?k \<le> 2 powi 1000" "(2 * (1 / 2 ^ 53) + 1 / 2 ^ 53 * (1 / 2 ^ 53)) * real_of_int ?k < 1"
    using powi_range unfolding v by simp_all
  moreover have "f64_val LAMPORTS_PER_SOL = Some 1000000000" by (simp add: LAMPORTS_PER_SOL_def)
  ultimately have "f64_trunc (f64_round False n (10 ^ d) 0 * LAMPORTS_PER_SOL) \<in> {?k - 1, ?k}"
    using assms(1,3) v by (intro f64.trunc_scaled) simp_all
  then have k: "f64_trunc (f64_of_decimal n d * LAMPORTS_PER_SOL) \<in> {?k - 1, ?k}" by (simp only: f64_of_decimal_def)
  then have "0 \<le> f64_trunc (f64_of_decimal n d * LAMPORTS_PER_SOL)"
    "f64_trunc (f64_of_decimal n d * LAMPORTS_PER_SOL) < 2 ^ 64"
    using \<open>1 \<le> ?k\<close> assms(3) by auto
  with k show ?thesis by (simp only: to_lamports_def uint_f64_as_u64)
qed

theorem lamports_of_decimal_witness:
  "uint (to_lamports (f64_of_decimal 157 4)) \<in> {15699999, 15700000}"
  using lamports_of_decimal [of 157 4] by simp

text \<open>The lower of the two does occur: 0.0157 SOL is traded as 15699999 lamports.\<close>

theorem lamport_lost: "to_lamports (f64_of_decimal 157 4) = 15699999"
  by code_simp

text \<open>The amounts of the shipped \<open>config.toml\<close> are exact.\<close>

definition shipped_trading :: "f64 trading_config" where
  "shipped_trading =
     \<lparr>tr_min_amount_sol = f64_of_decimal 1 3, tr_max_amount_sol = f64_of_decimal 5 2,
      tr_step_sol = f64_of_decimal 2 4, tr_min_profit_lamports = 6600, tr_base_fee_lamports = 5000,
      tr_tokens_file = ''tokens.txt''\<rparr>"

lemma shipped_lamports:
  "to_lamports (tr_min_amount_sol shipped_trading) = 1000000"
  "to_lamports (tr_max_amount_sol shipped_trading) = 50000000"
  "to_lamports (tr_step_sol shipped_trading) = 200000"
  by code_simp+

lemma shipped_pairs_per_scan: "pairs_per_scan shipped_trading n = 246 * of_nat n * 2"
proof -
  have "f64_as_u64 ((tr_max_amount_sol shipped_trading - tr_min_amount_sol shipped_trading) / tr_step_sol shipped_trading) = 245"
    by code_simp
  then show ?thesis by (simp add: pairs_per_scan_def)
qed

text \<open>
  The printed figure can be wrong: from 0.1 to 0.3 SOL in steps of 0.1 the bot announces two amounts and
  scans three, because the quotient of the doubles is just below 2.
\<close>

theorem printed_pairs_short:
  "(let t = \<lparr>tr_min_amount_sol = f64_of_decimal 1 1, tr_max_amount_sol = f64_of_decimal 3 1,
      tr_step_sol = f64_of_decimal 1 1, tr_min_profit_lamports = 0, tr_base_fee_lamports = 0, tr_tokens_file = []\<rparr>
    in map_option length (all_pairs t [m]) = Some 6 \<and> pairs_per_scan t 1 = 4)"
proof -
  have "to_lamports (f64_of_decimal 1 1) = 100000000" "to_lamports (f64_of_decimal 3 1) = 300000000"
    "f64_as_u64 ((f64_of_decimal 3 1 - f64_of_decimal 1 1) / f64_of_decimal 1 1) = 1" by code_simp+
  then show ?thesis
    by (simp add: all_pairs_def pairs_per_scan_def scan_pairs_def scan_loop.simps amount_entries_def)
qed

text \<open>With a step that is less than a lamport the bot never checks anything.\<close>

lemma zero_step_never_scans:
  assumes "to_lamports (tr_step_sol (cf_trading c)) = 0"
    and "to_lamports (tr_min_amount_sol (cf_trading c)) \<le> to_lamports (tr_max_amount_sol (cf_trading c))"
  shows "\<not> main_run B c x mints tm n hist L cy"
proof
  assume "main_run B c x mints tm n hist L cy"
  then show False
    by (induction rule: main_run.induct) (use assms in \<open>simp_all add: all_pairs_def scan_pairs_zero_step_diverges\<close>)
qed

end
