(* ===== verification/Main_Loop.thy ===== *)
theory Main_Loop
  imports Scan_Properties
begin

text \<open>
  From the configuration to Jito: what the main loop queues, over any number of cycles and from
  a store that may hold routes of earlier sessions, belongs to an opportunity that a check reported, and so does every
  transaction the workers make of it.
\<close>

section \<open>What the main loop queues\<close>

lemma replied_simps:
  "replied (Reply i now ms r) cy L = reply_log (Fetched i now ms r) (cy_world cy) L"
  "\<not> is_reply ev \<Longrightarrow> replied ev cy L = L"
  by (cases ev; simp add: is_reply_def)+

lemma reply_log_union: "reply_log ev w (L0 \<union> L) = L0 \<union> reply_log ev w L"
  by (cases "(ev, w, L)" rule: reply_log.cases) (auto simp: Let_def)

lemma replied_union: "replied ev cy (L0 \<union> L) = L0 \<union> replied ev cy L"
  by (cases ev) (simp_all only: replied.simps reply_log_union)

lemma replied_grows: "L \<subseteq> replied ev cy L"
  by (cases ev) (simp_all only: replied.simps reply_log_grows subset_refl)

text \<open>
  Every queued instruction, and every awaited one, belongs to an opportunity that a check reported: it enforces the floor for the
  opportunity's amount and carries its number of hops.
\<close>

definition reported :: "check_log \<Rightarrow> quote_pair \<Rightarrow> bool" where
  "reported hist p \<longleftrightarrow> ((qp_amount p, qp_token_mint p, qp_only_direct p), Some p) \<in> set hist"

definition opportunity_inv :: "base64_engine \<Rightarrow> check_log \<Rightarrow> insert_log \<Rightarrow> world \<Rightarrow> bool" where
  "opportunity_inv B hist L w \<longleftrightarrow>
     floor_inv B (w, L) \<and>
     (\<forall>item \<in> set (w_lifo w). \<exists>p. reported hist p \<and> enforces_floor B L (qp_amount p) (ri_swap_ixs item) \<and>
        ri_hop_count item = qp_hop_count p) \<and>
     (\<forall>t \<in> set (w_tasks w). \<exists>p. reported hist p \<and> ft_amount t = qp_amount p \<and> ft_hop_count t = qp_hop_count p)"

lemma reported_append: "reported hist p \<Longrightarrow> reported (hist @ hist') p"
  by (simp add: reported_def)

lemma opportunity_inv_append: "opportunity_inv B hist L w \<Longrightarrow> opportunity_inv B (hist @ hist') L w"
  unfolding opportunity_inv_def using reported_append by blast

lemma floor_inv_metrics [simp]: "floor_inv B (w\<lparr>w_metrics := m\<rparr>, L) = floor_inv B (w, L)"
  by (simp add: floor_inv_def)

lemma floor_inv_dispatch:
  assumes "floor_inv B (w, L)" "b64_lawful B"
  shows "floor_inv B (dispatch_pair B tc now p w, L)"
    and "pair_effect B L (qp_amount p) (qp_hop_count p) now w (dispatch_pair B tc now p w)"
  using floor_inv_step [OF assms, of tc "Pair now p"] dispatch_effect [of B L w p now tc] assms
  by (simp_all add: floor_inv_def)

lemma opportunity_inv_dispatch:
  assumes inv: "opportunity_inv B hist L (w\<lparr>w_metrics := m\<rparr>)" and B: "b64_lawful B" and p: "reported hist p"
  shows "opportunity_inv B hist L (dispatch_pair B tc now p (w\<lparr>w_metrics := m\<rparr>))"
proof -
  let ?w = "w\<lparr>w_metrics := m\<rparr>"
  have "floor_inv B (?w, L)" using inv by (simp add: opportunity_inv_def)
  note d = floor_inv_dispatch [OF this B, where tc = tc and now = now and p = p]
  have "\<exists>p. reported hist p \<and> ft_amount t = qp_amount p \<and> ft_hop_count t = qp_hop_count p"
    if "t \<in> set (w_tasks (dispatch_pair B tc now p ?w))" for t
  proof -
    from that d(2) have "t \<in> set (w_tasks ?w) \<or> (ft_amount t = qp_amount p \<and> ft_hop_count t = qp_hop_count p)"
      unfolding pair_effect_def by blast
    with inv p show ?thesis unfolding opportunity_inv_def by blast
  qed
  moreover have "\<exists>p. reported hist p \<and> enforces_floor B L (qp_amount p) (ri_swap_ixs item) \<and> ri_hop_count item = qp_hop_count p"
    if "item \<in> set (w_lifo (dispatch_pair B tc now p ?w))" for item
  proof -
    from that d(2) have "item \<in> set (w_lifo ?w) \<or>
        (enforces_floor B L (qp_amount p) (ri_swap_ixs item) \<and> ri_hop_count item = qp_hop_count p)"
      unfolding pair_effect_def by (auto simp: new_item_def)
    with inv p show ?thesis unfolding opportunity_inv_def by blast
  qed
  ultimately show ?thesis using d(1) by (simp add: opportunity_inv_def)
qed

lemma quote_check_carries:
  "quote_check metis http1 http2 tok amt direct minp c = (Some p, c') \<Longrightarrow>
     qp_amount p = amt \<and> qp_token_mint p = tok \<and> qp_only_direct p = direct \<and> saturating_add amt minp < qp_output_wsol p"
  using quote_check_Some_iff [of metis http1 http2 tok amt direct minp c p] by (auto simp: wanted_pair_def)

lemma opportunity_inv_check:
  assumes inv: "opportunity_inv B hist L (cy_world cy)" and B: "b64_lawful B"
    and step: "cycle_step B c metis (Check_done i now http1 http2) cy = Some cy'"
  shows "opportunity_inv B (hist @ ended c metis (Check_done i now http1 http2) cy) L (cy_world cy')"
proof -
  let ?w = "cy_world cy" and ?tc = "cf_template_cache c" and ?minp = "tr_min_profit_lamports (cf_trading c)"
  obtain amt tok direct where e: "cy_running cy ! i = (amt, tok, direct)" by (cases "cy_running cy ! i")
  obtain r m' tm' where q: "quote_check metis http1 http2 tok amt direct ?minp (w_metrics ?w, cy_tokens cy) = (r, m', tm')"
    by (cases "quote_check metis http1 http2 tok amt direct ?minp (w_metrics ?w, cy_tokens cy)") auto
  let ?w1 = "?w\<lparr>w_metrics := m'\<rparr>" and ?hist = "hist @ [((amt, tok, direct), r)]"
  have w': "cy_world cy' = (case r of Some p \<Rightarrow> dispatch_pair B ?tc now p ?w1 | None \<Rightarrow> ?w1)"
    using step e q by (auto split: if_splits option.splits)
  have inv1: "opportunity_inv B ?hist L ?w1"
    using opportunity_inv_append [OF inv] by (simp add: opportunity_inv_def)
  have "opportunity_inv B ?hist L (cy_world cy')"
  proof (cases r)
    case None
    with inv1 show ?thesis by (simp add: w')
  next
    case (Some p)
    with quote_check_carries q have "reported ?hist p" by (fastforce simp: reported_def)
    from opportunity_inv_dispatch [OF inv1 B this] Some show ?thesis by (simp add: w')
  qed
  then show ?thesis using e q by simp
qed

lemma opportunity_inv_reply:
  assumes inv: "opportunity_inv B hist L w" and B: "b64_lawful B" and i: "i < length (w_tasks w)"
  shows "opportunity_inv B hist (reply_log (Fetched i now ms r) w L) (scan_step B tc (Fetched i now ms r) w)"
proof -
  let ?L = "reply_log (Fetched i now ms r) w L" and ?w' = "scan_step B tc (Fetched i now ms r) w"
  let ?t = "w_tasks w ! i"
  obtain p where p: "reported hist p" "ft_amount ?t = qp_amount p" "ft_hop_count ?t = qp_hop_count p"
    using inv nth_mem [OF i] unfolding opportunity_inv_def by blast
  have fl: "ft_floor ?t = floor_of (ft_amount ?t)"
    using inv i by (simp add: opportunity_inv_def floor_inv_def)
  have "floor_inv B (?w', ?L)"
    by (rule floor_inv_step) (use inv B in \<open>simp_all add: opportunity_inv_def\<close>)
  moreover have "\<exists>p. reported hist p \<and> enforces_floor B ?L (qp_amount p) (ri_swap_ixs item) \<and> ri_hop_count item = qp_hop_count p"
    if item: "item \<in> set (w_lifo ?w')" for item
  proof (cases "item \<in> set (w_lifo w)")
    case True
    with inv enforces_floor_mono [OF _ reply_log_grows] show ?thesis unfolding opportunity_inv_def by meson
  next
    case False
    then obtain x where x: "r = Inr x" "item = new_item now x (ft_hop_count ?t)"
      using item i by (cases r) (auto simp: finish_fetch_lifo)
    with i fl p(2) have "enforces_floor B ?L (qp_amount p) x" by (auto simp: enforces_floor_def Let_def)
    with x p show ?thesis by (intro exI [of _ p]) (simp add: new_item_def)
  qed
  moreover have "\<exists>p. reported hist p \<and> ft_amount t = qp_amount p \<and> ft_hop_count t = qp_hop_count p"
    if "t \<in> set (w_tasks ?w')" for t
  proof -
    have "t \<in> set (w_tasks w)"
      using that i by (auto simp: finish_fetch_parts dest: in_set_takeD in_set_dropD)
    with inv show ?thesis unfolding opportunity_inv_def by blast
  qed
  ultimately show ?thesis by (simp add: opportunity_inv_def)
qed

lemma opportunity_inv_step:
  assumes "cycle_step B c metis ev cy = Some cy'" "opportunity_inv B hist L (cy_world cy)" "b64_lawful B"
  shows "opportunity_inv B (hist @ ended c metis ev cy) (replied ev cy L) (cy_world cy')"
proof (cases ev)
  case Start_check
  with assms show ?thesis by (auto split: list.splits if_splits)
next
  case (Check_done i now http1 http2)
  with opportunity_inv_check assms show ?thesis by (simp only: replied.simps)
next
  case (Reply i now ms r)
  with assms have "i < length (w_tasks (cy_world cy))"
    "cy_world cy' = scan_step B (cf_template_cache c) (Fetched i now ms r) (cy_world cy)"
    by (auto split: if_splits)
  with opportunity_inv_reply [OF assms(2,3)] Reply show ?thesis
    by (simp only: replied.simps ended.simps append_Nil2)
qed

text \<open>What the store held before the first cycle: routes that Metis built in earlier sessions.\<close>

definition stored_before :: "base64_engine \<Rightarrow> insert_log \<Rightarrow> store \<Rightarrow> bool" where
  "stored_before B L0 st \<longleftrightarrow> store_inv B L0 st \<and> (\<forall>(sig, ixs, a, q) \<in> L0. q = floor_of a)"

lemma main_run_opportunity:
  assumes "b64_lawful B" "stored_before B L0 (cx_template_store x)"
  shows "main_run B c x mints tm n hist L cy \<Longrightarrow> opportunity_inv B hist (L0 \<union> L) (cy_world cy)"
proof (induction rule: main_run.induct)
  case (start pairs)
  with assms show ?case
    by (auto simp: opportunity_inv_def begin_cycle_def world_new_def floor_inv_def stored_before_def)
next
  case (step n hist L cy ev cy')
  from opportunity_inv_step [OF this(2) this(3) assms(1)] show ?case by (simp only: replied_union)
qed (simp add: begin_cycle_def)

lemma main_run_profit:
  "main_run B c x mints tm n hist L cy \<Longrightarrow> (e, Some p) \<in> set hist \<Longrightarrow>
     saturating_add (qp_amount p) (tr_min_profit_lamports (cf_trading c)) < qp_output_wsol p"
proof (induction arbitrary: e p rule: main_run.induct)
  case (step n hist L cy ev cy')
  have profit: "fst (quote_check metis http1 http2 tok amt direct minp c0) = Some p \<Longrightarrow>
      saturating_add (qp_amount p) minp < qp_output_wsol p" for metis http1 http2 tok amt direct minp c0
    using quote_check_carries [of metis http1 http2 tok amt direct minp c0 p] by (metis prod.collapse)
  show ?case
  proof (cases "(e, Some p) \<in> set hist")
    case False
    with step.prems have "(e, Some p) \<in> set (ended c (cx_metis x) ev cy)" by simp
    then show ?thesis by (cases ev) (auto simp: Let_def dest: profit dest!: sym [of "Some p"] split: prod.splits)
  qed (rule step.IH)
qed auto


lemma stored_before_nothing: "stored_before B {} store_new"
  by (simp add: stored_before_def store_inv_new)


end
