(* ===== verification/Restart.thy ===== *)
theory Restart
  imports Main_Loop Disk_Properties
begin

text \<open>
  Sessions of the bot: a store flushed by one process and loaded at the start of the next still holds only what
  Metis built, so what the main loop guarantees holds across restarts.
\<close>

section \<open>The hop table\<close>

text \<open>Whatever the hop files hold, loading them keeps the table well-formed and leaves the routes alone.\<close>

definition hops_ok :: "(hop_key, hop_template) hmap \<Rightarrow> bool" where
  "hops_ok m \<longleftrightarrow> hm_wf m \<and> (\<forall>k t. hm_get m k = Some t \<longrightarrow> template_key t = k)"

lemma hops_ok_load_template: "hops_ok m \<Longrightarrow> hops_ok (load_template m e)"
  by (cases e) (auto simp: hops_ok_def load_template_def hm_simps hm_intros split: option.splits if_splits)

lemma hops_ok_load_entry: "hops_ok m \<Longrightarrow> hops_ok (fst (load_hop_entry J e (m, n)))"
proof -
  have "hops_ok m \<Longrightarrow> hops_ok (foldl load_template m ts)" for m ts
    by (induction ts arbitrary: m) (simp_all add: hops_ok_load_template)
  then show "hops_ok m \<Longrightarrow> hops_ok (fst (load_hop_entry J e (m, n)))"
    by (auto simp: load_hop_entry_def split: prod.split option.split)
qed

lemma hops_ok_load_entries: "hops_ok m \<Longrightarrow> hops_ok (fst (fold (load_hop_entry J) es (m, n)))"
proof (induction es arbitrary: m n)
  case (Cons e es)
  obtain m' n' where e: "load_hop_entry J e (m, n) = (m', n')" by force
  with hops_ok_load_entry [OF Cons.prems, of J e n] Cons.IH [of m' n'] show ?case by simp
qed simp

lemma load_from_disk_hops:
  "\<exists>m. snd (load_from_disk J dir store_new) = store_new\<lparr>hops := m\<rparr> \<and> hops_ok m"
proof (cases dir)
  case None
  then have "snd (load_from_disk J dir store_new) = store_new\<lparr>hops := []\<rparr>"
    by (simp add: load_from_disk_def store_new_def)
  moreover have "hops_ok []" by (simp add: hops_ok_def hm_wf_def hm_get_def)
  ultimately show ?thesis by blast
next
  case (Some es)
  obtain m n where f: "fold (load_hop_entry J) es (hops store_new, 0) = (m, n)" by force
  have "hops_ok (hops store_new)" by (simp add: store_new_def hops_ok_def hm_wf_def hm_get_def)
  from hops_ok_load_entries [OF this, of J es 0] f Some show ?thesis
    by (auto simp: load_from_disk_def)
qed

section \<open>The routes\<close>

lemma tmpl_ok_persisted: "tmpl_ok B L s t \<Longrightarrow> tmpl_ok B L s (persisted t)"
  by (simp add: tmpl_ok_def persisted_def hm_wf_def hm_get_def)

lemma loaded_store_inv:
  assumes "serde_lawful J" "store_inv B L g" "route_count g \<le> ROUTE_SEG_CAP" "hops_ok m"
    and "enc_routes J (route_file_of g) = Some s"
  shows "store_inv B L (snd (load_routes_from_disk J (Some s) (store_new\<lparr>hops := m\<rparr>)))"
proof -
  have "routes_hot (store_new\<lparr>hops := m\<rparr>) = []" "routes_cold (store_new\<lparr>hops := m\<rparr>) = []"
    "hop_pair_index (store_new\<lparr>hops := m\<rparr>) = []" by (simp_all add: store_new_def)
  then obtain g' where g': "load_routes_from_disk J (Some s) (store_new\<lparr>hops := m\<rparr>) = (route_count g, g')"
      "\<And>s. visible g' s = map_option persisted (visible g s)" "hm_wf (routes_hot g')"
      "hm_len (routes_hot g') = route_count g" "routes_cold g' = []" "hops g' = m" "hm_wf (hop_pair_index g')"
    by (rule load_flushed [OF assms(1,2,5)]) auto
  have "store_wf g'"
    using g'(3-7) assms(3,4) by (simp add: store_wf_def hops_ok_def hm_wf_def hm_get_def hm_len_def)
  moreover have "tmpl_ok B L s' t" if "visible g' s' = Some t" for s' t
    using that assms(2) tmpl_ok_persisted by (auto simp: g'(2) store_inv_def)
  ultimately show ?thesis by (simp add: g'(1) store_inv_def)
qed

text \<open>What a store holds at the end of a session that started on what earlier ones built.\<close>

lemma stored_after_session:
  assumes "b64_lawful B" "stored_before B L0 (cx_template_store x)" "main_run B c x mints tm n hist L cy"
  shows "stored_before B (L0 \<union> L) (w_store (cy_world cy))"
  using main_run_opportunity [OF assms] by (auto simp: opportunity_inv_def floor_inv_def stored_before_def)

lemma async_main_store:
  "async_main E toml c = Inr (mints, tm, x) \<Longrightarrow> cx_template_store x = store_start E (cf_template_cache c)"
  by (auto simp: async_main_def Let_def split: sum.splits option.splits prod.splits)


section \<open>A restart\<close>

definition second_boot :: "store \<Rightarrow> (pubkey \<Rightarrow> chain_account option, versioned_transaction) boot_env" where
  "second_boot g = sample_boot\<lparr>be_serde := plain_serde,
     be_routes_file := hm_get (flush_routes_to_disk plain_serde Saved g []) routes_json_path\<rparr>"

lemma second_start: "\<exists>tm x. async_main (second_boot g) (\<lambda>_. None) loop_config = Inr ([''EPj''], tm, x)"
proof -
  have "load_tokens (Some ''EPj'') = Inr [''EPj'']" by code_simp
  then show ?thesis
    by (simp add: second_boot_def async_main_def sample_boot_def loop_config_def read_keypair_def sim_start_def
        simulation_default_def Let_def split: prod.split sum.split)
qed


end
